(* ===== verification/Ill_Prelude.thy ===== *)
theory Ill_Prelude
  imports Main "HOL-Library.Word" "HOL-Library.Sublist" "HOL-Library.Char_ord"
    "HOL-Library.List_Lexorder"
begin

unbundle bit_operations_syntax

text \<open>
  Shared vocabulary of the development.

  \<^item> Types. A Rust \<open>String\<close> or \<open>&str\<close> is a \<^typ>\<open>string\<close> whose characters are the bytes of its
    UTF-8 encoding, so byte comparison, substring search and concatenation are those of Rust.
    \<open>u8\<close> and \<open>u16\<close> are words, \<open>f64\<close> is its bit pattern, \<open>i64\<close> is an \<^typ>\<open>int\<close> that every
    parser in the model bounds, and \<open>usize\<close> is a \<^typ>\<open>nat\<close>.
  \<^item> Results. \<open>Result<T, E>\<close> is the sum \<open>'e + 'a\<close> with \<open>Inl\<close> for \<open>Err\<close>.
  \<^item> Containers. \<open>IndexMap\<close> (insertion-ordered) and \<open>BTreeMap\<close> (key-ordered) are association
    lists with distinct keys; \<open>HashMap\<close>s whose order is never observed are maps. The contract the
    clients rely on is the locale \<open>string_map\<close>, interpreted on both containers.
  \<^item> Text. Decimal printing and parsing of \<open>i64\<close>, UTF-8 validation, splitting at a character and
    trimming, as the standard library defines them.
\<close>

named_theorems ill_simps "unfolding rules of the model's definitions"
named_theorems container_laws "laws of the containers"

type_synonym u8 = "8 word"
type_synonym u16 = "16 word"
type_synonym f64 = "64 word"

section \<open>Options, lists and folds\<close>

definition find_by :: "('a \<Rightarrow> 'k) \<Rightarrow> 'k \<Rightarrow> 'a list \<Rightarrow> 'a option" where
  "find_by key k xs = find (\<lambda>x. key x = k) xs"

lemma find_by_Nil [simp]: "find_by key k [] = None"
  by (simp add: find_by_def)

lemma find_by_Cons [simp]:
  "find_by key k (x # xs) = (if key x = k then Some x else find_by key k xs)"
  by (simp add: find_by_def)

lemma find_by_SomeD: "find_by key k xs = Some x \<Longrightarrow> x \<in> set xs \<and> key x = k"
  by (induction xs) (auto split: if_splits)

lemma find_by_None_iff: "find_by key k xs = None \<longleftrightarrow> k \<notin> key ` set xs"
  by (induction xs) auto

lemma find_by_distinct:
  "distinct (map key xs) \<Longrightarrow> x \<in> set xs \<Longrightarrow> find_by key (key x) xs = Some x"
  by (induction xs) (auto simp: image_iff)

lemma fold_invariant:
  assumes "I s" and "\<And>x s. x \<in> set xs \<Longrightarrow> I s \<Longrightarrow> I (f x s)"
  shows "I (fold f xs s)"
  using assms by (induction xs arbitrary: s) auto

lemma fold_pair:
  "fold (\<lambda>x (a, b). (f x a, g x b)) xs (a, b) = (fold f xs a, fold g xs b)"
  by (induction xs arbitrary: a b) simp_all

text \<open>\<open>try_map\<close> and \<open>try_fold\<close> run over a list and stop at the first \<open>Err\<close>, as \<open>?\<close> in a loop does.\<close>

fun try_map :: "('a \<Rightarrow> 'e + 'b) \<Rightarrow> 'a list \<Rightarrow> 'e + 'b list" where
  "try_map f [] = Inr []"
| "try_map f (x # xs) =
     (case f x of Inl e \<Rightarrow> Inl e
      | Inr y \<Rightarrow> (case try_map f xs of Inl e \<Rightarrow> Inl e | Inr ys \<Rightarrow> Inr (y # ys)))"

lemma try_map_Inr_iff:
  "try_map f xs = Inr ys \<longleftrightarrow> list_all2 (\<lambda>x y. f x = Inr y) xs ys"
proof (induction xs arbitrary: ys)
  case (Cons x xs)
  then show ?case
    by (cases "f x"; cases "try_map f xs") (auto simp: list_all2_Cons1)
qed auto

lemma try_map_length: "try_map f xs = Inr ys \<Longrightarrow> length ys = length xs"
  by (auto simp: try_map_Inr_iff dest: list_all2_lengthD)

lemma try_map_cong [fundef_cong]:
  "xs = ys \<Longrightarrow> (\<And>x. x \<in> set ys \<Longrightarrow> f x = g x) \<Longrightarrow> try_map f xs = try_map g ys"
proof (induction xs arbitrary: ys)
  case (Cons x xs)
  then show ?case by (cases ys) (auto split: sum.splits)
qed simp

fun try_fold :: "('a \<Rightarrow> 's \<Rightarrow> 'e + 's) \<Rightarrow> 'a list \<Rightarrow> 's \<Rightarrow> 'e + 's" where
  "try_fold f [] s = Inr s"
| "try_fold f (x # xs) s = (case f x s of Inl e \<Rightarrow> Inl e | Inr s' \<Rightarrow> try_fold f xs s')"

lemma try_fold_cong [fundef_cong]:
  "xs = ys \<Longrightarrow> s = t \<Longrightarrow> (\<And>x s. x \<in> set ys \<Longrightarrow> f x s = g x s) \<Longrightarrow>
   try_fold f xs s = try_fold g ys t"
proof (induction xs arbitrary: ys s t)
  case (Cons x xs)
  then show ?case by (cases ys) (auto split: sum.splits)
qed simp

lemma try_fold_InlD: "try_fold f xs s = Inl e \<Longrightarrow> \<exists>x \<in> set xs. \<exists>s. f x s = Inl e"
  by (induction xs arbitrary: s) (auto split: sum.splits)

lemma try_map_InlD: "try_map f xs = Inl e \<Longrightarrow> \<exists>x \<in> set xs. f x = Inl e"
  by (induction xs) (auto split: sum.splits)

lemma try_fold_append:
  "try_fold f (xs @ ys) s =
     (case try_fold f xs s of Inl e \<Rightarrow> Inl e | Inr s' \<Rightarrow> try_fold f ys s')"
  by (induction xs arbitrary: s) (auto split: sum.splits)

lemma try_fold_invariant:
  assumes "try_fold f xs s = Inr t" and "I s"
    and "\<And>x s t. x \<in> set xs \<Longrightarrow> I s \<Longrightarrow> f x s = Inr t \<Longrightarrow> I t"
  shows "I t"
  using assms
proof (induction xs arbitrary: s)
  case (Cons x xs)
  then obtain s' where s': "f x s = Inr s'" "try_fold f xs s' = Inr t"
    by (auto split: sum.splits)
  with Cons.prems have "I s'" by auto
  with Cons s' show ?case by auto
qed simp

lemma map_sum_id_Inr: "map_sum id f x = Inr y \<longleftrightarrow> (\<exists>z. x = Inr z \<and> y = f z)"
  by (cases x) auto

lemma map_sum_Inl_id: "map_sum f id x = Inl y \<longleftrightarrow> (\<exists>z. x = Inl z \<and> y = f z)"
  by (cases x) auto

lemma map_sum_Inr_id: "map_sum f id x = Inr y \<longleftrightarrow> x = Inr y"
  by (cases x) auto

lemma map_sum_id_Inl: "map_sum id f x = Inl y \<longleftrightarrow> x = Inl y"
  by (cases x) auto

fun option_fold :: "('a \<Rightarrow> 's \<Rightarrow> 's option) \<Rightarrow> 'a list \<Rightarrow> 's \<Rightarrow> 's option" where
  "option_fold f [] s = Some s"
| "option_fold f (x # xs) s = (case f x s of None \<Rightarrow> None | Some s' \<Rightarrow> option_fold f xs s')"

lemma option_fold_cong [fundef_cong]:
  "xs = ys \<Longrightarrow> s = t \<Longrightarrow> (\<And>x s. x \<in> set ys \<Longrightarrow> f x s = g x s) \<Longrightarrow>
   option_fold f xs s = option_fold g ys t"
proof (induction xs arbitrary: ys s t)
  case (Cons x xs)
  then show ?case by (cases ys) (auto split: option.splits)
qed simp

section \<open>Maps with ordered keys\<close>

text \<open>
  The contract a client of \<open>IndexMap\<close> or \<open>BTreeMap\<close> relies on: what a lookup returns after an
  insertion, that keys stay distinct, and which keys there are. \<open>build\<close> is the source's pattern
  of a fresh map filled by a loop of \<open>insert\<close>s.
\<close>

locale string_map =
  fixes empty :: "'m" and insert :: "'k \<Rightarrow> 'v \<Rightarrow> 'm \<Rightarrow> 'm"
    and get :: "'m \<Rightarrow> 'k \<Rightarrow> 'v option" and keys :: "'m \<Rightarrow> 'k list" and invar :: "'m \<Rightarrow> bool"
  assumes get_empty: "get empty k = None"
    and get_insert: "get (insert k v m) k' = (if k' = k then Some v else get m k')"
    and set_keys: "set (keys m) = {k. get m k \<noteq> None}"
    and invar_empty: "invar empty"
    and invar_insert: "invar m \<Longrightarrow> invar (insert k v m)"
    and distinct_keys: "invar m \<Longrightarrow> distinct (keys m)"
begin

lemma get_build:
  "get (fold (\<lambda>(k, v). insert k v) kvs m) k =
     (case map_of (rev kvs) k of Some v \<Rightarrow> Some v | None \<Rightarrow> get m k)"
proof (induction kvs arbitrary: m)
  case (Cons kv kvs)
  then show ?case by (cases kv) (auto simp: get_insert map_add_def split: option.splits)
qed simp

lemma invar_build: "invar m \<Longrightarrow> invar (fold (\<lambda>(k, v). insert k v) kvs m)"
  by (rule fold_invariant) (auto intro: invar_insert)

lemma set_keys_insert: "set (keys (insert k v m)) = Set.insert k (set (keys m))"
  by (auto simp: set_keys get_insert)

lemma set_keys_build:
  "set (keys (fold (\<lambda>(k, v). insert k v) kvs m)) = fst ` set kvs \<union> set (keys m)"
  by (induction kvs arbitrary: m) (auto simp: set_keys_insert split: prod.splits)

lemma insert_comm: "k \<noteq> k' \<Longrightarrow> get (insert k v (insert k' w m)) = get (insert k' w (insert k v m))"
  by (rule ext) (simp add: get_insert)

end

text \<open>\<open>IndexMap::insert\<close>: an existing key keeps its position, a new one goes last.\<close>

fun index_insert :: "'k \<Rightarrow> 'v \<Rightarrow> ('k \<times> 'v) list \<Rightarrow> ('k \<times> 'v) list" where
  "index_insert k v [] = [(k, v)]"
| "index_insert k v ((k', v') # m) =
     (if k' = k then (k', v) # m else (k', v') # index_insert k v m)"

lemma map_of_index_insert [simp]: "map_of (index_insert k v m) = (map_of m)(k \<mapsto> v)"
  by (induction k v m rule: index_insert.induct) auto

lemma keys_index_insert:
  "map fst (index_insert k v m) = (if k \<in> fst ` set m then map fst m else map fst m @ [k])"
  by (induction k v m rule: index_insert.induct) auto

lemma index_insert_fresh: "k \<notin> fst ` set m \<Longrightarrow> index_insert k v m = m @ [(k, v)]"
  by (induction k v m rule: index_insert.induct) auto

interpretation index_map: string_map "[]" index_insert map_of "map fst"
  "\<lambda>m. distinct (map fst m)"
  by unfold_locales
    (auto simp: map_of_eq_None_iff keys_index_insert simp flip: dom_map_of_conv_image_fst)

text \<open>A map built from pairs: the keys in the order they first occur, each with its last value.\<close>

lemma keys_index_build: "map fst (fold (\<lambda>(k, v). index_insert k v) kvs []) = rev (remdups (rev (map fst kvs)))"
proof (induction kvs rule: rev_induct)
  case (snoc kv kvs)
  have "fst ` set (fold (\<lambda>(k, v). index_insert k v) kvs []) = fst ` set kvs"
    using index_map.set_keys_build [of kvs "[]"] by simp
  with snoc show ?case by (cases kv) (auto simp: keys_index_insert)
qed simp

lemma index_build_eq:
  "fold (\<lambda>(k, v). index_insert k v) kvs [] =
   map (\<lambda>k. (k, the (map_of (rev kvs) k))) (rev (remdups (rev (map fst kvs))))"
proof -
  let ?m = "fold (\<lambda>(k, v). index_insert k v) kvs []"
  have d: "distinct (map fst ?m)" by (simp add: keys_index_build)
  have get: "map_of ?m = map_of (rev kvs)"
    by (rule ext) (simp add: index_map.get_build split: option.splits)
  have "?m = map (\<lambda>k. (k, the (map_of ?m k))) (map fst ?m)"
    using d by (auto simp: map_idI comp_def intro!: map_idI [symmetric])
  then show ?thesis by (simp only: get keys_index_build)
qed

lemma index_build_distinct:
  assumes "distinct (map fst (m @ kvs))"
  shows "fold (\<lambda>(k, v). index_insert k v) kvs m = m @ kvs"
  using assms
proof (induction kvs arbitrary: m)
  case (Cons kv kvs)
  obtain k v where kv: "kv = (k, v)" by (cases kv)
  with Cons.prems have "k \<notin> fst ` set m" by auto
  then have "index_insert k v m = m @ [(k, v)]" by (rule index_insert_fresh)
  with Cons kv show ?case by simp
qed simp

text \<open>\<open>BTreeMap::insert\<close>: entries are kept in increasing key order.\<close>

fun btree_insert :: "'k::linorder \<Rightarrow> 'v \<Rightarrow> ('k \<times> 'v) list \<Rightarrow> ('k \<times> 'v) list" where
  "btree_insert k v [] = [(k, v)]"
| "btree_insert k v ((k', v') # m) =
     (if k < k' then (k, v) # (k', v') # m
      else if k = k' then (k, v) # m
      else (k', v') # btree_insert k v m)"

lemma map_of_btree_insert [simp]: "map_of (btree_insert k v m) = (map_of m)(k \<mapsto> v)"
  by (induction k v m rule: btree_insert.induct) auto

lemma set_keys_btree_insert: "fst ` set (btree_insert k v m) = insert k (fst ` set m)"
  by (induction k v m rule: btree_insert.induct) auto

lemma btree_insert_sorted:
  "sorted_wrt (<) (map fst m) \<Longrightarrow> sorted_wrt (<) (map fst (btree_insert k v m))"
proof (induction k v m rule: btree_insert.induct)
  case (2 k v k' v' m)
  then show ?case by (auto simp: set_keys_btree_insert)
qed simp

lemma strict_sorted_imp_distinct: "sorted_wrt (<) xs \<Longrightarrow> distinct (xs :: 'a::linorder list)"
  by (simp add: strict_sorted_iff)

interpretation btree_map: string_map "[]" btree_insert map_of "map fst"
  "\<lambda>m. sorted_wrt (<) (map fst m)"
  by unfold_locales
    (auto simp: map_of_eq_None_iff intro: btree_insert_sorted strict_sorted_imp_distinct
      simp flip: dom_map_of_conv_image_fst)

section \<open>Text\<close>

text \<open>\<open>i64::to_string\<close>.\<close>

definition digit_char :: "nat \<Rightarrow> char" where
  "digit_char n = char_of (48 + n)"

fun show_nat :: "nat \<Rightarrow> string" where
  "show_nat n = (if n < 10 then [digit_char n] else show_nat (n div 10) @ [digit_char (n mod 10)])"

declare show_nat.simps [simp del]

definition show_int :: "int \<Rightarrow> string" where
  "show_int n = (if n < 0 then CHR ''-'' # show_nat (nat (- n)) else show_nat (nat n))"

definition show_bool :: "bool \<Rightarrow> string" where
  "show_bool b = (if b then ''true'' else ''false'')"

text \<open>
  \<open>str::parse::<i64>\<close>: an optional sign followed by at least one ASCII digit, and a value in range.
\<close>

definition digit_val :: "char \<Rightarrow> nat option" where
  "digit_val c = (let n = (of_char c :: nat) in if 48 \<le> n \<and> n \<le> 57 then Some (n - 48) else None)"

fun read_nat :: "nat \<Rightarrow> string \<Rightarrow> nat option" where
  "read_nat acc [] = Some acc"
| "read_nat acc (c # cs) =
     (case digit_val c of None \<Rightarrow> None | Some d \<Rightarrow> read_nat (10 * acc + d) cs)"

definition i64_min :: int where "i64_min = - (2 ^ 63)"
definition i64_max :: int where "i64_max = 2 ^ 63 - 1"

definition in_i64 :: "int \<Rightarrow> bool" where
  "in_i64 n \<longleftrightarrow> i64_min \<le> n \<and> n \<le> i64_max"

definition parse_i64 :: "string \<Rightarrow> int option" where
  "parse_i64 s =
     (let (neg, ds) = (case s of
            [] \<Rightarrow> (False, [])
          | c # cs \<Rightarrow> if c = CHR ''-'' then (True, cs) else if c = CHR ''+'' then (False, cs)
                     else (False, s))
      in if ds = [] then None
         else (case read_nat 0 ds of
                 None \<Rightarrow> None
               | Some m \<Rightarrow> (let n = (if neg then - int m else int m)
                           in if in_i64 n then Some n else None)))"

definition parse_bool :: "string \<Rightarrow> bool option" where
  "parse_bool s = (if s = ''true'' then Some True else if s = ''false'' then Some False else None)"

lemma digit_val_digit_char: "n < 10 \<Longrightarrow> digit_val (digit_char n) = Some n"
  by (simp add: digit_val_def digit_char_def)

lemma show_nat_nonempty: "show_nat n \<noteq> []"
  by (subst show_nat.simps) simp

lemma read_nat_append:
  "read_nat acc (xs @ ys) = (case read_nat acc xs of None \<Rightarrow> None | Some m \<Rightarrow> read_nat m ys)"
  by (induction acc xs rule: read_nat.induct) (auto split: option.splits)

lemma read_nat_show_nat: "read_nat 0 (show_nat n) = Some n"
proof (induction n rule: show_nat.induct)
  case (1 n)
  show ?case
  proof (cases "n < 10")
    case True
    then show ?thesis by (subst show_nat.simps) (simp add: digit_val_digit_char)
  next
    case False
    with "1.IH" have "read_nat 0 (show_nat (n div 10)) = Some (n div 10)" by simp
    with False show ?thesis
      by (subst show_nat.simps) (simp add: read_nat_append digit_val_digit_char)
  qed
qed

lemma hd_show_nat: "hd (show_nat n) \<in> digit_char ` {..<10}"
proof (induction n rule: show_nat.induct)
  case (1 n)
  then show ?case
    by (subst show_nat.simps) (auto simp: show_nat_nonempty)
qed

lemma digit_char_not_sign:
  "n < 10 \<Longrightarrow> digit_char n \<noteq> CHR ''-'' \<and> digit_char n \<noteq> CHR ''+''"
proof -
  assume "n < 10"
  then have "of_char (digit_char n) = 48 + n" by (simp add: digit_char_def)
  then show ?thesis by auto
qed

lemma parse_i64_show_int: "in_i64 n \<Longrightarrow> parse_i64 (show_int n) = Some n"
proof -
  assume n: "in_i64 n"
  obtain c cs where c: "show_nat (nat n) = c # cs"
    by (cases "show_nat (nat n)") (auto simp: show_nat_nonempty)
  with hd_show_nat [of "nat n"] have "c \<noteq> CHR ''-'' \<and> c \<noteq> CHR ''+''"
    by (auto dest: digit_char_not_sign)
  moreover have "read_nat 0 (c # cs) = Some (nat n)"
    using read_nat_show_nat [of "nat n"] c by simp
  ultimately show ?thesis
    using n c by (auto simp: parse_i64_def show_int_def show_nat_nonempty read_nat_show_nat
        simp del: read_nat.simps)
qed

lemma parse_i64_range: "parse_i64 s = Some n \<Longrightarrow> in_i64 n"
  by (auto simp: parse_i64_def Let_def split: prod.splits option.splits if_splits)

text \<open>\<open>str::split_once\<close> at a character, and the byte view of a string.\<close>

fun split_once :: "char \<Rightarrow> string \<Rightarrow> (string \<times> string) option" where
  "split_once d [] = None"
| "split_once d (c # cs) =
     (if c = d then Some ([], cs)
      else (case split_once d cs of None \<Rightarrow> None | Some (a, b) \<Rightarrow> Some (c # a, b)))"

lemma split_once_SomeD: "split_once d s = Some (a, b) \<Longrightarrow> s = a @ d # b \<and> d \<notin> set a"
  by (induction d s arbitrary: a rule: split_once.induct) (auto split: if_splits option.splits)

lemma split_once_append: "d \<notin> set a \<Longrightarrow> split_once d (a @ d # b) = Some (a, b)"
  by (induction a) auto

lemma split_once_Some_iff:
  "split_once d s = Some (a, b) \<longleftrightarrow> s = a @ d # b \<and> d \<notin> set a"
  by (auto dest: split_once_SomeD simp: split_once_append)

lemma split_once_None_iff: "split_once d s = None \<longleftrightarrow> d \<notin> set s"
  by (induction d s rule: split_once.induct) (auto split: option.splits)

definition byte_of :: "char \<Rightarrow> u8" where
  "byte_of c = of_nat (of_char c)"

definition char_of_byte :: "u8 \<Rightarrow> char" where
  "char_of_byte b = char_of (unat b)"

definition as_bytes :: "string \<Rightarrow> u8 list" where
  "as_bytes s = map byte_of s"

definition from_bytes :: "u8 list \<Rightarrow> string" where
  "from_bytes bs = map char_of_byte bs"

lemma char_of_byte_of [simp]: "char_of_byte (byte_of c) = c"
  by (simp add: char_of_byte_def byte_of_def unat_of_nat)

lemma from_as_bytes [simp]: "from_bytes (as_bytes s) = s"
  by (induction s) (simp_all add: from_bytes_def as_bytes_def)

lemma byte_of_char_of_byte [simp]: "byte_of (char_of_byte b) = b"
proof -
  have "unat b < 256" using unsigned_less [where 'a = nat, of b] by simp
  then show ?thesis by (simp add: char_of_byte_def byte_of_def)
qed

lemma as_from_bytes [simp]: "as_bytes (from_bytes bs) = bs"
  by (induction bs) (simp_all add: from_bytes_def as_bytes_def)

lemma as_bytes_append [simp]: "as_bytes (xs @ ys) = as_bytes xs @ as_bytes ys"
  by (simp add: as_bytes_def)

text \<open>\<open>[&str]::join\<close>.\<close>

fun join :: "string \<Rightarrow> string list \<Rightarrow> string" where
  "join sep [] = []"
| "join sep [x] = x"
| "join sep (x # y # ys) = x @ sep @ join sep (y # ys)"

end
