(* ===== verification/Ill_Ast.thy ===== *)
theory Ill_Ast
  imports Ill_Prelude
begin

text \<open>
  The abstract syntax of \<open>.ill\<close> files, \<^verbatim>\<open>ast.rs\<close>: every struct is a record (or, where it takes
  part in the recursion of expressions, a one-constructor datatype), every enum a datatype with
  the source's constructors.
\<close>

record span =
  span_start :: nat
  span_end :: nat

record ident =
  ident_name :: string
  ident_span :: span

datatype expr =
    EIdent ident
  | EStringLit string_lit
  | ENumber int
  | EBool bool
  | ENull
  | EAtom ident
  | EArray "expr list"
  | ESquiggle squiggle
  | EMemberAccess (ma_object: expr) (ma_property: ident) (ma_span: span)
  | EIndex (ix_object: expr) (ix_indices: "expr list") (ix_span: span)
and string_lit = StringLit (lit_fragments: "string_fragment list") (lit_span: span)
and squiggle = Squiggle (sq_name: ident) (sq_fragments: "string_fragment list") (sq_span: span)
and string_fragment = Text string | Interpolation expr

record annotation =
  ann_name :: ident
  ann_value :: "string option"
  ann_span :: span

datatype keyword_value = KwExpr expr | KwMap "(expr \<times> expr) list"

record keyword_arg =
  kw_key :: ident
  kw_value :: keyword_value
  kw_span :: span

record var_declaration =
  var_annotations :: "annotation list"
  var_name :: ident
  var_default :: "expr option"
  var_span :: span

record actor_declaration =
  decl_name :: ident
  decl_actor_type :: ident
  decl_keyword_args :: "keyword_arg list"
  decl_vars :: "var_declaration list"
  decl_span :: span

record command =
  cmd_annotation :: "annotation option"
  cmd_name :: ident
  cmd_positional_args :: "expr list"
  cmd_keyword_args :: "keyword_arg list"
  cmd_span :: span

record assignment =
  asg_target :: expr
  asg_value :: expr
  asg_span :: span

datatype comparison_op =
  OpEq | OpNotEq | OpGt | OpGte | OpLt | OpLte | OpContains | OpNotContains | OpMatches | OpNotMatches

record assert_stmt =
  as_annotation :: "annotation option"
  as_left :: expr
  as_op :: "comparison_op option"
  as_right :: "expr option"
  as_span :: span

datatype let_value = LetExpr expr | LetParse expr ident

record let_stmt =
  let_name :: ident
  let_val :: let_value
  let_span :: span

datatype statement =
  SCommand command | SAssert assert_stmt | SLet let_stmt | SAssignment assignment

record as_block =
  blk_actor :: ident
  blk_body :: "statement list"
  blk_span :: span

datatype top_level = TActorDeclaration actor_declaration | TAsBlock as_block

record source_file =
  src_items :: "top_level list"

text \<open>\<open>impl Display for ComparisonOp\<close>.\<close>

fun comparison_op_display :: "comparison_op \<Rightarrow> string" where
  "comparison_op_display OpEq = ''==''"
| "comparison_op_display OpNotEq = ''!=''"
| "comparison_op_display OpGt = ''>''"
| "comparison_op_display OpGte = ''>=''"
| "comparison_op_display OpLt = ''<''"
| "comparison_op_display OpLte = ''<=''"
| "comparison_op_display OpContains = ''contains''"
| "comparison_op_display OpNotContains = ''!contains''"
| "comparison_op_display OpMatches = ''matches''"
| "comparison_op_display OpNotMatches = ''!matches''"

section \<open>Traversals shared by the validator and the harness\<close>

text \<open>
  \<open>expr_starts_with_ident\<close> of \<^verbatim>\<open>validate.rs\<close>, used by both passes to find \<open>ok.*\<close> and \<open>error.*\<close>
  references.
\<close>

fun expr_starts_with_ident :: "expr \<Rightarrow> string \<Rightarrow> bool" where
  "expr_starts_with_ident (EIdent i) name = (ident_name i = name)"
| "expr_starts_with_ident (EMemberAccess obj p sp) name = expr_starts_with_ident obj name"
| "expr_starts_with_ident (EIndex obj ixs sp) name = expr_starts_with_ident obj name"
| "expr_starts_with_ident _ name = False"

text \<open>The root identifier of a member/index chain; the predicate compares it with a name.\<close>

fun root_ident :: "expr \<Rightarrow> string option" where
  "root_ident (EIdent i) = Some (ident_name i)"
| "root_ident (EMemberAccess obj p sp) = root_ident obj"
| "root_ident (EIndex obj ixs sp) = root_ident obj"
| "root_ident _ = None"

lemma expr_starts_with_ident_root: "expr_starts_with_ident e name \<longleftrightarrow> root_ident e = Some name"
  by (induction e name rule: expr_starts_with_ident.induct) auto

lemma starts_with_unique:
  "expr_starts_with_ident e a \<Longrightarrow> expr_starts_with_ident e b \<Longrightarrow> a = b"
  by (simp add: expr_starts_with_ident_root)

text \<open>
  \<open>for_each_expr\<close> of \<^verbatim>\<open>validate.rs\<close>: the closure \<open>f\<close> updates the state \<open>s\<close> it captured at every
  sub-expression in pre-order.
\<close>

fun for_each_expr :: "expr \<Rightarrow> (expr \<Rightarrow> 's \<Rightarrow> 's) \<Rightarrow> 's \<Rightarrow> 's"
  and for_each_exprs :: "expr list \<Rightarrow> (expr \<Rightarrow> 's \<Rightarrow> 's) \<Rightarrow> 's \<Rightarrow> 's"
  and for_each_fragment :: "string_fragment list \<Rightarrow> (expr \<Rightarrow> 's \<Rightarrow> 's) \<Rightarrow> 's \<Rightarrow> 's"
where
  "for_each_expr (ESquiggle (Squiggle n frags sp)) f s =
     for_each_fragment frags f (f (ESquiggle (Squiggle n frags sp)) s)"
| "for_each_expr (EStringLit (StringLit frags sp)) f s =
     for_each_fragment frags f (f (EStringLit (StringLit frags sp)) s)"
| "for_each_expr (EArray items) f s = for_each_exprs items f (f (EArray items) s)"
| "for_each_expr (EMemberAccess obj p sp) f s = for_each_expr obj f (f (EMemberAccess obj p sp) s)"
| "for_each_expr (EIndex obj ixs sp) f s =
     for_each_exprs ixs f (for_each_expr obj f (f (EIndex obj ixs sp) s))"
| "for_each_expr (EIdent i) f s = f (EIdent i) s"
| "for_each_expr (ENumber n) f s = f (ENumber n) s"
| "for_each_expr (EBool b) f s = f (EBool b) s"
| "for_each_expr ENull f s = f ENull s"
| "for_each_expr (EAtom i) f s = f (EAtom i) s"
| "for_each_exprs [] f s = s"
| "for_each_exprs (e # es) f s = for_each_exprs es f (for_each_expr e f s)"
| "for_each_fragment [] f s = s"
| "for_each_fragment (Text t # fs) f s = for_each_fragment fs f s"
| "for_each_fragment (Interpolation e # fs) f s = for_each_fragment fs f (for_each_expr e f s)"

text \<open>The sub-expressions of an expression, in pre-order; the traversal is a fold over them.\<close>

fun subexprs :: "expr \<Rightarrow> expr list"
  and subexprs_list :: "expr list \<Rightarrow> expr list"
  and subexprs_frags :: "string_fragment list \<Rightarrow> expr list"
where
  "subexprs (ESquiggle (Squiggle n frags sp)) = ESquiggle (Squiggle n frags sp) # subexprs_frags frags"
| "subexprs (EStringLit (StringLit frags sp)) = EStringLit (StringLit frags sp) # subexprs_frags frags"
| "subexprs (EArray items) = EArray items # subexprs_list items"
| "subexprs (EMemberAccess obj p sp) = EMemberAccess obj p sp # subexprs obj"
| "subexprs (EIndex obj ixs sp) = EIndex obj ixs sp # subexprs obj @ subexprs_list ixs"
| "subexprs (EIdent i) = [EIdent i]"
| "subexprs (ENumber n) = [ENumber n]"
| "subexprs (EBool b) = [EBool b]"
| "subexprs ENull = [ENull]"
| "subexprs (EAtom i) = [EAtom i]"
| "subexprs_list [] = []"
| "subexprs_list (e # es) = subexprs e @ subexprs_list es"
| "subexprs_frags [] = []"
| "subexprs_frags (Text t # fs) = subexprs_frags fs"
| "subexprs_frags (Interpolation e # fs) = subexprs e @ subexprs_frags fs"

lemma for_each_expr_fold:
  "for_each_expr e f s = fold f (subexprs e) s"
  "for_each_exprs es f s = fold f (subexprs_list es) s"
  "for_each_fragment fs f s = fold f (subexprs_frags fs) s"
  by (induction e f s and es f s and fs f s
      rule: for_each_expr_for_each_exprs_for_each_fragment.induct) simp_all

lemma subexprs_self [simp]: "e \<in> set (subexprs e)"
  by (cases e rule: subexprs.cases) simp_all

text \<open>The names an expression reads from the scope.\<close>

fun names_of :: "expr list \<Rightarrow> string set" where
  "names_of [] = {}"
| "names_of (EIdent i # es) = insert (ident_name i) (names_of es)"
| "names_of (_ # es) = names_of es"

lemma names_of_append [simp]: "names_of (xs @ ys) = names_of xs \<union> names_of ys"
  by (induction xs rule: names_of.induct) auto

definition expr_names :: "expr \<Rightarrow> string set" where
  "expr_names e = names_of (subexprs e)"

text \<open>The body of a statement list up to, not including, the next command.\<close>

fun is_command :: "statement \<Rightarrow> bool" where
  "is_command (SCommand c) = True"
| "is_command _ = False"

definition window :: "statement list \<Rightarrow> statement list" where
  "window body = takeWhile (\<lambda>s. \<not> is_command s) body"

lemma window_simps [simp]:
  "window [] = []"
  "window (SCommand c # body) = []"
  "window (SAssert a # body) = SAssert a # window body"
  "window (SLet l # body) = SLet l # window body"
  "window (SAssignment g # body) = SAssignment g # window body"
  by (simp_all add: window_def)

end
