(* ===== verification/Ill_Value.thy ===== *)
theory Ill_Value
  imports Ill_Prelude
begin

text \<open>
  Runtime values, \<^verbatim>\<open>runtime/value.rs\<close>, and the type language of \<^verbatim>\<open>actor_type/mod.rs\<close>. A \<open>Dict\<close> is an
  \<open>IndexMap<String, Value>\<close>, the list of its entries in insertion order. An \<open>f64\<close> is its IEEE 754
  bit pattern, so the derived \<open>PartialEq\<close> of values is the function \<open>value_eq\<close> and not HOL
  equality: a NaN differs from itself, the two zeros are equal, and maps compare without order.
\<close>

datatype value_type =
    TyString | TyNumber | TyFloat | TyBool | TyAtom | TyBytes | TyDict | TyNull | TyDynamic
  | TyUnknown

datatype val =
    VString string
  | VNumber int
  | VFloat f64
  | VBool bool
  | VAtom string
  | VBytes "u8 list"
  | VArray "val list"
  | VDict "(string \<times> val) list"
  | VNull

type_synonym dict = "(string \<times> val) list"

fun type_name :: "val \<Rightarrow> string" where
  "type_name (VString _) = ''string''"
| "type_name (VNumber _) = ''number''"
| "type_name (VFloat _) = ''float''"
| "type_name (VBool _) = ''bool''"
| "type_name (VAtom _) = ''atom''"
| "type_name (VBytes _) = ''bytes''"
| "type_name (VArray _) = ''array''"
| "type_name (VDict _) = ''dict''"
| "type_name VNull = ''null''"

fun is_of_type :: "val \<Rightarrow> value_type \<Rightarrow> bool" where
  "is_of_type _ TyDynamic = True"
| "is_of_type _ TyUnknown = True"
| "is_of_type (VString _) TyString = True"
| "is_of_type (VNumber _) TyNumber = True"
| "is_of_type (VFloat _) TyFloat = True"
| "is_of_type (VBool _) TyBool = True"
| "is_of_type (VAtom _) TyAtom = True"
| "is_of_type (VBytes _) TyBytes = True"
| "is_of_type (VDict _) TyDict = True"
| "is_of_type VNull TyNull = True"
| "is_of_type _ _ = False"

text \<open>\<open>{:?}\<close> of a \<open>ValueType\<close>.\<close>

fun value_type_debug :: "value_type \<Rightarrow> string" where
  "value_type_debug TyString = ''String''"
| "value_type_debug TyNumber = ''Number''"
| "value_type_debug TyFloat = ''Float''"
| "value_type_debug TyBool = ''Bool''"
| "value_type_debug TyAtom = ''Atom''"
| "value_type_debug TyBytes = ''Bytes''"
| "value_type_debug TyDict = ''Dict''"
| "value_type_debug TyNull = ''Null''"
| "value_type_debug TyDynamic = ''Dynamic''"
| "value_type_debug TyUnknown = ''Unknown''"

section \<open>Equality\<close>

definition f64_is_nan :: "f64 \<Rightarrow> bool" where
  "f64_is_nan x \<longleftrightarrow> x AND 0x7FF0000000000000 = 0x7FF0000000000000 \<and> x AND 0x000FFFFFFFFFFFFF \<noteq> 0"

definition f64_is_zero :: "f64 \<Rightarrow> bool" where
  "f64_is_zero x \<longleftrightarrow> x AND 0x7FFFFFFFFFFFFFFF = 0"

definition f64_eq :: "f64 \<Rightarrow> f64 \<Rightarrow> bool" where
  "f64_eq x y \<longleftrightarrow>
     \<not> f64_is_nan x \<and> \<not> f64_is_nan y \<and> (x = y \<or> f64_is_zero x \<and> f64_is_zero y)"

lemma f64_eq_refl: "f64_eq x x \<longleftrightarrow> \<not> f64_is_nan x"
  by (auto simp: f64_eq_def)

lemma f64_eq_sym: "f64_eq x y \<longleftrightarrow> f64_eq y x"
  by (auto simp: f64_eq_def)

fun value_eq :: "val \<Rightarrow> val \<Rightarrow> bool" where
  "value_eq (VString a) (VString b) = (a = b)"
| "value_eq (VNumber a) (VNumber b) = (a = b)"
| "value_eq (VFloat a) (VFloat b) = f64_eq a b"
| "value_eq (VBool a) (VBool b) = (a = b)"
| "value_eq (VAtom a) (VAtom b) = (a = b)"
| "value_eq (VBytes a) (VBytes b) = (a = b)"
| "value_eq (VArray a) (VArray b) = list_all2 value_eq a b"
| "value_eq (VDict a) (VDict b) =
     (length a = length b \<and>
      list_all (\<lambda>(k, v). case map_of b k of None \<Rightarrow> False | Some w \<Rightarrow> value_eq v w) a)"
| "value_eq VNull VNull = True"
| "value_eq _ _ = False"

text \<open>Values without floats: where derived equality and HOL equality can be compared.\<close>

fun nan_free :: "val \<Rightarrow> bool" where
  "nan_free (VFloat x) = (\<not> f64_is_nan x)"
| "nan_free (VArray xs) = list_all nan_free xs"
| "nan_free (VDict d) = (distinct (map fst d) \<and> list_all (\<lambda>(k, v). nan_free v) d)"
| "nan_free _ = True"

lemma value_eq_refl: "nan_free v \<Longrightarrow> value_eq v v"
proof (induction v rule: nan_free.induct)
  case (2 xs)
  then show ?case by (auto simp: list_all_iff list_all2_same)
next
  case (3 d)
  have "case map_of d k of None \<Rightarrow> False | Some w \<Rightarrow> value_eq v w" if kv: "(k, v) \<in> set d" for k v
  proof -
    from 3 kv have "value_eq v v" by (auto simp: list_all_iff)
    moreover from 3 kv have "map_of d k = Some v" by simp
    ultimately show ?thesis by simp
  qed
  then show ?case by (auto simp: list_all_iff)
qed (auto simp: f64_eq_refl)

section \<open>Type tests\<close>

lemma is_of_type_permissive [simp]: "is_of_type v TyUnknown" "is_of_type v TyDynamic"
  by (cases v; simp)+

lemma is_of_type_iff:
  "is_of_type v TyString \<longleftrightarrow> (\<exists>s. v = VString s)"
  "is_of_type v TyNumber \<longleftrightarrow> (\<exists>n. v = VNumber n)"
  "is_of_type v TyFloat \<longleftrightarrow> (\<exists>x. v = VFloat x)"
  "is_of_type v TyBool \<longleftrightarrow> (\<exists>b. v = VBool b)"
  "is_of_type v TyAtom \<longleftrightarrow> (\<exists>a. v = VAtom a)"
  "is_of_type v TyBytes \<longleftrightarrow> (\<exists>b. v = VBytes b)"
  "is_of_type v TyDict \<longleftrightarrow> (\<exists>d. v = VDict d)"
  "is_of_type v TyNull \<longleftrightarrow> v = VNull"
  by (cases v; simp)+

text \<open>The concrete type of a value, where the type language has one: arrays have none.\<close>

fun value_type_of :: "val \<Rightarrow> value_type option" where
  "value_type_of (VString _) = Some TyString"
| "value_type_of (VNumber _) = Some TyNumber"
| "value_type_of (VFloat _) = Some TyFloat"
| "value_type_of (VBool _) = Some TyBool"
| "value_type_of (VAtom _) = Some TyAtom"
| "value_type_of (VBytes _) = Some TyBytes"
| "value_type_of (VArray _) = None"
| "value_type_of (VDict _) = Some TyDict"
| "value_type_of VNull = Some TyNull"

lemma is_of_type_value_type_of:
  "is_of_type v ty \<longleftrightarrow> ty = TyDynamic \<or> ty = TyUnknown \<or> value_type_of v = Some ty"
  by (cases v; cases ty) simp_all

end
