(* ===== verification/Ill_Schema.thy ===== *)
theory Ill_Schema
  imports Ill_Ast Ill_Value
begin

text \<open>
  The static half of the actor substrate, \<^verbatim>\<open>actor_type/mod.rs\<close> and \<^verbatim>\<open>actor_type/outcome.rs\<close>: modes,
  argument and outcome descriptors, commands and actor types. The traits \<open>Mode\<close>, \<open>Command\<close> and
  \<open>ActorType\<close> become a datatype of the mode singletons and two records of what the trait methods
  return; a trait's default methods are the defaults of the record.
\<close>

section \<open>Modes\<close>

text \<open>
  Each mode is a unit struct, compared by \<open>TypeId\<close>: one constructor per struct, so that
  constructor equality is type identity (two modes named \<open>stopped\<close> are different modes).
\<close>

datatype mode =
    PgDisconnected | PgConnected
  | ContainerStopped | ContainerRunning
  | ExecStopped | ExecRunning
  | HttpReady
  | MqttDisconnected | MqttConnected
  | ArgsReady

fun mode_name :: "mode \<Rightarrow> string" where
  "mode_name PgDisconnected = ''disconnected''"
| "mode_name PgConnected = ''connected''"
| "mode_name ContainerStopped = ''stopped''"
| "mode_name ContainerRunning = ''running''"
| "mode_name ExecStopped = ''stopped''"
| "mode_name ExecRunning = ''running''"
| "mode_name HttpReady = ''ready''"
| "mode_name MqttDisconnected = ''disconnected''"
| "mode_name MqttConnected = ''connected''"
| "mode_name ArgsReady = ''ready''"

fun mode_actor_type :: "mode \<Rightarrow> string" where
  "mode_actor_type PgDisconnected = ''pg_client''"
| "mode_actor_type PgConnected = ''pg_client''"
| "mode_actor_type ContainerStopped = ''container''"
| "mode_actor_type ContainerRunning = ''container''"
| "mode_actor_type ExecStopped = ''exec''"
| "mode_actor_type ExecRunning = ''exec''"
| "mode_actor_type HttpReady = ''http_client''"
| "mode_actor_type MqttDisconnected = ''mqtt_client''"
| "mode_actor_type MqttConnected = ''mqtt_client''"
| "mode_actor_type ArgsReady = ''args_actor''"

definition same_mode :: "mode \<Rightarrow> mode \<Rightarrow> bool" where
  "same_mode a b \<longleftrightarrow> a = b"

lemma mode_eq_iff: "a = b \<longleftrightarrow> mode_name a = mode_name b \<and> mode_actor_type a = mode_actor_type b"
  by (cases a; cases b) simp_all

section \<open>Descriptors\<close>

record arg_def =
  arg_name :: string
  arg_ty :: value_type

record keyword_arg_def =
  kwd_name :: string
  kwd_ty :: value_type
  kwd_required :: bool

record outcome_field =
  fld_name :: string
  fld_ty :: value_type

record error_type_def =
  et_name :: string
  et_fields :: "outcome_field list"

definition arg :: "string \<Rightarrow> value_type \<Rightarrow> arg_def" where
  "arg n ty = \<lparr>arg_name = n, arg_ty = ty\<rparr>"

definition kwd :: "string \<Rightarrow> value_type \<Rightarrow> bool \<Rightarrow> keyword_arg_def" where
  "kwd n ty req = \<lparr>kwd_name = n, kwd_ty = ty, kwd_required = req\<rparr>"

definition fld :: "string \<Rightarrow> value_type \<Rightarrow> outcome_field" where
  "fld n ty = \<lparr>fld_name = n, fld_ty = ty\<rparr>"

definition error_type :: "string \<Rightarrow> outcome_field list \<Rightarrow> error_type_def" where
  "error_type n fs = \<lparr>et_name = n, et_fields = fs\<rparr>"

lemma descriptor_sel [simp]:
  "arg_name (arg n ty) = n" "arg_ty (arg n ty) = ty"
  "kwd_name (kwd n ty req) = n" "kwd_ty (kwd n ty req) = ty" "kwd_required (kwd n ty req) = req"
  "fld_name (fld n ty) = n" "fld_ty (fld n ty) = ty"
  "et_name (error_type n fs) = n" "et_fields (error_type n fs) = fs"
  by (simp_all add: arg_def kwd_def fld_def error_type_def)

text \<open>
  \<open>define_outcome!\<close> derives from one list of fields both \<open>FIELDS\<close>, which is that list, and
  \<open>into_dict\<close>, which inserts the struct's values under the field names in declaration order.
\<close>

definition into_dict :: "outcome_field list \<Rightarrow> val list \<Rightarrow> dict" where
  "into_dict fs vs = fold (\<lambda>(f, v). index_insert (fld_name f) v) (zip fs vs) []"

definition outcome_ok :: "outcome_field list \<Rightarrow> dict \<Rightarrow> bool" where
  "outcome_ok fs d \<longleftrightarrow>
     map fst d = map fld_name fs \<and> list_all2 (\<lambda>f (k, v). is_of_type v (fld_ty f)) fs d"

section \<open>Commands\<close>

record command_def =
  cd_name :: string
  cd_valid_in_modes :: "mode list"
  cd_transitions_to :: "mode option"
  cd_positional :: "arg_def list"
  cd_keyword :: "keyword_arg_def list"
  cd_ok_fields :: "outcome_field list"
  cd_error_types :: "error_type_def list"

definition default_command :: "string \<Rightarrow> mode list \<Rightarrow> command_def" where
  "default_command n valid =
     \<lparr>cd_name = n, cd_valid_in_modes = valid, cd_transitions_to = None, cd_positional = [],
      cd_keyword = [], cd_ok_fields = [], cd_error_types = []\<rparr>"

lemma default_command_sel [simp]:
  "cd_name (default_command n valid) = n"
  "cd_valid_in_modes (default_command n valid) = valid"
  "cd_transitions_to (default_command n valid) = None"
  "cd_positional (default_command n valid) = []"
  "cd_keyword (default_command n valid) = []"
  "cd_ok_fields (default_command n valid) = []"
  "cd_error_types (default_command n valid) = []"
  by (simp_all add: default_command_def)

section \<open>Actor types\<close>

text \<open>
  \<open>resolve_command\<close> has the default of the trait and one override, that of \<open>mqtt_client\<close>; which
  of the two an actor type's method table holds is the field \<open>at_resolve\<close>.
\<close>

datatype resolve_impl = ResolveDefault | ResolveMqtt

record actor_type =
  at_name :: string
  at_initial_mode :: mode
  at_modes :: "mode list"
  at_commands :: "command_def list"
  at_constructor_keyword :: "keyword_arg_def list"
  at_resolve :: resolve_impl

definition find_command :: "actor_type \<Rightarrow> string \<Rightarrow> command_def option" where
  "find_command ty name = find_by cd_name name (at_commands ty)"

definition find_mode :: "actor_type \<Rightarrow> string \<Rightarrow> mode option" where
  "find_mode ty name = find_by mode_name name (at_modes ty)"

definition resolve_default :: "actor_type \<Rightarrow> string \<Rightarrow> expr list \<Rightarrow> (command_def \<times> nat) option" where
  "resolve_default ty name positional = map_option (\<lambda>c. (c, 0)) (find_command ty name)"

definition resolve_mqtt :: "actor_type \<Rightarrow> string \<Rightarrow> expr list \<Rightarrow> (command_def \<times> nat) option" where
  "resolve_mqtt ty name positional =
     (let fused = (if name = ''receive'' then
                     (case positional of
                        EIdent event # _ \<Rightarrow> find_command ty (''receive_'' @ ident_name event)
                      | _ \<Rightarrow> None)
                   else None)
      in case fused of
           Some c \<Rightarrow> Some (c, 1)
         | None \<Rightarrow> map_option (\<lambda>c. (c, 0)) (find_command ty name))"

definition resolve_command ::
  "actor_type \<Rightarrow> string \<Rightarrow> expr list \<Rightarrow> (command_def \<times> nat) option" where
  "resolve_command ty name positional =
     (case at_resolve ty of
        ResolveDefault \<Rightarrow> resolve_default ty name positional
      | ResolveMqtt \<Rightarrow> resolve_mqtt ty name positional)"

definition unknown_command_message :: "string \<Rightarrow> string \<Rightarrow> expr list \<Rightarrow> string" where
  "unknown_command_message ty name positional =
     (case positional of
        EIdent event # _ \<Rightarrow>
          ''unknown command `'' @ name @ '' '' @ ident_name event @ ''` for actor type `'' @ ty @ ''`''
      | _ \<Rightarrow> ''unknown command `'' @ name @ ''` for actor type `'' @ ty @ ''`'')"

section \<open>Facts\<close>

lemma into_dict_distinct:
  assumes "distinct (map fld_name fs)" and "length vs = length fs"
  shows "into_dict fs vs = zip (map fld_name fs) vs"
proof -
  have "fold (\<lambda>(f, v). index_insert (fld_name f) v) (zip fs vs) m =
      fold (\<lambda>(k, v). index_insert k v) (zip (map fld_name fs) vs) m" for m
    by (induction fs vs arbitrary: m rule: list_induct2') auto
  with assms show ?thesis
    by (simp add: into_dict_def index_build_distinct)
qed

lemma into_dict_outcome_ok:
  assumes "distinct (map fld_name fs)"
    and "list_all2 (\<lambda>f v. is_of_type v (fld_ty f)) fs vs"
  shows "outcome_ok fs (into_dict fs vs)"
proof -
  from assms(2) have len: "length vs = length fs" by (simp add: list_all2_lengthD)
  with assms show ?thesis
    by (auto simp: outcome_ok_def into_dict_distinct list_all2_conv_all_nth)
qed

lemma find_command_SomeD: "find_command ty n = Some c \<Longrightarrow> c \<in> set (at_commands ty) \<and> cd_name c = n"
  by (auto simp: find_command_def dest: find_by_SomeD)

lemma resolve_command_SomeD:
  assumes "resolve_command ty name positional = Some (c, k)"
  shows "c \<in> set (at_commands ty)" and "k \<le> length positional"
  using assms
  by (auto simp: resolve_command_def resolve_default_def resolve_mqtt_def Let_def
      split: resolve_impl.splits option.splits if_splits list.splits expr.splits
      dest: find_command_SomeD)

end
