(* ===== verification/Ill_Actor_Types.thy ===== *)
theory Ill_Actor_Types
  imports Ill_Schema
begin

text \<open>
  The command and constructor schemas of the six built-in actor types: the \<^verbatim>\<open>mod.rs\<close>,
  \<^verbatim>\<open>commands.rs\<close> and \<^verbatim>\<open>modes.rs\<close> of each actor under \<^verbatim>\<open>actor_type/\<close>. One definition per outcome
  shape, error list, command and actor type.
\<close>

section \<open>\<open>pg_client\<close>\<close>

definition pg_connect_ok_fields :: "outcome_field list" where
  "pg_connect_ok_fields = []"

definition pg_network_error_fields :: "outcome_field list" where
  "pg_network_error_fields = [fld ''reason'' TyAtom]"

definition pg_connect_error_fields :: "outcome_field list" where
  "pg_connect_error_fields = [fld ''reason'' TyAtom]"

definition pg_query_error_fields :: "outcome_field list" where
  "pg_query_error_fields = [fld ''reason'' TyAtom, fld ''sqlstate'' TyString, fld ''message'' TyString]"

definition pg_query_ok_fields :: "outcome_field list" where
  "pg_query_ok_fields =
     [fld ''row'' TyDynamic, fld ''col'' TyDynamic, fld ''row_count'' TyNumber,
      fld ''col_count'' TyNumber]"

definition pg_connect_error_types :: "error_type_def list" where
  "pg_connect_error_types =
     [error_type ''network'' pg_network_error_fields, error_type ''connect'' pg_connect_error_fields]"

definition pg_query_error_types :: "error_type_def list" where
  "pg_query_error_types =
     [error_type ''network'' pg_network_error_fields, error_type ''query'' pg_query_error_fields]"

definition pg_connect :: command_def where
  "pg_connect = (default_command ''connect'' [PgDisconnected])\<lparr>
     cd_transitions_to := Some PgConnected,
     cd_keyword :=
       [kwd ''host'' TyString False, kwd ''port'' TyNumber False, kwd ''user'' TyString True,
        kwd ''password'' TyString False, kwd ''database'' TyString True,
        kwd ''application_name'' TyString False, kwd ''timeout'' TyNumber False],
     cd_ok_fields := pg_connect_ok_fields,
     cd_error_types := pg_connect_error_types\<rparr>"

definition pg_query :: command_def where
  "pg_query = (default_command ''query'' [PgConnected])\<lparr>
     cd_positional := [arg ''sql'' TyString],
     cd_keyword := [kwd ''timeout'' TyNumber False],
     cd_ok_fields := pg_query_ok_fields,
     cd_error_types := pg_query_error_types\<rparr>"

definition pg_disconnect :: command_def where
  "pg_disconnect = (default_command ''disconnect'' [PgConnected])\<lparr>
     cd_transitions_to := Some PgDisconnected\<rparr>"

definition pg_client :: actor_type where
  "pg_client =
     \<lparr>at_name = ''pg_client'', at_initial_mode = PgDisconnected,
      at_modes = [PgDisconnected, PgConnected],
      at_commands = [pg_connect, pg_query, pg_disconnect],
      at_constructor_keyword = [], at_resolve = ResolveDefault\<rparr>"

section \<open>\<open>container\<close>\<close>

definition container_run_ok_fields :: "outcome_field list" where
  "container_run_ok_fields = [fld ''id'' TyString]"

definition container_error_fields :: "outcome_field list" where
  "container_error_fields = [fld ''reason'' TyAtom]"

definition container_error_types :: "error_type_def list" where
  "container_error_types = [error_type ''container'' container_error_fields]"

definition container_run :: command_def where
  "container_run = (default_command ''run'' [ContainerStopped])\<lparr>
     cd_transitions_to := Some ContainerRunning,
     cd_keyword :=
       [kwd ''external_port'' TyNumber False, kwd ''env'' TyUnknown False,
        kwd ''timeout'' TyNumber False],
     cd_ok_fields := container_run_ok_fields,
     cd_error_types := container_error_types\<rparr>"

definition container_stop :: command_def where
  "container_stop = (default_command ''stop'' [ContainerRunning])\<lparr>
     cd_transitions_to := Some ContainerStopped,
     cd_error_types := container_error_types\<rparr>"

definition container_constructor_keyword :: "keyword_arg_def list" where
  "container_constructor_keyword =
     [kwd ''image'' TyString False, kwd ''dockerfile'' TyString False,
      kwd ''internal_port'' TyNumber False]"

definition container :: actor_type where
  "container =
     \<lparr>at_name = ''container'', at_initial_mode = ContainerStopped,
      at_modes = [ContainerStopped, ContainerRunning],
      at_commands = [container_run, container_stop],
      at_constructor_keyword = container_constructor_keyword, at_resolve = ResolveDefault\<rparr>"

section \<open>\<open>exec\<close>\<close>

definition exec_run_ok_fields :: "outcome_field list" where
  "exec_run_ok_fields = [fld ''pid'' TyNumber]"

definition exec_error_fields :: "outcome_field list" where
  "exec_error_fields = [fld ''reason'' TyAtom]"

definition exec_error_types :: "error_type_def list" where
  "exec_error_types = [error_type ''exec'' exec_error_fields]"

definition exec_run :: command_def where
  "exec_run = (default_command ''run'' [ExecStopped])\<lparr>
     cd_transitions_to := Some ExecRunning,
     cd_keyword := [kwd ''env'' TyUnknown False],
     cd_ok_fields := exec_run_ok_fields,
     cd_error_types := exec_error_types\<rparr>"

definition exec_constructor_keyword :: "keyword_arg_def list" where
  "exec_constructor_keyword = [kwd ''command'' TyString True, kwd ''cwd'' TyString False]"

definition exec :: actor_type where
  "exec =
     \<lparr>at_name = ''exec'', at_initial_mode = ExecStopped, at_modes = [ExecStopped, ExecRunning],
      at_commands = [exec_run],
      at_constructor_keyword = exec_constructor_keyword, at_resolve = ResolveDefault\<rparr>"

section \<open>\<open>http_client\<close>\<close>

text \<open>The macro \<open>http_verb!\<close> and its four instances.\<close>

definition http_ok_fields :: "outcome_field list" where
  "http_ok_fields = [fld ''status_code'' TyNumber, fld ''body'' TyUnknown, fld ''headers'' TyUnknown]"

definition http_verb :: "string \<Rightarrow> command_def" where
  "http_verb n = (default_command n [HttpReady])\<lparr>
     cd_positional := [arg ''url'' TyString],
     cd_keyword :=
       [kwd ''headers'' TyUnknown False, kwd ''body'' TyUnknown False, kwd ''timeout'' TyNumber False],
     cd_ok_fields := http_ok_fields\<rparr>"

definition http_client :: actor_type where
  "http_client =
     \<lparr>at_name = ''http_client'', at_initial_mode = HttpReady, at_modes = [HttpReady],
      at_commands = [http_verb ''get'', http_verb ''post'', http_verb ''put'', http_verb ''delete''],
      at_constructor_keyword = [], at_resolve = ResolveDefault\<rparr>"

section \<open>\<open>mqtt_client\<close>\<close>

definition mqtt_connect_ok_fields :: "outcome_field list" where
  "mqtt_connect_ok_fields =
     [fld ''session_present'' TyBool, fld ''assigned_client_id'' TyString,
      fld ''user_properties'' TyDict]"

definition mqtt_receive_publish_ok_fields :: "outcome_field list" where
  "mqtt_receive_publish_ok_fields =
     [fld ''topic'' TyString, fld ''payload'' TyBytes, fld ''qos'' TyNumber,
      fld ''user_properties'' TyDict]"

definition mqtt_receive_disconnect_ok_fields :: "outcome_field list" where
  "mqtt_receive_disconnect_ok_fields =
     [fld ''reason_code'' TyNumber, fld ''user_properties'' TyDict]"

definition mqtt_network_error_fields :: "outcome_field list" where
  "mqtt_network_error_fields = [fld ''reason'' TyAtom]"

definition mqtt_error_fields :: "outcome_field list" where
  "mqtt_error_fields = [fld ''reason'' TyAtom, fld ''reason_code'' TyNumber]"

definition mqtt_timeout_error_fields :: "outcome_field list" where
  "mqtt_timeout_error_fields = []"

definition mqtt_network_and_mqtt_error_types :: "error_type_def list" where
  "mqtt_network_and_mqtt_error_types =
     [error_type ''network'' mqtt_network_error_fields, error_type ''mqtt'' mqtt_error_fields]"

definition mqtt_publish_qos0_error_types :: "error_type_def list" where
  "mqtt_publish_qos0_error_types = [error_type ''mqtt'' mqtt_error_fields]"

definition mqtt_receive_error_types :: "error_type_def list" where
  "mqtt_receive_error_types =
     [error_type ''timeout'' mqtt_timeout_error_fields, error_type ''mqtt'' mqtt_error_fields]"

definition mqtt_connect :: command_def where
  "mqtt_connect = (default_command ''connect'' [MqttDisconnected])\<lparr>
     cd_transitions_to := Some MqttConnected,
     cd_keyword :=
       [kwd ''host'' TyString False, kwd ''port'' TyNumber False, kwd ''username'' TyString False,
        kwd ''password'' TyString False, kwd ''client_id'' TyString False,
        kwd ''clean_start'' TyBool False, kwd ''keep_alive'' TyNumber False,
        kwd ''user_properties'' TyUnknown False, kwd ''timeout'' TyNumber False],
     cd_ok_fields := mqtt_connect_ok_fields,
     cd_error_types := mqtt_network_and_mqtt_error_types\<rparr>"

definition mqtt_disconnect :: command_def where
  "mqtt_disconnect = (default_command ''disconnect'' [MqttConnected])\<lparr>
     cd_transitions_to := Some MqttDisconnected,
     cd_keyword := [kwd ''reason_code'' TyNumber False, kwd ''user_properties'' TyUnknown False]\<rparr>"

definition subscribe_cmd :: "string \<Rightarrow> command_def" where
  "subscribe_cmd n = (default_command n [MqttConnected])\<lparr>
     cd_positional := [arg ''topic'' TyString],
     cd_keyword := [kwd ''user_properties'' TyUnknown False],
     cd_error_types := mqtt_network_and_mqtt_error_types\<rparr>"

definition publish_cmd :: "string \<Rightarrow> error_type_def list \<Rightarrow> command_def" where
  "publish_cmd n errors = (default_command n [MqttConnected])\<lparr>
     cd_positional := [arg ''topic'' TyString, arg ''payload'' TyUnknown],
     cd_keyword := [kwd ''user_properties'' TyUnknown False],
     cd_error_types := errors\<rparr>"

definition mqtt_receive_publish :: command_def where
  "mqtt_receive_publish = (default_command ''receive_publish'' [MqttConnected])\<lparr>
     cd_keyword := [kwd ''timeout'' TyNumber False],
     cd_ok_fields := mqtt_receive_publish_ok_fields,
     cd_error_types := mqtt_receive_error_types\<rparr>"

definition mqtt_receive_disconnect :: command_def where
  "mqtt_receive_disconnect = (default_command ''receive_disconnect'' [MqttConnected])\<lparr>
     cd_transitions_to := Some MqttDisconnected,
     cd_keyword := [kwd ''timeout'' TyNumber False],
     cd_ok_fields := mqtt_receive_disconnect_ok_fields,
     cd_error_types := mqtt_receive_error_types\<rparr>"

definition mqtt_commands :: "command_def list" where
  "mqtt_commands =
     [mqtt_connect, mqtt_disconnect,
      subscribe_cmd ''subscribe_0'', subscribe_cmd ''subscribe_1'', subscribe_cmd ''subscribe_2'',
      publish_cmd ''publish_0'' mqtt_publish_qos0_error_types,
      publish_cmd ''publish_1'' mqtt_network_and_mqtt_error_types,
      publish_cmd ''publish_2'' mqtt_network_and_mqtt_error_types,
      mqtt_receive_publish, mqtt_receive_disconnect]"

definition mqtt_client :: actor_type where
  "mqtt_client =
     \<lparr>at_name = ''mqtt_client'', at_initial_mode = MqttDisconnected,
      at_modes = [MqttDisconnected, MqttConnected], at_commands = mqtt_commands,
      at_constructor_keyword = [], at_resolve = ResolveMqtt\<rparr>"

section \<open>\<open>args_actor\<close>\<close>

definition args_check :: command_def where
  "args_check = default_command ''check'' [ArgsReady]"

definition args_actor :: actor_type where
  "args_actor =
     \<lparr>at_name = ''args_actor'', at_initial_mode = ArgsReady, at_modes = [ArgsReady],
      at_commands = [args_check],
      at_constructor_keyword = [], at_resolve = ResolveDefault\<rparr>"

section \<open>Evaluation\<close>

lemmas pg_schema [ill_simps] =
  pg_client_def pg_connect_def pg_query_def pg_disconnect_def pg_connect_ok_fields_def
  pg_network_error_fields_def pg_connect_error_fields_def pg_query_error_fields_def
  pg_query_ok_fields_def pg_connect_error_types_def pg_query_error_types_def

lemmas container_schema [ill_simps] =
  container_def container_run_def container_stop_def container_run_ok_fields_def
  container_error_fields_def container_error_types_def container_constructor_keyword_def

lemmas exec_schema [ill_simps] =
  exec_def exec_run_def exec_run_ok_fields_def exec_error_fields_def exec_error_types_def
  exec_constructor_keyword_def

lemmas http_schema [ill_simps] = http_client_def http_verb_def http_ok_fields_def

lemmas mqtt_schema [ill_simps] =
  mqtt_client_def mqtt_commands_def mqtt_connect_def mqtt_disconnect_def subscribe_cmd_def
  publish_cmd_def mqtt_receive_publish_def mqtt_receive_disconnect_def mqtt_connect_ok_fields_def
  mqtt_receive_publish_ok_fields_def mqtt_receive_disconnect_ok_fields_def
  mqtt_network_error_fields_def mqtt_error_fields_def mqtt_timeout_error_fields_def
  mqtt_network_and_mqtt_error_types_def mqtt_publish_qos0_error_types_def
  mqtt_receive_error_types_def

lemmas args_schema [ill_simps] = args_actor_def args_check_def

end
