(* ===== verification/Ill_Registry.thy ===== *)
theory Ill_Registry
  imports Ill_Actor_Types
begin

text \<open>
  The registry of actor types, \<^verbatim>\<open>registry.rs\<close>. The \<open>HashMap\<close> is kept as its entries in registration
  order; the iteration order of \<open>Registry::validate\<close> only decides which message a failing
  assertion panics with, and no assertion fails. A panic is \<open>Inl\<close> of its message.
\<close>

type_synonym registry = "(string \<times> actor_type) list"

definition registry_register :: "actor_type \<Rightarrow> registry \<Rightarrow> string + registry" where
  "registry_register a r =
     (case map_of r (at_name a) of
        None \<Rightarrow> Inr (index_insert (at_name a) a r)
      | Some _ \<Rightarrow> Inl (''duplicate actor type: '' @ at_name a))"

definition registry_get :: "registry \<Rightarrow> string \<Rightarrow> actor_type option" where
  "registry_get r name = map_of r name"

definition actor_names :: "registry \<Rightarrow> string list" where
  "actor_names r = map fst r"

text \<open>The assertions \<open>validate\<close> makes about one entry: the mode's actor, and the message.\<close>

definition command_checks :: "string \<Rightarrow> command_def \<Rightarrow> (string \<times> string) list" where
  "command_checks actor_name cmd =
     map (\<lambda>m. (mode_actor_type m,
        ''command `'' @ cd_name cmd @ ''` on actor `'' @ actor_name @ ''` references mode `''
          @ mode_name m @ ''` from actor `'' @ mode_actor_type m @ ''`'')) (cd_valid_in_modes cmd)
     @ (case cd_transitions_to cmd of
          None \<Rightarrow> []
        | Some m \<Rightarrow> [(mode_actor_type m,
            ''command `'' @ cd_name cmd @ ''` on actor `'' @ actor_name @ ''` transitions to mode `''
              @ mode_name m @ ''` from actor `'' @ mode_actor_type m @ ''`'')])"

definition actor_checks :: "string \<Rightarrow> actor_type \<Rightarrow> (string \<times> string) list" where
  "actor_checks actor_name a =
     (mode_actor_type (at_initial_mode a),
        ''actor `'' @ actor_name @ ''` has initial mode `'' @ mode_name (at_initial_mode a)
          @ ''` from actor `'' @ mode_actor_type (at_initial_mode a) @ ''`'')
     # map (\<lambda>m. (mode_actor_type m,
          ''actor `'' @ actor_name @ ''` lists mode `'' @ mode_name m @ ''` from actor `''
            @ mode_actor_type m @ ''`'')) (at_modes a)
     @ concat (map (command_checks actor_name) (at_commands a))"

definition registry_validate :: "registry \<Rightarrow> string + unit" where
  "registry_validate r =
     try_fold (\<lambda>(actor_name, a) _.
        try_fold (\<lambda>(got, msg) _. if got = actor_name then Inr () else Inl msg)
          (actor_checks actor_name a) ()) r ()"

definition builtin_actor_types :: "actor_type list" where
  "builtin_actor_types = [pg_client, container, exec, http_client, mqtt_client, args_actor]"

definition registry_build :: "string + registry" where
  "registry_build =
     (case try_fold registry_register builtin_actor_types [] of
        Inl panic \<Rightarrow> Inl panic
      | Inr r \<Rightarrow> (case registry_validate r of Inl panic \<Rightarrow> Inl panic | Inr _ \<Rightarrow> Inr r))"

definition registry_global :: registry where
  "registry_global = (case registry_build of Inl panic \<Rightarrow> [] | Inr r \<Rightarrow> r)"

section \<open>What the registry promises\<close>

text \<open>
  The contract the validator and the harness rely on: the entry's key is its name, every mode the
  schema mentions is one of the type's own modes, command names are unambiguous, and no schema
  lists a keyword twice.
\<close>

definition wf_command :: "mode list \<Rightarrow> command_def \<Rightarrow> bool" where
  "wf_command ms c \<longleftrightarrow>
     set (cd_valid_in_modes c) \<subseteq> set ms \<and> set_option (cd_transitions_to c) \<subseteq> set ms \<and>
     distinct (map kwd_name (cd_keyword c)) \<and> distinct (map fld_name (cd_ok_fields c)) \<and>
     distinct (map et_name (cd_error_types c))"

definition wf_actor_type :: "actor_type \<Rightarrow> bool" where
  "wf_actor_type a \<longleftrightarrow>
     at_initial_mode a \<in> set (at_modes a) \<and>
     distinct (map mode_name (at_modes a)) \<and>
     list_all (\<lambda>m. mode_actor_type m = at_name a) (at_modes a) \<and>
     list_all (wf_command (at_modes a)) (at_commands a) \<and>
     distinct (map cd_name (at_commands a)) \<and>
     distinct (map kwd_name (at_constructor_keyword a))"

definition wf_registry :: "registry \<Rightarrow> bool" where
  "wf_registry r \<longleftrightarrow>
     distinct (map fst r) \<and> list_all (\<lambda>(k, a). k = at_name a \<and> wf_actor_type a) r"

lemma try_fold_guard:
  "try_fold (\<lambda>(got, msg) _. if got = n then Inr () else Inl msg) xs () = Inr () \<longleftrightarrow>
   list_all (\<lambda>x. fst x = n) xs"
  by (induction xs) (auto split: prod.splits)

lemma wf_registry_get:
  "wf_registry r \<Longrightarrow> registry_get r n = Some a \<Longrightarrow> at_name a = n \<and> wf_actor_type a"
  by (auto simp: wf_registry_def registry_get_def list_all_iff dest!: map_of_SomeD)

lemma wf_resolve_command:
  assumes "wf_actor_type ty" and "resolve_command ty name positional = Some (c, k)"
  shows "wf_command (at_modes ty) c"
  using assms resolve_command_SomeD(1) by (fastforce simp: wf_actor_type_def list_all_iff)

lemma at_name_builtin [simp]:
  "at_name pg_client = ''pg_client''" "at_name container = ''container''"
  "at_name exec = ''exec''" "at_name http_client = ''http_client''"
  "at_name mqtt_client = ''mqtt_client''" "at_name args_actor = ''args_actor''"
  by (simp_all add: pg_client_def container_def exec_def http_client_def mqtt_client_def
      args_actor_def)

lemma register_builtin:
  "try_fold registry_register builtin_actor_types [] =
     Inr [(''pg_client'', pg_client), (''container'', container), (''exec'', exec),
          (''http_client'', http_client), (''mqtt_client'', mqtt_client), (''args_actor'', args_actor)]"
  by (simp add: builtin_actor_types_def registry_register_def)

lemma registry_validate_iff:
  "registry_validate r = Inr () \<longleftrightarrow>
   list_all (\<lambda>(n, a). list_all (\<lambda>x. fst x = n) (actor_checks n a)) r"
  by (induction r)
    (auto simp: registry_validate_def simp flip: try_fold_guard split: sum.splits)

lemma wf_builtin:
  "wf_actor_type pg_client" "wf_actor_type container" "wf_actor_type exec"
  "wf_actor_type http_client" "wf_actor_type mqtt_client" "wf_actor_type args_actor"
  by (simp_all add: wf_actor_type_def wf_command_def ill_simps)

lemma wf_command_checks:
  "wf_command ms c \<Longrightarrow> list_all (\<lambda>m. mode_actor_type m = n) ms \<Longrightarrow>
   list_all (\<lambda>x. fst x = n) (command_checks n c)"
  by (cases "cd_transitions_to c") (auto simp: wf_command_def command_checks_def list_all_iff)

lemma wf_actor_type_checks:
  "wf_actor_type a \<Longrightarrow> n = at_name a \<Longrightarrow> list_all (\<lambda>x. fst x = n) (actor_checks n a)"
  using wf_command_checks [of "at_modes a" _ n]
  by (auto simp: wf_actor_type_def actor_checks_def list_all_iff)

lemma registry_build_eq:
  "registry_build =
     Inr [(''pg_client'', pg_client), (''container'', container), (''exec'', exec),
          (''http_client'', http_client), (''mqtt_client'', mqtt_client), (''args_actor'', args_actor)]"
  (is "_ = Inr ?r")
proof -
  have "registry_validate ?r = Inr ()"
    unfolding registry_validate_iff
    by (simp add: wf_actor_type_checks wf_builtin)
  then show ?thesis by (simp add: registry_build_def register_builtin)
qed

lemma registry_global_eq [ill_simps]:
  "registry_global =
     [(''pg_client'', pg_client), (''container'', container), (''exec'', exec),
      (''http_client'', http_client), (''mqtt_client'', mqtt_client), (''args_actor'', args_actor)]"
  by (simp add: registry_global_def registry_build_eq)

text \<open>What the start-up assertions say of a registry: every mode a type mentions carries the name of its entry.\<close>

definition modes_owned :: "string \<Rightarrow> actor_type \<Rightarrow> bool" where
  "modes_owned n a \<longleftrightarrow>
     mode_actor_type (at_initial_mode a) = n \<and> list_all (\<lambda>m. mode_actor_type m = n) (at_modes a) \<and>
     list_all (\<lambda>c. list_all (\<lambda>m. mode_actor_type m = n) (cd_valid_in_modes c) \<and>
       pred_option (\<lambda>m. mode_actor_type m = n) (cd_transitions_to c)) (at_commands a)"

lemma command_checks_owned:
  "list_all (\<lambda>x. fst x = n) (command_checks n c) \<longleftrightarrow>
   list_all (\<lambda>m. mode_actor_type m = n) (cd_valid_in_modes c) \<and>
   pred_option (\<lambda>m. mode_actor_type m = n) (cd_transitions_to c)"
  by (cases "cd_transitions_to c") (auto simp: command_checks_def list_all_iff)

lemma actor_checks_owned: "list_all (\<lambda>x. fst x = n) (actor_checks n a) \<longleftrightarrow> modes_owned n a"
proof -
  have "list_all (\<lambda>x. fst x = n) (concat (map (command_checks n) cs)) \<longleftrightarrow>
      list_all (\<lambda>c. list_all (\<lambda>x. fst x = n) (command_checks n c)) cs" for cs
    by (induction cs) simp_all
  then show ?thesis
    by (simp add: actor_checks_def modes_owned_def command_checks_owned list.pred_map comp_def)
qed

lemma registry_validate_owned: "registry_validate r = Inr () \<longleftrightarrow> list_all (\<lambda>(n, a). modes_owned n a) r"
  by (simp add: registry_validate_iff actor_checks_owned)

lemma register_all_iff:
  "try_fold registry_register types r0 = Inr r \<longleftrightarrow>
   distinct (map at_name types) \<and> at_name ` set types \<inter> fst ` set r0 = {} \<and>
   r = r0 @ map (\<lambda>a. (at_name a, a)) types"
proof (induction types arbitrary: r0)
  case (Cons a types)
  show ?case
  proof (cases "map_of r0 (at_name a)")
    case None
    then have "at_name a \<notin> fst ` set r0" by (simp add: map_of_eq_None_iff)
    with None Cons.IH [of "r0 @ [(at_name a, a)]"] show ?thesis
      by (auto simp: registry_register_def index_insert_fresh)
  next
    case (Some b)
    then have "at_name a \<in> fst ` set r0" by (auto dest!: map_of_SomeD intro: rev_image_eqI)
    with Some show ?thesis by (auto simp: registry_register_def)
  qed
qed auto

end
