(* ===== verification/Ill_Diagnostic.thy ===== *)
theory Ill_Diagnostic
  imports Ill_Ast
begin

text \<open>Diagnostics of lowering and validation, \<^verbatim>\<open>diagnostic.rs\<close>.\<close>

datatype severity = SevError | SevWarning | SevInfo | SevHint

datatype diagnostic_code =
    ParseError | MissingToken | UnexpectedNode | MissingField | InvalidLiteral | InvalidEscape
  | UnknownActorType | UnknownActor | DuplicateActor
  | UnknownCommand | CommandNotValidInMode | MissingRequiredArg | UnknownKeywordArg
  | ConflictingOutcomeAsserts
  | TypeMismatchCode
  | UnknownSquiggle
  | RuntimeFailure

fun code_as_str :: "diagnostic_code \<Rightarrow> string" where
  "code_as_str ParseError = ''E0001''"
| "code_as_str MissingToken = ''E0002''"
| "code_as_str UnexpectedNode = ''E0003''"
| "code_as_str MissingField = ''E0004''"
| "code_as_str InvalidLiteral = ''E0005''"
| "code_as_str InvalidEscape = ''E0006''"
| "code_as_str UnknownActorType = ''E0101''"
| "code_as_str UnknownActor = ''E0102''"
| "code_as_str DuplicateActor = ''E0103''"
| "code_as_str UnknownCommand = ''E0201''"
| "code_as_str CommandNotValidInMode = ''E0202''"
| "code_as_str MissingRequiredArg = ''E0203''"
| "code_as_str UnknownKeywordArg = ''E0204''"
| "code_as_str ConflictingOutcomeAsserts = ''E0205''"
| "code_as_str TypeMismatchCode = ''E0301''"
| "code_as_str UnknownSquiggle = ''E0401''"
| "code_as_str RuntimeFailure = ''E0501''"

record diagnostic =
  diag_span :: span
  diag_severity :: severity
  diag_code :: diagnostic_code
  diag_message :: string
  diag_notes :: "string list"

text \<open>\<open>Diagnostic::error\<close>, \<open>with_note\<close> and \<open>impl Display\<close>.\<close>

definition diag_error :: "span \<Rightarrow> diagnostic_code \<Rightarrow> string \<Rightarrow> diagnostic" where
  "diag_error sp code msg =
     \<lparr>diag_span = sp, diag_severity = SevError, diag_code = code, diag_message = msg,
      diag_notes = []\<rparr>"

definition with_note :: "diagnostic \<Rightarrow> string \<Rightarrow> diagnostic" where
  "with_note d note = d\<lparr>diag_notes := diag_notes d @ [note]\<rparr>"

fun severity_display :: "severity \<Rightarrow> string" where
  "severity_display SevError = ''error''"
| "severity_display SevWarning = ''warning''"
| "severity_display SevInfo = ''info''"
| "severity_display SevHint = ''hint''"

definition diagnostic_display :: "diagnostic \<Rightarrow> string" where
  "diagnostic_display d =
     severity_display (diag_severity d) @ '' at ['' @ show_nat (span_start (diag_span d)) @ ''..''
       @ show_nat (span_end (diag_span d)) @ '']: '' @ diag_message d"

lemma diag_error_sel [simp]:
  "diag_span (diag_error sp c m) = sp"
  "diag_severity (diag_error sp c m) = SevError"
  "diag_code (diag_error sp c m) = c"
  "diag_message (diag_error sp c m) = m"
  "diag_notes (diag_error sp c m) = []"
  by (simp_all add: diag_error_def)

lemma fold_with_note:
  "fold (\<lambda>n d. with_note d n) ns d = d\<lparr>diag_notes := diag_notes d @ ns\<rparr>"
  by (induction ns arbitrary: d) (simp_all add: with_note_def)

lemma code_as_str_inj: "inj code_as_str"
proof (rule injI)
  fix a b assume "code_as_str a = code_as_str b"
  then show "a = b" by (cases a; cases b) simp_all
qed

end
