(* ===== verification/Ill_Text.thy ===== *)
theory Ill_Text
  imports Ill_Prelude "HOL-Library.Product_Lexorder"
begin

text \<open>
  The parts of the standard library's text handling that need more than a list function: UTF-8
  validation (\<open>std::str::from_utf8\<close>) and trimming of Unicode white space on UTF-8 bytes
  (\<open>str::trim\<close>, \<open>str::trim_end\<close>).
\<close>

section \<open>UTF-8 validation\<close>

definition utf8_cont :: "u8 \<Rightarrow> bool" where
  "utf8_cont b \<longleftrightarrow> 0x80 \<le> b \<and> b \<le> 0xBF"

text \<open>The second byte of a three- and of a four-byte sequence, by its first byte.\<close>

definition utf8_second3 :: "u8 \<Rightarrow> u8 \<Rightarrow> bool" where
  "utf8_second3 a b \<longleftrightarrow>
     (if a = 0xE0 then 0xA0 \<le> b \<and> b \<le> 0xBF
      else if a = 0xED then 0x80 \<le> b \<and> b \<le> 0x9F else utf8_cont b)"

definition utf8_second4 :: "u8 \<Rightarrow> u8 \<Rightarrow> bool" where
  "utf8_second4 a b \<longleftrightarrow>
     (if a = 0xF0 then 0x90 \<le> b \<and> b \<le> 0xBF
      else if a = 0xF4 then 0x80 \<le> b \<and> b \<le> 0x8F else utf8_cont b)"

fun utf8_valid :: "u8 list \<Rightarrow> bool" where
  "utf8_valid [] = True"
| "utf8_valid (a # r) =
     (if a < 0x80 then utf8_valid r
      else if 0xC2 \<le> a \<and> a \<le> 0xDF then
        (case r of b # r' \<Rightarrow> utf8_cont b \<and> utf8_valid r' | _ \<Rightarrow> False)
      else if 0xE0 \<le> a \<and> a \<le> 0xEF then
        (case r of b # c # r' \<Rightarrow> utf8_second3 a b \<and> utf8_cont c \<and> utf8_valid r' | _ \<Rightarrow> False)
      else if 0xF0 \<le> a \<and> a \<le> 0xF4 then
        (case r of b # c # d # r' \<Rightarrow>
            utf8_second4 a b \<and> utf8_cont c \<and> utf8_cont d \<and> utf8_valid r'
         | _ \<Rightarrow> False)
      else False)"

text \<open>
  \<open>String::from_utf8_lossy\<close>: every maximal prefix of a character that is not completed becomes one
  replacement character.
\<close>

definition replacement :: "u8 list" where
  "replacement = [0xEF, 0xBF, 0xBD]"

fun utf8_lossy :: "u8 list \<Rightarrow> u8 list" where
  "utf8_lossy [] = []"
| "utf8_lossy (a # r) =
     (if a < 0x80 then a # utf8_lossy r
      else if 0xC2 \<le> a \<and> a \<le> 0xDF then
        (case r of
           [] \<Rightarrow> replacement
         | b # r1 \<Rightarrow> if utf8_cont b then a # b # utf8_lossy r1 else replacement @ utf8_lossy r)
      else if 0xE0 \<le> a \<and> a \<le> 0xEF then
        (case r of
           [] \<Rightarrow> replacement
         | b # r1 \<Rightarrow>
             if \<not> utf8_second3 a b then replacement @ utf8_lossy r
             else (case r1 of
                     [] \<Rightarrow> replacement
                   | c # r2 \<Rightarrow>
                       if utf8_cont c then a # b # c # utf8_lossy r2 else replacement @ utf8_lossy r1))
      else if 0xF0 \<le> a \<and> a \<le> 0xF4 then
        (case r of
           [] \<Rightarrow> replacement
         | b # r1 \<Rightarrow>
             if \<not> utf8_second4 a b then replacement @ utf8_lossy r
             else (case r1 of
                     [] \<Rightarrow> replacement
                   | c # r2 \<Rightarrow>
                       if \<not> utf8_cont c then replacement @ utf8_lossy r1
                       else (case r2 of
                               [] \<Rightarrow> replacement
                             | d # r3 \<Rightarrow>
                                 if utf8_cont d then a # b # c # d # utf8_lossy r3
                                 else replacement @ utf8_lossy r2)))
      else replacement @ utf8_lossy r)"

definition is_ascii :: "string \<Rightarrow> bool" where
  "is_ascii s \<longleftrightarrow> list_all (\<lambda>c. (of_char c :: nat) < 128) s"

lemma byte_of_ascii: "(of_char c :: nat) < 128 \<Longrightarrow> byte_of c < 0x80"
  by (simp add: byte_of_def word_less_nat_alt unat_of_nat)

lemma utf8_valid_ascii: "is_ascii s \<Longrightarrow> utf8_valid (as_bytes s)"
  by (induction s) (auto simp: as_bytes_def is_ascii_def byte_of_ascii)

lemma utf8_valid_ascii_append: "is_ascii s \<Longrightarrow> utf8_valid (as_bytes s @ bs) = utf8_valid bs"
  by (induction s) (auto simp: as_bytes_def is_ascii_def byte_of_ascii)

lemma utf8_valid_append: "utf8_valid a \<Longrightarrow> utf8_valid (a @ b) = utf8_valid b"
proof (induction a rule: utf8_valid.induct)
  case (2 a r)
  let ?A = "a < 0x80" and ?B = "0xC2 \<le> a \<and> a \<le> 0xDF" and ?C = "0xE0 \<le> a \<and> a \<le> 0xEF"
    and ?D = "0xF0 \<le> a \<and> a \<le> 0xF4"
  consider (A) ?A | (B) "\<not> ?A" ?B | (C) "\<not> ?A" "\<not> ?B" ?C | (D) "\<not> ?A" "\<not> ?B" "\<not> ?C" ?D
    | (E) "\<not> ?A" "\<not> ?B" "\<not> ?C" "\<not> ?D" by blast
  then show ?case
  proof cases
    case A
    with 2 show ?thesis by simp
  next
    case B
    note eq = utf8_valid.simps(2) [of a, unfolded if_not_P [OF B(1)] if_P [OF B(2)]]
    from "2.prems" obtain x r' where "r = x # r'" by (cases r) (simp_all only: eq list.case)
    with "2.prems" "2.IH"(2) [OF B] show ?thesis by (simp add: eq del: utf8_valid.simps)
  next
    case C
    note eq = utf8_valid.simps(2) [of a, unfolded if_not_P [OF C(1)] if_not_P [OF C(2)] if_P [OF C(3)]]
    from "2.prems" obtain x y r' where "r = x # y # r'"
      by (cases r; cases "tl r") (simp_all add: eq del: utf8_valid.simps)
    with "2.prems" "2.IH"(3) [OF C] show ?thesis by (simp add: eq del: utf8_valid.simps)
  next
    case D
    note eq = utf8_valid.simps(2) [of a, unfolded if_not_P [OF D(1)] if_not_P [OF D(2)]
        if_not_P [OF D(3)] if_P [OF D(4)]]
    from "2.prems" obtain x y z r' where "r = x # y # z # r'"
      by (cases r; cases "tl r"; cases "tl (tl r)") (simp_all add: eq del: utf8_valid.simps)
    with "2.prems" "2.IH"(4) [OF D] show ?thesis by (simp add: eq del: utf8_valid.simps)
  next
    case E
    with "2.prems" show ?thesis by (simp only: utf8_valid.simps if_False)
  qed
qed simp

lemma is_ascii_show_nat: "is_ascii (show_nat n)"
proof (induction n rule: show_nat.induct)
  case (1 n)
  then show ?case by (subst show_nat.simps) (auto simp: is_ascii_def digit_char_def)
qed
lemma is_ascii_show_int: "is_ascii (show_int n)"
  using is_ascii_show_nat by (auto simp: show_int_def is_ascii_def)
lemma is_ascii_show_bool: "is_ascii (show_bool b)"
  by (auto simp: show_bool_def is_ascii_def)

declare utf8_valid.simps(2) [simp del]

lemma utf8_valid_replacement: "utf8_valid (replacement @ r) = utf8_valid r"
  by (simp add: replacement_def utf8_valid.simps(2) utf8_second3_def utf8_cont_def)

text \<open>The five classes of a first byte, each with its equations.\<close>

definition first_class :: "u8 \<Rightarrow> nat" where
  "first_class a =
     (if a < 0x80 then 1 else if 0xC2 \<le> a \<and> a \<le> 0xDF then 2 else if 0xE0 \<le> a \<and> a \<le> 0xEF then 3
      else if 0xF0 \<le> a \<and> a \<le> 0xF4 then 4 else 0)"

lemma if_first_class:
  "(if a < 0x80 then e1 else if 0xC2 \<le> a \<and> a \<le> 0xDF then e2 else if 0xE0 \<le> a \<and> a \<le> 0xEF then e3
    else if 0xF0 \<le> a \<and> a \<le> 0xF4 then e4 else e0) =
   (if first_class a = 1 then e1 else if first_class a = 2 then e2 else if first_class a = 3 then e3
    else if first_class a = 4 then e4 else e0)"
  by (auto simp: first_class_def)

lemma first_class_cases:
  obtains "first_class a = 0" | "first_class a = 1" | "first_class a = 2" | "first_class a = 3"
  | "first_class a = 4"
proof -
  have "first_class a \<le> 4" by (auto simp: first_class_def)
  then show ?thesis using that by linarith
qed

lemma utf8_valid_class:
  "first_class a = 0 \<Longrightarrow> \<not> utf8_valid (a # r)"
  "first_class a = 1 \<Longrightarrow> utf8_valid (a # r) = utf8_valid r"
  "first_class a = 2 \<Longrightarrow> utf8_valid (a # r) = (case r of b # r' \<Rightarrow> utf8_cont b \<and> utf8_valid r' | _ \<Rightarrow> False)"
  "first_class a = 3 \<Longrightarrow> utf8_valid (a # r) =
     (case r of b # c # r' \<Rightarrow> utf8_second3 a b \<and> utf8_cont c \<and> utf8_valid r' | _ \<Rightarrow> False)"
  "first_class a = 4 \<Longrightarrow> utf8_valid (a # r) =
     (case r of b # c # d # r' \<Rightarrow> utf8_second4 a b \<and> utf8_cont c \<and> utf8_cont d \<and> utf8_valid r' | _ \<Rightarrow> False)"
  by (simp_all only: utf8_valid.simps(2) if_first_class) simp_all

lemma utf8_lossy_class:
  "first_class a = 0 \<Longrightarrow> utf8_lossy (a # r) = replacement @ utf8_lossy r"
  "first_class a = 1 \<Longrightarrow> utf8_lossy (a # r) = a # utf8_lossy r"
  "first_class a = 2 \<Longrightarrow> utf8_lossy (a # r) =
     (case r of
        [] \<Rightarrow> replacement
      | b # r1 \<Rightarrow> if utf8_cont b then a # b # utf8_lossy r1 else replacement @ utf8_lossy r)"
  "first_class a = 3 \<Longrightarrow> utf8_lossy (a # r) =
     (case r of
        [] \<Rightarrow> replacement
      | b # r1 \<Rightarrow>
          if \<not> utf8_second3 a b then replacement @ utf8_lossy r
          else (case r1 of
                  [] \<Rightarrow> replacement
                | c # r2 \<Rightarrow>
                    if utf8_cont c then a # b # c # utf8_lossy r2 else replacement @ utf8_lossy r1))"
  "first_class a = 4 \<Longrightarrow> utf8_lossy (a # r) =
     (case r of
        [] \<Rightarrow> replacement
      | b # r1 \<Rightarrow>
          if \<not> utf8_second4 a b then replacement @ utf8_lossy r
          else (case r1 of
                  [] \<Rightarrow> replacement
                | c # r2 \<Rightarrow>
                    if \<not> utf8_cont c then replacement @ utf8_lossy r1
                    else (case r2 of
                            [] \<Rightarrow> replacement
                          | d # r3 \<Rightarrow>
                              if utf8_cont d then a # b # c # d # utf8_lossy r3
                              else replacement @ utf8_lossy r2)))"
  by (simp_all only: utf8_lossy.simps(2) if_first_class) simp_all

declare utf8_lossy.simps(2) [simp del]

lemma utf8_lossy_valid: "utf8_valid bs \<Longrightarrow> utf8_lossy bs = bs"
proof (induction bs rule: length_induct)
  case (1 bs)
  show ?case
  proof (cases bs)
    case (Cons a r)
    from 1 Cons show ?thesis
      by (cases rule: first_class_cases [of a])
        (auto simp: utf8_valid_class utf8_lossy_class split: list.splits)
  qed simp
qed

text \<open>The result is always UTF-8.\<close>

lemma utf8_valid_lossy: "utf8_valid (utf8_lossy bs)"
proof (induction bs rule: length_induct)
  case (1 bs)
  show ?case
  proof (cases bs)
    case (Cons a r)
    have "utf8_valid replacement" using utf8_valid_replacement [of "[]"] by simp
    with Cons 1 show ?thesis
      by (cases rule: first_class_cases [of a])
        (auto simp: utf8_valid_class utf8_lossy_class utf8_valid_replacement split: list.splits)
  qed simp
qed

section \<open>Characters\<close>

text \<open>The first character of a UTF-8 string, as its bytes.\<close>

definition first_char :: "string \<Rightarrow> string" where
  "first_char s =
     (case s of
        [] \<Rightarrow> []
      | c # _ \<Rightarrow> (let b = byte_of c
                 in take (if b < 0x80 then 1 else if b < 0xE0 then 2 else if b < 0xF0 then 3 else 4) s))"

text \<open>\<open>s.chars().take(n)\<close>, collected into a string.\<close>

fun take_chars :: "nat \<Rightarrow> string \<Rightarrow> string" where
  "take_chars 0 s = []"
| "take_chars (Suc n) s =
     (if s = [] then [] else first_char s @ take_chars n (drop (length (first_char s)) s))"

text \<open>
  \<open>str::is_char_boundary\<close> and the slice \<open>&s[a..b]\<close>, which panics (\<open>None\<close>) when the range is out of
  order, out of the string or splits a character.
\<close>

definition is_char_boundary :: "string \<Rightarrow> nat \<Rightarrow> bool" where
  "is_char_boundary s i \<longleftrightarrow> i = length s \<or> (i < length s \<and> \<not> utf8_cont (byte_of (s ! i)))"

definition str_slice :: "string \<Rightarrow> nat \<Rightarrow> nat \<Rightarrow> string option" where
  "str_slice s a b =
     (if a \<le> b \<and> b \<le> length s \<and> is_char_boundary s a \<and> is_char_boundary s b
      then Some (take (b - a) (drop a s)) else None)"

lemma utf8_second_cont: "utf8_second3 a b \<Longrightarrow> utf8_cont b" "utf8_second4 a b \<Longrightarrow> utf8_cont b"
  by (auto simp: utf8_second3_def utf8_second4_def utf8_cont_def word_le_nat_alt split: if_splits)

text \<open>A UTF-8 string starts with one character: a byte below \<open>0x80\<close>, or a first byte and its continuations.\<close>

lemma first_class_lead: "first_class a \<noteq> 0 \<Longrightarrow> \<not> utf8_cont a"
  by (auto simp: first_class_def utf8_cont_def word_le_nat_alt word_less_nat_alt split: if_splits)

lemma first_class_high: "first_class a \<noteq> 0 \<Longrightarrow> first_class a \<noteq> 1 \<Longrightarrow> 0x80 \<le> a"
  by (auto simp: first_class_def split: if_splits)

definition utf8_char :: "u8 list \<Rightarrow> bool" where
  "utf8_char ch \<longleftrightarrow>
     ch \<noteq> [] \<and> (\<forall>x. utf8_valid (ch @ x) = utf8_valid x) \<and> \<not> utf8_cont (hd ch) \<and>
     list_all utf8_cont (tl ch) \<and> (tl ch \<noteq> [] \<longrightarrow> 0x80 \<le> hd ch)"

lemma utf8_valid_uncons:
  assumes "utf8_valid bs" and "bs \<noteq> []"
  shows "\<exists>ch r. bs = ch @ r \<and> utf8_char ch \<and> utf8_valid r"
proof -
  from assms(2) obtain a r where bs: "bs = a # r" by (cases bs) auto
  show ?thesis
  proof (cases rule: first_class_cases [of a])
    case 1
    with assms bs show ?thesis by (simp add: utf8_valid_class)
  next
    case 2
    with assms bs have "utf8_char [a]" "utf8_valid r"
      by (auto simp: utf8_char_def utf8_valid_class first_class_lead)
    with bs show ?thesis by (intro exI [of _ "[a]"] exI [of _ r]) auto
  next
    case 3
    with assms bs obtain b r' where r: "r = b # r'" "utf8_cont b" "utf8_valid r'"
      by (auto simp: utf8_valid_class split: list.splits)
    with 3 have "utf8_char [a, b]"
      by (auto simp: utf8_char_def utf8_valid_class first_class_lead first_class_high)
    with bs r show ?thesis by (intro exI [of _ "[a, b]"] exI [of _ r']) auto
  next
    case 4
    with assms bs obtain b c r' where r: "r = b # c # r'" "utf8_second3 a b" "utf8_cont c" "utf8_valid r'"
      by (auto simp: utf8_valid_class split: list.splits)
    with 4 have "utf8_char [a, b, c]"
      by (auto simp: utf8_char_def utf8_valid_class first_class_lead first_class_high utf8_second_cont)
    with bs r show ?thesis by (intro exI [of _ "[a, b, c]"] exI [of _ r']) auto
  next
    case 5
    with assms bs obtain b c d r' where r: "r = b # c # d # r'" "utf8_second4 a b" "utf8_cont c"
      "utf8_cont d" "utf8_valid r'"
      by (auto simp: utf8_valid_class split: list.splits)
    with 5 have "utf8_char [a, b, c, d]"
      by (auto simp: utf8_char_def utf8_valid_class first_class_lead first_class_high utf8_second_cont)
    with bs r show ?thesis by (intro exI [of _ "[a, b, c, d]"] exI [of _ r']) auto
  qed
qed

lemma utf8_valid_induct [consumes 1, case_names Nil Char]:
  assumes "utf8_valid bs" and "P []"
    and "\<And>ch r. utf8_char ch \<Longrightarrow> utf8_valid r \<Longrightarrow> P r \<Longrightarrow> P (ch @ r)"
  shows "P bs"
  using assms(1)
proof (induction bs rule: length_induct)
  case (1 bs)
  show ?case
  proof (cases "bs = []")
    case False
    with 1 obtain ch r where "bs = ch @ r" "utf8_char ch" "utf8_valid r"
      using utf8_valid_uncons by blast
    with 1 show ?thesis by (auto simp: utf8_char_def intro!: assms(3))
  qed (simp add: assms(2))
qed

lemma utf8_valid_split:
  "utf8_valid bs \<Longrightarrow> i \<le> length bs \<Longrightarrow> i = length bs \<or> \<not> utf8_cont (bs ! i) \<Longrightarrow>
   utf8_valid (take i bs) \<and> utf8_valid (drop i bs)"
proof (induction bs arbitrary: i rule: utf8_valid_induct)
  case (Char ch r)
  show ?case
  proof (cases "i < length ch")
    case True
    have "i = 0"
    proof (rule ccontr)
      assume "i \<noteq> 0"
      with True have "ch ! i \<in> set (tl ch)" by (cases ch; cases i) auto
      with Char True show False by (auto simp: utf8_char_def list_all_iff nth_append)
    qed
    with Char show ?thesis by (simp add: utf8_char_def)
  next
    case False
    have ch: "utf8_valid (ch @ x) = utf8_valid x" for x using Char.hyps(1) by (simp add: utf8_char_def)
    from Char.prems False have "i - length ch \<le> length r"
      "i - length ch = length r \<or> \<not> utf8_cont (r ! (i - length ch))"
      by (auto simp: nth_append)
    from Char.IH [OF this] False show ?thesis by (simp add: ch)
  qed
qed simp

lemma str_slice_valid:
  assumes "utf8_valid (as_bytes s)" and "str_slice s a b = Some t"
  shows "utf8_valid (as_bytes t)"
proof -
  from assms(2) have t: "t = take (b - a) (drop a s)" "a \<le> b" "b \<le> length s"
    "is_char_boundary s a" "is_char_boundary s b"
    by (auto simp: str_slice_def split: if_splits)
  have "utf8_valid (take b (as_bytes s))"
    using utf8_valid_split [OF assms(1), of b] t by (auto simp: as_bytes_def is_char_boundary_def)
  then have "utf8_valid (drop a (take b (as_bytes s)))"
    using utf8_valid_split [of "take b (as_bytes s)" a] t
    by (cases "a = b") (auto simp: as_bytes_def is_char_boundary_def)
  with t show ?thesis by (simp add: as_bytes_def drop_take take_map drop_map)
qed
section \<open>White space\<close>

text \<open>The UTF-8 encodings of the characters with the Unicode property \<open>White_Space\<close>.\<close>

definition white_space :: "string list" where
  "white_space =
     [[CHR 0x09], [CHR 0x0A], [CHR 0x0B], [CHR 0x0C], [CHR 0x0D], [CHR 0x20],
      [CHR 0xC2, CHR 0x85], [CHR 0xC2, CHR 0xA0], [CHR 0xE1, CHR 0x9A, CHR 0x80],
      [CHR 0xE2, CHR 0x80, CHR 0x80], [CHR 0xE2, CHR 0x80, CHR 0x81],
      [CHR 0xE2, CHR 0x80, CHR 0x82], [CHR 0xE2, CHR 0x80, CHR 0x83],
      [CHR 0xE2, CHR 0x80, CHR 0x84], [CHR 0xE2, CHR 0x80, CHR 0x85],
      [CHR 0xE2, CHR 0x80, CHR 0x86], [CHR 0xE2, CHR 0x80, CHR 0x87],
      [CHR 0xE2, CHR 0x80, CHR 0x88], [CHR 0xE2, CHR 0x80, CHR 0x89],
      [CHR 0xE2, CHR 0x80, CHR 0x8A], [CHR 0xE2, CHR 0x80, CHR 0xA8],
      [CHR 0xE2, CHR 0x80, CHR 0xA9], [CHR 0xE2, CHR 0x80, CHR 0xAF],
      [CHR 0xE2, CHR 0x81, CHR 0x9F], [CHR 0xE3, CHR 0x80, CHR 0x80]]"

text \<open>Removes members of \<open>ws\<close> from the front of a string as long as there is one.\<close>

function strip_front :: "string list \<Rightarrow> string \<Rightarrow> string" where
  "strip_front ws s =
     (case find (\<lambda>w. w \<noteq> [] \<and> prefix w s) ws of
        None \<Rightarrow> s
      | Some w \<Rightarrow> strip_front ws (drop (length w) s))"
  by pat_completeness auto
termination
proof (relation "measure (\<lambda>(ws, s). length s)")
  fix ws :: "string list" and s w :: string
  assume "find (\<lambda>w. w \<noteq> [] \<and> prefix w s) ws = Some w"
  then have "w \<noteq> [] \<and> prefix w s"
    by (auto simp: find_Some_iff)
  then show "((ws, drop (length w) s), (ws, s)) \<in> measure (\<lambda>(ws, s). length s)"
    by (auto dest!: prefix_length_le intro!: diff_less)
qed simp

declare strip_front.simps [simp del]

definition trim_start :: "string \<Rightarrow> string" where
  "trim_start s = strip_front white_space s"

definition trim_end :: "string \<Rightarrow> string" where
  "trim_end s = rev (strip_front (map rev white_space) (rev s))"

definition trim :: "string \<Rightarrow> string" where
  "trim s = trim_end (trim_start s)"

lemma strip_front_suffix: "suffix (strip_front ws s) s"
proof (induction ws s rule: strip_front.induct)
  case (1 ws s)
  show ?case
  proof (cases "find (\<lambda>w. w \<noteq> [] \<and> prefix w s) ws")
    case None
    then show ?thesis by (simp add: strip_front.simps [of ws s])
  next
    case (Some w)
    with "1" have "suffix (strip_front ws (drop (length w) s)) (drop (length w) s)" by simp
    with Some show ?thesis
      by (auto simp: strip_front.simps [of ws s] intro: suffix_order.trans suffix_drop)
  qed
qed

lemma strip_front_idem: "strip_front ws (strip_front ws s) = strip_front ws s"
proof (induction ws s rule: strip_front.induct)
  case (1 ws s)
  then show ?case
    by (cases "find (\<lambda>w. w \<noteq> [] \<and> prefix w s) ws") (auto simp: strip_front.simps [of ws s])
qed

lemma strip_front_id: "\<not> list_ex (\<lambda>w. w \<noteq> [] \<and> prefix w s) ws \<Longrightarrow> strip_front ws s = s"
proof -
  assume "\<not> list_ex (\<lambda>w. w \<noteq> [] \<and> prefix w s) ws"
  then have "find (\<lambda>w. w \<noteq> [] \<and> prefix w s) ws = None"
    by (auto simp: find_None_iff list_ex_iff)
  then show ?thesis by (simp add: strip_front.simps [of ws s])
qed

lemma trim_end_prefix: "prefix (trim_end s) s"
  using strip_front_suffix [of "map rev white_space" "rev s"]
  by (simp add: trim_end_def suffix_to_prefix)

lemma trim_end_idem [simp]: "trim_end (trim_end s) = trim_end s"
  by (simp add: trim_end_def strip_front_idem)

lemma trim_end_Nil [simp]: "trim_end [] = []"
  using trim_end_prefix [of "[]"] by simp

section \<open>Paths\<close>

text \<open>
  \<open>Path::parent\<close> on Unix, where a path is its string. Trailing separators and trailing \<open>.\<close>
  components are not components; the parent is what precedes the last component, without its own
  trailing separators.
\<close>

fun path_trim_rev :: "string \<Rightarrow> string" where
  "path_trim_rev (CHR ''/'' # c # r) = path_trim_rev (c # r)"
| "path_trim_rev (CHR ''.'' # CHR ''/'' # r) = path_trim_rev (CHR ''/'' # r)"
| "path_trim_rev s = s"

definition path_trim :: "string \<Rightarrow> string" where
  "path_trim p = rev (path_trim_rev (rev p))"

definition path_parent :: "string \<Rightarrow> string option" where
  "path_parent p =
     (let q = path_trim p
      in if q = [] \<or> q = ''/'' then None
         else if CHR ''/'' \<notin> set q then Some []
         else Some (path_trim (rev (dropWhile (\<lambda>c. c \<noteq> CHR ''/'') (rev q)))))"

text \<open>
  \<open>Path::components\<close> on Unix: the root, a leading \<open>.\<close>, \<open>..\<close> and normal names; empty names and other
  \<open>.\<close>s are dropped. The number is the rank of the variant in the derived order of \<open>Component\<close>,
  so that \<open>Ord for Path\<close> is the lexicographic order of these lists.
\<close>

fun split_on :: "char \<Rightarrow> string \<Rightarrow> string list" where
  "split_on d [] = [[]]"
| "split_on d (c # cs) =
     (if c = d then [] # split_on d cs
      else case split_on d cs of [] \<Rightarrow> [[c]] | w # ws \<Rightarrow> (c # w) # ws)"

definition path_component :: "string \<Rightarrow> nat \<times> string" where
  "path_component w = (if w = ''..'' then (3, w) else (4, w))"

definition path_components :: "string \<Rightarrow> (nat \<times> string) list" where
  "path_components p =
     (let ws = split_on CHR ''/'' p
      in (if prefix ''/'' p then [(1, ''/'')] else if hd ws = ''.'' then [(2, ''.'')] else [])
         @ map path_component (filter (\<lambda>w. w \<noteq> [] \<and> w \<noteq> ''.'') ws))"

text \<open>\<open>Path::file_name\<close> and \<open>Path::extension\<close>.\<close>

definition file_name :: "string \<Rightarrow> string option" where
  "file_name p =
     (case rev (path_components p) of
        (r, w) # _ \<Rightarrow> if r = 4 then Some w else None
      | [] \<Rightarrow> None)"

definition path_extension :: "string \<Rightarrow> string option" where
  "path_extension p =
     (case file_name p of
        None \<Rightarrow> None
      | Some f \<Rightarrow>
          (let ext = rev (takeWhile (\<lambda>c. c \<noteq> CHR ''.'') (rev f))
           in if CHR ''.'' \<in> set f \<and> length ext + 1 < length f then Some ext else None))"

end
