(* ===== verification/Ill_Runtime.thy ===== *)
theory Ill_Runtime
  imports Ill_Diagnostic Ill_Value Ill_Text
begin

text \<open>
  The vocabulary of the runtime: arguments, outcomes and errors of \<^verbatim>\<open>runtime/mod.rs\<close>, the scope of
  \<^verbatim>\<open>runtime/eval.rs\<close>, the member slots of \<^verbatim>\<open>runtime/members.rs\<close> and the report types of
  \<^verbatim>\<open>runtime/report.rs\<close>. A \<open>PathBuf\<close> is the string it displays as.
\<close>

type_synonym path_buf = string

section \<open>Arguments, outcomes, errors\<close>

record declared_var =
  dv_name :: string
  dv_default :: "val option"

record construct_args =
  ca_keyword :: dict
  ca_source_dir :: path_buf
  ca_vars :: "declared_var list"

record command_args =
  args_positional :: "val list"
  args_keyword :: dict

definition ca_kw :: "construct_args \<Rightarrow> string \<Rightarrow> val option" where
  "ca_kw args name = map_of (ca_keyword args) name"

definition args_kw :: "command_args \<Rightarrow> string \<Rightarrow> val option" where
  "args_kw args name = map_of (args_keyword args) name"

datatype run_outcome =
    RunOk dict
  | RunError (err_variant: string) (err_fields: dict)
  | RunNotImplemented (ni_actor: string) (ni_cmd: string)

record teardown_outcome =
  td_ok :: bool
  td_message :: "string option"

definition teardown_ok :: teardown_outcome where
  "teardown_ok = \<lparr>td_ok = True, td_message = None\<rparr>"

definition teardown_failed :: "string \<Rightarrow> teardown_outcome" where
  "teardown_failed msg = \<lparr>td_ok = False, td_message = Some msg\<rparr>"

datatype runtime_error =
    RActorNotImplemented string
  | RMissingKwarg string
  | RTypeMismatch (tm_expected: string) (tm_got: string) (tm_context: string)
  | RConstruct string
  | REval string

fun runtime_error_display :: "runtime_error \<Rightarrow> string" where
  "runtime_error_display (RActorNotImplemented n) =
     ''actor type `'' @ n @ ''` has no runtime implementation yet''"
| "runtime_error_display (RMissingKwarg n) = ''missing required keyword arg `'' @ n @ ''`''"
| "runtime_error_display (RTypeMismatch expected got context) =
     ''type mismatch in '' @ context @ '': expected '' @ expected @ '', got '' @ got"
| "runtime_error_display (RConstruct msg) = ''construct failed: '' @ msg"
| "runtime_error_display (REval msg) = msg"

section \<open>Scope\<close>

type_synonym scope = "string \<rightharpoonup> val"

definition scope_new :: scope where
  "scope_new = Map.empty"

definition scope_bind :: "string \<Rightarrow> val \<Rightarrow> scope \<Rightarrow> scope" where
  "scope_bind name v s = s(name \<mapsto> v)"

definition scope_unbind :: "string \<Rightarrow> scope \<Rightarrow> scope" where
  "scope_unbind name s = s(name := None)"

definition scope_get :: "scope \<Rightarrow> string \<Rightarrow> val option" where
  "scope_get s name = s name"

lemma scope_get_simps [simp]:
  "scope_get scope_new n = None"
  "scope_get (scope_bind m v s) n = (if n = m then Some v else scope_get s n)"
  "scope_get (scope_unbind m s) n = (if n = m then None else scope_get s n)"
  by (simp_all add: scope_get_def scope_new_def scope_bind_def scope_unbind_def)

section \<open>Members\<close>

text \<open>The slots are a \<open>BTreeMap<String, Option<Value>>\<close>, entries in key order.\<close>

type_synonym members = "(string \<times> val option) list"

definition members_from_declarations :: "declared_var list \<Rightarrow> members" where
  "members_from_declarations vars = fold (\<lambda>v. btree_insert (dv_name v) (dv_default v)) vars []"

definition members_get :: "members \<Rightarrow> string \<Rightarrow> val option" where
  "members_get m name = (case map_of m name of None \<Rightarrow> None | Some slot \<Rightarrow> slot)"

definition members_is_declared :: "members \<Rightarrow> string \<Rightarrow> bool" where
  "members_is_declared m name = (map_of m name \<noteq> None)"

text \<open>\<open>Err(Undeclared)\<close> is \<open>None\<close>; assigning through \<open>get_mut\<close> keeps the slot's position.\<close>

definition members_set :: "string \<Rightarrow> val \<Rightarrow> members \<Rightarrow> members option" where
  "members_set name v m =
     (case map_of m name of
        Some _ \<Rightarrow> Some (map (\<lambda>(k, s). (k, if k = name then Some v else s)) m)
      | None \<Rightarrow> None)"

definition assigned_view :: "members \<Rightarrow> dict" where
  "assigned_view m =
     fold (\<lambda>(name, slot). case slot of Some v \<Rightarrow> index_insert name v | None \<Rightarrow> id) m []"

section \<open>Reports\<close>

datatype statement_report =
    ValidationFailure "diagnostic list"
  | ParseFailure "diagnostic list"
  | ConstructFailure (cf_actor: string) (cf_message: string) (cf_span: span)
  | CommandFailure (cmf_actor: string) (cmf_command: string) (cmf_span: span)
      (cmf_error_fields: dict) (cmf_expect: "string option")
  | CommandNotImplemented (cn_actor: string) (cn_command: string) (cn_span: span)
  | AssertFailure (af_actor: string) (af_span: span) (af_left: val) (af_right: "val option")
      (af_op: "comparison_op option") (af_expect: "string option")
  | EvalError (ee_actor: string) (ee_span: span) (ee_message: string)

record teardown_report =
  tdr_actor :: string
  tdr_outcome :: teardown_outcome

record test_report =
  tr_path :: path_buf
  tr_passed :: bool
  tr_statements :: "statement_report list"
  tr_teardown :: "teardown_report list"

section \<open>Laws of the member slots\<close>

lemma members_build_eq:
  "members_from_declarations vars =
     fold (\<lambda>(k, v). btree_insert k v) (map (\<lambda>v. (dv_name v, dv_default v)) vars) []"
  by (simp add: members_from_declarations_def fold_map comp_def)

lemma members_from_declarations_sorted:
  "sorted_wrt (<) (map fst (members_from_declarations vars))"
  using btree_map.invar_build [OF btree_map.invar_empty] by (simp add: members_build_eq)

lemma members_from_declarations_declared:
  "members_is_declared (members_from_declarations vars) n \<longleftrightarrow> n \<in> dv_name ` set vars"
proof -
  have "fst ` set (members_from_declarations vars) = dv_name ` set vars"
    using btree_map.set_keys_build [of "map (\<lambda>v. (dv_name v, dv_default v)) vars" "[]"]
    by (simp add: members_build_eq image_image)
  then show ?thesis by (simp add: members_is_declared_def map_of_eq_None_iff)
qed

lemma map_of_set_slot:
  "map_of (map (\<lambda>(k, s). (k, if k = name then Some v else s)) m) n =
     (if n = name then map_option (\<lambda>_. Some v) (map_of m n) else map_of m n)"
  by (induction m) auto

lemma members_get_set:
  "members_set name v m = Some m' \<Longrightarrow>
   members_get m' n = (if n = name then Some v else members_get m n)"
  by (auto simp: members_set_def members_get_def map_of_set_slot split: option.splits)

lemma members_set_keys:
  "members_set name v m = Some m' \<Longrightarrow> map fst m' = map fst m"
  by (auto simp: members_set_def split: option.splits)

lemma members_set_None_iff: "members_set name v m = None \<longleftrightarrow> \<not> members_is_declared m name"
  by (auto simp: members_set_def members_is_declared_def split: option.splits)

text \<open>The entries whose slot holds a value, in slot order.\<close>

fun assigned :: "members \<Rightarrow> dict" where
  "assigned [] = []"
| "assigned ((k, None) # m) = assigned m"
| "assigned ((k, Some v) # m) = (k, v) # assigned m"

lemma keys_assigned: "fst ` set (assigned m) \<subseteq> fst ` set m"
  by (induction m rule: assigned.induct) auto

lemma distinct_assigned: "distinct (map fst m) \<Longrightarrow> distinct (map fst (assigned m))"
proof (induction m rule: assigned.induct)
  case (3 k v m)
  with keys_assigned [of m] show ?case by auto
qed auto

lemma assigned_view_eq: "distinct (map fst m) \<Longrightarrow> assigned_view m = assigned m"
proof -
  assume "distinct (map fst m)"
  then have "fold (\<lambda>(k, v). index_insert k v) (assigned m) [] = assigned m"
    by (simp add: index_build_distinct distinct_assigned)
  moreover have "fold (\<lambda>(name, slot). case slot of Some v \<Rightarrow> index_insert name v | None \<Rightarrow> id) m d =
      fold (\<lambda>(k, v). index_insert k v) (assigned m) d" for d
    by (induction m arbitrary: d rule: assigned.induct) auto
  ultimately show ?thesis by (simp add: assigned_view_def)
qed

lemma map_of_assigned:
  "distinct (map fst m) \<Longrightarrow> map_of (assigned m) n = members_get m n"
proof (induction m rule: assigned.induct)
  case (2 k m)
  then have "map_of m k = None" by (simp add: map_of_eq_None_iff)
  with 2 show ?case by (auto simp: members_get_def)
qed (auto simp: members_get_def)

lemma assigned_view_get:
  "distinct (map fst m) \<Longrightarrow> map_of (assigned_view m) n = members_get m n"
  by (simp add: assigned_view_eq map_of_assigned)

text \<open>Assignments in sequence: each name keeps its slot and ends with what was assigned to it last.\<close>

lemma members_assign:
  "case option_fold (\<lambda>(name, v). members_set name v) kvs m of
     None \<Rightarrow> \<not> (\<forall>name \<in> fst ` set kvs. members_is_declared m name)
   | Some m' \<Rightarrow> (\<forall>name \<in> fst ` set kvs. members_is_declared m name) \<and> map fst m' = map fst m \<and>
       (\<forall>n. members_get m' n = (case map_of (rev kvs) n of Some v \<Rightarrow> Some v | None \<Rightarrow> members_get m n))"
proof (induction kvs arbitrary: m)
  case (Cons kv kvs)
  obtain k v where kv: "kv = (k, v)" by (cases kv)
  show ?case
  proof (cases "members_set k v m")
    case None
    then have "\<not> members_is_declared m k" by (simp add: members_set_None_iff)
    with None show ?thesis by (simp add: kv)
  next
    case (Some m1)
    have "members_is_declared m k" using Some members_set_None_iff [of k v m] by auto
    moreover have "members_is_declared m1 n = members_is_declared m n" for n
      using members_set_keys [OF Some] by (auto simp: members_is_declared_def map_of_eq_None_iff simp flip: set_map)
    ultimately show ?thesis
      using Cons.IH [of m1] members_set_keys [OF Some] members_get_set [OF Some]
      by (auto simp: kv Some map_add_def split: option.splits)
  qed
qed simp

lemma members_from_declarations_get:
  "members_get (members_from_declarations vars) n =
   Option.bind (map_of (rev (map (\<lambda>v. (dv_name v, dv_default v)) vars)) n) id"
  by (simp add: members_build_eq members_get_def btree_map.get_build split: option.splits)

lemma assigned_keys: "map fst (assigned m) = map fst (filter (\<lambda>(k, slot). slot \<noteq> None) m)"
  by (induction m rule: assigned.induct) simp_all

lemma assigned_view_sorted: "sorted_wrt (<) (map fst m) \<Longrightarrow> sorted_wrt (<) (map fst (assigned_view m))"
  by (simp add: assigned_view_eq strict_sorted_imp_distinct assigned_keys sorted_wrt_map sorted_wrt_filter)

text \<open>
  What the view bound to \<open>self\<close> holds: the last value assigned to a name, or else the default of its last
  declaration, in name order.
\<close>

lemma members_spec:
  "case option_fold (\<lambda>(name, v). members_set name v) kvs (members_from_declarations vars) of
     None \<Rightarrow> \<not> fst ` set kvs \<subseteq> dv_name ` set vars
   | Some m \<Rightarrow> fst ` set kvs \<subseteq> dv_name ` set vars \<and> sorted_wrt (<) (map fst (assigned_view m)) \<and>
       (\<forall>n. map_of (assigned_view m) n =
         (case map_of (rev kvs) n of
            Some v \<Rightarrow> Some v
          | None \<Rightarrow> Option.bind (map_of (rev (map (\<lambda>v. (dv_name v, dv_default v)) vars)) n) id))"
proof (cases "option_fold (\<lambda>(name, v). members_set name v) kvs (members_from_declarations vars)")
  case None
  with members_assign [of kvs "members_from_declarations vars"] show ?thesis
    by (auto simp: members_from_declarations_declared)
next
  case (Some m)
  with members_assign [of kvs "members_from_declarations vars"]
  have m: "fst ` set kvs \<subseteq> dv_name ` set vars" "map fst m = map fst (members_from_declarations vars)"
    "\<And>n. members_get m n =
      (case map_of (rev kvs) n of Some v \<Rightarrow> Some v | None \<Rightarrow> members_get (members_from_declarations vars) n)"
    by (auto simp: members_from_declarations_declared)
  have sorted: "sorted_wrt (<) (map fst m)" using members_from_declarations_sorted m(2) by simp
  show ?thesis
    using m(1,3) assigned_view_sorted [OF sorted] assigned_view_get [OF strict_sorted_imp_distinct [OF sorted]]
    by (simp add: Some members_from_declarations_get split: option.split)
qed

end
