(* ===== verification/Ill_Eval.thy ===== *)
theory Ill_Eval
  imports Ill_Runtime
begin

text \<open>
  The expression evaluator, \<^verbatim>\<open>runtime/eval.rs\<close>, and the squiggles of \<^verbatim>\<open>runtime/squiggle/\<close>. The two
  call each other: \<open>concat_fragments\<close> evaluates the interpolations of a literal, and a squiggle
  expression renders its fragments and hands them to the implementation its tag names.
\<close>

section \<open>Squiggle implementations\<close>

datatype squiggle_impl = SqSql | SqJson | SqHex | SqBytes | SqRe

fun squiggle_name :: "squiggle_impl \<Rightarrow> string" where
  "squiggle_name SqSql = ''sql''"
| "squiggle_name SqJson = ''json''"
| "squiggle_name SqHex = ''hex''"
| "squiggle_name SqBytes = ''b''"
| "squiggle_name SqRe = ''re''"

fun squiggle_output_type :: "squiggle_impl \<Rightarrow> value_type" where
  "squiggle_output_type SqSql = TyString"
| "squiggle_output_type SqJson = TyString"
| "squiggle_output_type SqHex = TyBytes"
| "squiggle_output_type SqBytes = TyBytes"
| "squiggle_output_type SqRe = TyString"

text \<open>\<open>decode_hex\<close>. The loop runs over characters; a character that is neither white space nor a
  digit ends it, and the message quotes that whole character.\<close>

definition is_ascii_whitespace :: "char \<Rightarrow> bool" where
  "is_ascii_whitespace c \<longleftrightarrow>
     c = CHR '' '' \<or> c = CHR 0x09 \<or> c = CHR 0x0A \<or> c = CHR 0x0C \<or> c = CHR 0x0D"

definition hex_nibble :: "char \<Rightarrow> u8 option" where
  "hex_nibble c =
     (let b = byte_of c
      in if byte_of (CHR ''0'') \<le> b \<and> b \<le> byte_of (CHR ''9'') then Some (b - byte_of (CHR ''0''))
         else if byte_of (CHR ''a'') \<le> b \<and> b \<le> byte_of (CHR ''f'') then Some (b - byte_of (CHR ''a'') + 10)
         else if byte_of (CHR ''A'') \<le> b \<and> b \<le> byte_of (CHR ''F'') then Some (b - byte_of (CHR ''A'') + 10)
         else None)"

fun decode_hex_loop :: "string \<Rightarrow> u8 option \<Rightarrow> u8 list \<Rightarrow> runtime_error + u8 list" where
  "decode_hex_loop [] high bytes =
     (case high of
        Some _ \<Rightarrow> Inl (REval ''~hex literal has odd nibble count'')
      | None \<Rightarrow> Inr bytes)"
| "decode_hex_loop (c # s) high bytes =
     (if is_ascii_whitespace c then decode_hex_loop s high bytes
      else case hex_nibble c of
        None \<Rightarrow> Inl (REval (''invalid hex character `'' @ first_char (c # s) @ ''` in ~hex literal''))
      | Some n \<Rightarrow>
          (case high of
             None \<Rightarrow> decode_hex_loop s (Some n) bytes
           | Some hi \<Rightarrow> decode_hex_loop s None (bytes @ [push_bit 4 hi OR n])))"

definition decode_hex :: "string \<Rightarrow> runtime_error + u8 list" where
  "decode_hex s = decode_hex_loop s None []"

text \<open>What each implementation's \<open>eval\<close> makes of the rendered fragments.\<close>

fun squiggle_finish :: "squiggle_impl \<Rightarrow> string \<Rightarrow> runtime_error + val" where
  "squiggle_finish SqSql rendered = Inr (VString rendered)"
| "squiggle_finish SqJson rendered = Inr (VString rendered)"
| "squiggle_finish SqHex rendered = map_sum id VBytes (decode_hex rendered)"
| "squiggle_finish SqBytes rendered = Inr (VBytes (as_bytes rendered))"
| "squiggle_finish SqRe rendered = Inr (VString rendered)"

text \<open>The squiggle registry: \<open>register\<close> panics on a duplicate name.\<close>

type_synonym squiggle_registry = "(string \<times> squiggle_impl) list"

definition squiggle_register :: "squiggle_impl \<Rightarrow> squiggle_registry \<Rightarrow> string + squiggle_registry" where
  "squiggle_register s r =
     (case map_of r (squiggle_name s) of
        Some _ \<Rightarrow> Inl (''duplicate squiggle: '' @ squiggle_name s)
      | None \<Rightarrow> Inr (index_insert (squiggle_name s) s r))"

definition squiggle_build :: "string + squiggle_registry" where
  "squiggle_build = try_fold squiggle_register [SqSql, SqJson, SqHex, SqBytes, SqRe] []"

definition squiggle_get :: "string \<Rightarrow> squiggle_impl option" where
  "squiggle_get name = (case squiggle_build of Inl panic \<Rightarrow> None | Inr r \<Rightarrow> map_of r name)"

section \<open>Evaluation\<close>

definition get_at :: "'a list \<Rightarrow> nat \<Rightarrow> 'a option" where
  "get_at xs i = (if i < length xs then Some (xs ! i) else None)"

fun index_into :: "val \<Rightarrow> val \<Rightarrow> runtime_error + val" where
  "index_into (VArray items) (VNumber n) =
     (if n < 0 then Inl (REval (''array index must be non-negative, got '' @ show_int n))
      else case get_at items (nat n) of
        Some v \<Rightarrow> Inr v
      | None \<Rightarrow> Inl (REval (''array index '' @ show_nat (nat n) @ '' out of bounds (length ''
                            @ show_nat (length items) @ '')'')))"
| "index_into (VDict d) (VString key) =
     (case map_of d key of
        Some v \<Rightarrow> Inr v
      | None \<Rightarrow> Inl (REval (''no field `'' @ key @ ''` on dict'')))"
| "index_into (VDict d) (VNumber n) =
     (if n < 0 then Inl (REval (''dict index must be non-negative, got '' @ show_int n))
      else case get_at d (nat n) of
        Some (_, v) \<Rightarrow> Inr v
      | None \<Rightarrow> Inl (REval (''dict index '' @ show_nat (nat n) @ '' out of bounds (length ''
                            @ show_nat (length d) @ '')'')))"
| "index_into c i = Inl (REval (''cannot index '' @ type_name c @ '' with '' @ type_name i))"

text \<open>How \<open>concat_fragments\<close> renders the value of one interpolation.\<close>

fun interpolate :: "val \<Rightarrow> runtime_error + string" where
  "interpolate (VString s) = Inr s"
| "interpolate (VNumber n) = Inr (show_int n)"
| "interpolate (VBool b) = Inr (show_bool b)"
| "interpolate (VAtom a) = Inr a"
| "interpolate (VBytes b) =
     (if utf8_valid b then Inr (from_bytes b)
      else Inl (REval ''cannot interpolate non-UTF-8 bytes into string''))"
| "interpolate v = Inl (REval (''cannot interpolate '' @ type_name v @ '' into string''))"

definition member_of :: "val \<Rightarrow> string \<Rightarrow> runtime_error + val" where
  "member_of obj prop =
     (case obj of
        VDict d \<Rightarrow> (case map_of d prop of
                     Some v \<Rightarrow> Inr v
                   | None \<Rightarrow> Inl (REval (''no field `'' @ prop @ ''` on dict'')))
      | other \<Rightarrow> Inl (REval (''cannot access `.'' @ prop @ ''` on '' @ type_name other)))"

text \<open>The runtime check that a squiggle's value has its declared type.\<close>

definition squiggle_value :: "squiggle_impl \<Rightarrow> string \<Rightarrow> runtime_error + val" where
  "squiggle_value sq rendered =
     (case squiggle_finish sq rendered of
        Inl e \<Rightarrow> Inl e
      | Inr v \<Rightarrow>
          if \<not> is_of_type v (squiggle_output_type sq)
          then Inl (REval (''squiggle `~'' @ squiggle_name sq @ ''` declared ''
                 @ value_type_debug (squiggle_output_type sq) @ '' but produced '' @ type_name v))
          else Inr v)"

fun eval :: "expr \<Rightarrow> scope \<Rightarrow> runtime_error + val"
  and eval_items :: "expr list \<Rightarrow> scope \<Rightarrow> runtime_error + val list"
  and eval_indices :: "expr list \<Rightarrow> val \<Rightarrow> scope \<Rightarrow> runtime_error + val"
  and concat_fragments :: "string_fragment list \<Rightarrow> scope \<Rightarrow> runtime_error + string"
where
  "eval (ENumber n) s = Inr (VNumber n)"
| "eval (EBool b) s = Inr (VBool b)"
| "eval ENull s = Inr VNull"
| "eval (EAtom i) s = Inr (VAtom (ident_name i))"
| "eval (EStringLit (StringLit frags sp)) s = map_sum id VString (concat_fragments frags s)"
| "eval (EIdent i) s =
     (case scope_get s (ident_name i) of
        Some v \<Rightarrow> Inr v
      | None \<Rightarrow> Inl (REval (''undefined name `'' @ ident_name i @ ''`'')))"
| "eval (EMemberAccess obj p sp) s =
     (case eval obj s of Inl e \<Rightarrow> Inl e | Inr v \<Rightarrow> member_of v (ident_name p))"
| "eval (EArray items) s = map_sum id VArray (eval_items items s)"
| "eval (ESquiggle (Squiggle name frags sp)) s =
     (case squiggle_get (ident_name name) of
        None \<Rightarrow> Inl (REval (''unknown squiggle `~'' @ ident_name name @ ''`''))
      | Some sq \<Rightarrow>
          (case concat_fragments frags s of Inl e \<Rightarrow> Inl e | Inr rendered \<Rightarrow> squiggle_value sq rendered))"
| "eval (EIndex obj ixs sp) s =
     (case eval obj s of Inl e \<Rightarrow> Inl e | Inr v \<Rightarrow> eval_indices ixs v s)"
| "eval_items [] s = Inr []"
| "eval_items (e # es) s =
     (case eval e s of
        Inl err \<Rightarrow> Inl err
      | Inr v \<Rightarrow> (case eval_items es s of Inl err \<Rightarrow> Inl err | Inr vs \<Rightarrow> Inr (v # vs)))"
| "eval_indices [] current s = Inr current"
| "eval_indices (e # es) current s =
     (case eval e s of
        Inl err \<Rightarrow> Inl err
      | Inr i \<Rightarrow> (case index_into current i of Inl err \<Rightarrow> Inl err | Inr v \<Rightarrow> eval_indices es v s))"
| "concat_fragments [] s = Inr []"
| "concat_fragments (Text t # fs) s =
     (case concat_fragments fs s of Inl err \<Rightarrow> Inl err | Inr out \<Rightarrow> Inr (t @ out))"
| "concat_fragments (Interpolation e # fs) s =
     (case eval e s of
        Inl err \<Rightarrow> Inl err
      | Inr v \<Rightarrow>
          (case interpolate v of
             Inl err \<Rightarrow> Inl err
           | Inr t \<Rightarrow> (case concat_fragments fs s of Inl err \<Rightarrow> Inl err | Inr out \<Rightarrow> Inr (t @ out))))"

section \<open>Squiggles keep their declared type\<close>

lemma squiggle_build_eq:
  "squiggle_build =
     Inr [(''sql'', SqSql), (''json'', SqJson), (''hex'', SqHex), (''b'', SqBytes), (''re'', SqRe)]"
  by (simp add: squiggle_build_def squiggle_register_def)

lemma squiggle_get_eq [ill_simps]:
  "squiggle_get name =
     (if name = ''sql'' then Some SqSql else if name = ''json'' then Some SqJson
      else if name = ''hex'' then Some SqHex else if name = ''b'' then Some SqBytes
      else if name = ''re'' then Some SqRe else None)"
  by (simp add: squiggle_get_def squiggle_build_eq)

lemma squiggle_finish_typed:
  "squiggle_finish sq s = Inr v \<Longrightarrow> is_of_type v (squiggle_output_type sq)"
  by (cases sq; cases "decode_hex s") auto

lemma squiggle_value_eq: "squiggle_value sq s = squiggle_finish sq s"
  by (auto simp: squiggle_value_def squiggle_finish_typed split: sum.splits)

lemma squiggle_value_typed: "squiggle_value sq s = Inr v \<Longrightarrow> is_of_type v (squiggle_output_type sq)"
  by (simp add: squiggle_value_eq squiggle_finish_typed)

section \<open>Hexadecimal literals\<close>

text \<open>The nibbles of a byte string, high first: what a \<open>~hex\<close> literal spells.\<close>

fun nibbles :: "u8 list \<Rightarrow> u8 list" where
  "nibbles [] = []"
| "nibbles (b # bs) = drop_bit 4 b # (b AND 15) # nibbles bs"

lemma small_bits:
  fixes n :: u8
  assumes "n < 16" shows "take_bit 4 n = n"
proof -
  from assms have "unat n < 16" by (simp add: word_less_nat_alt)
  then have "unat (take_bit 4 n) = unat n"
    by (simp add: unsigned_take_bit_eq take_bit_nat_eq_self_iff)
  then show ?thesis by (rule unsigned_word_eqI)
qed

lemma nibble_join:
  fixes b hi n :: u8
  assumes "hi < 16" "n < 16"
  shows "drop_bit 4 b = hi \<and> b AND 15 = n \<longleftrightarrow> b = push_bit 4 hi OR n"
proof -
  have m: "x AND (15 :: u8) = take_bit 4 x" for x by (simp add: take_bit_eq_mask mask_eq_exp_minus_1)
  have hi: "bit hi i \<Longrightarrow> i < 4" and n: "bit n i \<Longrightarrow> i < 4" for i
    using small_bits assms by (metis bit_take_bit_iff)+
  have split: "b = push_bit 4 (drop_bit 4 b) OR take_bit 4 b"
    by (rule bit_eqI) (auto simp: bit_simps)
  have "drop_bit 4 (push_bit 4 hi OR n) = hi"
    by (rule bit_eqI) (auto simp: bit_simps dest: hi n)
  moreover have "take_bit 4 (push_bit 4 hi OR n) = n"
    by (rule bit_eqI) (auto simp: bit_simps dest: hi n)
  ultimately show ?thesis using split unfolding m by metis
qed
lemma hex_nibble_small: "hex_nibble c = Some n \<Longrightarrow> n < 16"
proof -
  have "x - 48 < 16" if "48 \<le> x" "x \<le> 57" for x :: u8
    using that by unat_arith
  moreover have "x - 97 + 10 < 16" if "97 \<le> x" "x \<le> 102" for x :: u8
    using that by unat_arith
  moreover have "x - 65 + 10 < 16" if "65 \<le> x" "x \<le> 70" for x :: u8
    using that by unat_arith
  moreover assume "hex_nibble c = Some n"
  ultimately show ?thesis
    by (auto simp: hex_nibble_def Let_def byte_of_def split: if_splits)
qed

lemma nibbles_Cons_iff:
  assumes "hi < 16" "n < 16"
  shows "map Some (nibbles bs) = Some hi # Some n # xs \<longleftrightarrow>
    (\<exists>bs'. bs = (push_bit 4 hi OR n) # bs' \<and> map Some (nibbles bs') = xs)"
  using nibble_join [OF assms] by (cases bs) auto

lemma decode_hex_loop_Inr_iff:
  assumes "\<forall>h \<in> set_option high. h < 16"
  shows "decode_hex_loop s high bytes = Inr out \<longleftrightarrow>
    (\<exists>bs. out = bytes @ bs \<and>
      map Some (nibbles bs) =
        map Some (case high of None \<Rightarrow> [] | Some h \<Rightarrow> [h])
          @ map hex_nibble (filter (\<lambda>c. \<not> is_ascii_whitespace c) s))"
  using assms
proof (induction s high bytes rule: decode_hex_loop.induct)
  case (1 high bytes)
  have "map Some (nibbles bs) = [Some h] \<longleftrightarrow> False" for bs h by (cases bs) auto
  moreover have "map Some (nibbles bs) = [] \<longleftrightarrow> bs = []" for bs by (cases bs) auto
  ultimately show ?case by (cases high) auto
next
  case (2 c s high bytes)
  show ?case
  proof (cases "is_ascii_whitespace c")
    case True
    with 2 show ?thesis by simp
  next
    case ws: False
    show ?thesis
    proof (cases "hex_nibble c")
      case None
      then have "map Some (nibbles bs) \<noteq> xs @ hex_nibble c # ys" for bs xs ys
        by (metis list.set_intros(1) in_set_conv_decomp imageE list.set_map option.distinct(1))
      with ws None show ?thesis by (auto split: option.splits)
    next
      case (Some n)
      then have "n < 16" by (rule hex_nibble_small)
      with 2 ws Some show ?thesis
        by (cases high) (auto simp: nibbles_Cons_iff)
    qed
  qed
qed

section \<open>Well-formed values\<close>

text \<open>
  What the Rust types guarantee of a \<open>Value\<close>: numbers fit \<open>i64\<close>, text is UTF-8, dict keys are
  distinct.
\<close>

fun wf_val :: "val \<Rightarrow> bool" where
  "wf_val (VString s) = utf8_valid (as_bytes s)"
| "wf_val (VAtom s) = utf8_valid (as_bytes s)"
| "wf_val (VNumber n) = in_i64 n"
| "wf_val (VArray vs) = list_all wf_val vs"
| "wf_val (VDict d) = (distinct (map fst d) \<and> list_all (\<lambda>(k, v). utf8_valid (as_bytes k) \<and> wf_val v) d)"
| "wf_val _ = True"

definition wf_scope :: "scope \<Rightarrow> bool" where
  "wf_scope s \<longleftrightarrow> (\<forall>v \<in> ran s. wf_val v)"

lemma wf_scope_get: "wf_scope s \<Longrightarrow> scope_get s n = Some v \<Longrightarrow> wf_val v"
  by (auto simp: wf_scope_def scope_get_def ran_def)

lemma wf_interpolate: "wf_val v \<Longrightarrow> interpolate v = Inr s \<Longrightarrow> utf8_valid (as_bytes s)"
  by (cases v) (auto split: if_splits simp: utf8_valid_ascii is_ascii_show_int is_ascii_show_bool)

lemma wf_member_of: "wf_val v \<Longrightarrow> member_of v n = Inr w \<Longrightarrow> wf_val w"
  by (auto simp: member_of_def list_all_iff split: val.splits option.splits dest!: map_of_SomeD)

lemma wf_index_into: "wf_val v \<Longrightarrow> index_into v i = Inr w \<Longrightarrow> wf_val w"
  by (induction v i rule: index_into.induct)
    (auto simp: list_all_iff get_at_def split: option.splits if_splits prod.splits dest!: map_of_SomeD,
     (metis nth_mem case_prodD)+)

lemma wf_squiggle: "utf8_valid (as_bytes s) \<Longrightarrow> squiggle_value sq s = Inr v \<Longrightarrow> wf_val v"
  by (cases sq; cases "decode_hex s") (auto simp: squiggle_value_eq)


definition wf_text :: "string_fragment \<Rightarrow> bool" where
  "wf_text f = (case f of Text t \<Rightarrow> utf8_valid (as_bytes t) | _ \<Rightarrow> True)"

lemma wf_text_simps [simp]: "wf_text (Text t) = utf8_valid (as_bytes t)" "wf_text (Interpolation e)"
  by (simp_all add: wf_text_def)

fun wf_node :: "expr \<Rightarrow> bool" where
  "wf_node (ENumber n) = in_i64 n"
| "wf_node (EAtom i) = utf8_valid (as_bytes (ident_name i))"
| "wf_node (EStringLit (StringLit fs _)) = list_all wf_text fs"
| "wf_node (ESquiggle (Squiggle _ fs _)) = list_all wf_text fs"
| "wf_node _ = True"

lemma eval_wf_mut:
  "wf_scope s \<Longrightarrow> list_all wf_node (subexprs e) \<Longrightarrow> eval e s = Inr v \<Longrightarrow> wf_val v"
  "wf_scope s \<Longrightarrow> list_all wf_node (subexprs_list es) \<Longrightarrow> eval_items es s = Inr vs \<Longrightarrow> list_all wf_val vs"
  "wf_scope s \<Longrightarrow> list_all wf_node (subexprs_list ixs) \<Longrightarrow> wf_val cur \<Longrightarrow>
   eval_indices ixs cur s = Inr v \<Longrightarrow> wf_val v"
  "wf_scope s \<Longrightarrow> list_all wf_node (subexprs_frags fs) \<Longrightarrow> list_all wf_text fs \<Longrightarrow>
   concat_fragments fs s = Inr t \<Longrightarrow> utf8_valid (as_bytes t)"
proof (induction e s and es s and ixs cur s and fs s arbitrary: v and vs and v and t
    rule: eval_eval_items_eval_indices_concat_fragments.induct)
  case (14 e es current s)
  then show ?case by (auto split: sum.splits) (use wf_index_into in blast)
next
  case (17 e fs s)
  then show ?case by (auto split: sum.splits) (metis wf_interpolate utf8_valid_append)
next
  case (6 i s)
  then show ?case by (auto split: option.splits dest: wf_scope_get)
next
  case (7 obj p sp s)
  then show ?case by (auto split: sum.splits) (use wf_member_of in blast)
next
  case (9 name frags sp s)
  then show ?case by (auto split: sum.splits option.splits) (use wf_squiggle in blast)
next
  case (5 frags sp s)
  then show ?case by (auto simp: map_sum_id_Inr)
next
  case (8 items s)
  then show ?case by (auto simp: map_sum_id_Inr)
next
  case (10 obj ixs sp s)
  from "10.prems" obtain w where w: "eval obj s = Inr w" "eval_indices ixs w s = Inr v"
    by (auto split: sum.splits)
  from "10.prems" have sub: "list_all wf_node (subexprs obj)" "list_all wf_node (subexprs_list ixs)"
    by simp_all
  have "wf_val w" by (rule "10.IH"(1) [OF "10.prems"(1) sub(1) w(1)])
  then show ?case by (rule "10.IH"(2) [OF w(1) "10.prems"(1) sub(2) _ w(2)])
next
  case (12 e es s)
  then show ?case by (auto split: sum.splits)
next
  case (16 t' fs s)
  then show ?case by (auto simp: utf8_valid_append split: sum.splits)
qed (auto simp: as_bytes_def)

section \<open>Unknown squiggles\<close>

definition known_squiggle :: "expr \<Rightarrow> bool" where
  "known_squiggle e = (case e of ESquiggle (Squiggle n _ _) \<Rightarrow> squiggle_get (ident_name n) \<noteq> None | _ \<Rightarrow> True)"

lemma known_squiggle_simps [simp]:
  "known_squiggle (ESquiggle (Squiggle n fs sp)) = (squiggle_get (ident_name n) \<noteq> None)"
  "known_squiggle (EStringLit l)" "known_squiggle (EArray es)" "known_squiggle (EMemberAccess e p sp)"
  "known_squiggle (EIndex e ixs sp)" "known_squiggle (EIdent i)"
  by (simp_all add: known_squiggle_def)

text \<open>
  Messages with which the evaluator or the harness says that a name the validator should have
  resolved does not resolve: unknown squiggles, commands, actor types, and missing instances.
\<close>

definition drift_msg :: "string \<Rightarrow> bool" where
  "drift_msg m \<longleftrightarrow> prefix ''unknown'' m \<or> prefix ''actor `'' m"

definition drift_error :: "runtime_error \<Rightarrow> bool" where
  "drift_error e \<longleftrightarrow> drift_msg (runtime_error_display e)"

lemmas drift_defs = drift_error_def drift_msg_def

lemma index_into_error: "index_into v i = Inl e \<Longrightarrow> \<not> drift_error e"
  by (induction v i rule: index_into.induct)
    (auto simp: drift_defs split: option.splits if_splits prod.splits)

lemma interpolate_error: "interpolate v = Inl e \<Longrightarrow> \<not> drift_error e"
  by (cases v) (auto simp: drift_defs split: if_splits)

lemma member_of_error: "member_of v n = Inl e \<Longrightarrow> \<not> drift_error e"
  by (cases v) (auto simp: member_of_def drift_defs split: option.splits)

lemma decode_hex_loop_error: "decode_hex_loop s h b = Inl e \<Longrightarrow> \<not> drift_error e"
  by (induction s h b rule: decode_hex_loop.induct)
    (auto simp: drift_defs split: option.splits if_splits)

lemma squiggle_value_error: "squiggle_value sq s = Inl e \<Longrightarrow> \<not> drift_error e"
  by (cases sq; cases "decode_hex s")
    (auto simp: squiggle_value_eq decode_hex_def dest: decode_hex_loop_error)

lemma eval_known_squiggles:
  "list_all known_squiggle (subexprs e) \<Longrightarrow> eval e s = Inl err \<Longrightarrow> \<not> drift_error err"
  "list_all known_squiggle (subexprs_list es) \<Longrightarrow> eval_items es s = Inl err \<Longrightarrow> \<not> drift_error err"
  "list_all known_squiggle (subexprs_list ixs) \<Longrightarrow> eval_indices ixs cur s = Inl err \<Longrightarrow>
   \<not> drift_error err"
  "list_all known_squiggle (subexprs_frags fs) \<Longrightarrow> concat_fragments fs s = Inl err \<Longrightarrow>
   \<not> drift_error err"
  by (induction e s and es s and ixs cur s and fs s arbitrary: err and err and err and err
    rule: eval_eval_items_eval_indices_concat_fragments.induct)
   (auto simp: map_sum_id_Inl drift_defs
      split: sum.splits option.splits 
      dest: index_into_error interpolate_error member_of_error squiggle_value_error)


section \<open>Evaluation reads only the names an expression mentions\<close>

lemma eval_scope_cong:
  "(\<And>n. n \<in> names_of (subexprs e) \<Longrightarrow> scope_get s n = scope_get t n) \<Longrightarrow> eval e s = eval e t"
  "(\<And>n. n \<in> names_of (subexprs_list es) \<Longrightarrow> scope_get s n = scope_get t n) \<Longrightarrow> eval_items es s = eval_items es t"
  "(\<And>n. n \<in> names_of (subexprs_list ixs) \<Longrightarrow> scope_get s n = scope_get t n) \<Longrightarrow>
   eval_indices ixs cur s = eval_indices ixs cur t"
  "(\<And>n. n \<in> names_of (subexprs_frags fs) \<Longrightarrow> scope_get s n = scope_get t n) \<Longrightarrow>
   concat_fragments fs s = concat_fragments fs t"
  by (induction e s and es s and ixs cur s and fs s
      rule: eval_eval_items_eval_indices_concat_fragments.induct)
    (simp_all cong: option.case_cong sum.case_cong)

end
