(* ===== verification/Ill_Validate.thy ===== *)
theory Ill_Validate
  imports Ill_Registry Ill_Diagnostic Ill_Eval
begin

text \<open>
  The validator, \<^verbatim>\<open>validate.rs\<close>: a symbolic interpreter that walks the file tracking each actor's
  mode and the types of its variables, and collects diagnostics. Methods on \<open>&mut self\<close> return the
  updated validator; the locals of \<open>check_as_block\<close> are the record \<open>block_ctx\<close>.
\<close>

section \<open>State\<close>

record healthy_actor =
  ha_type_def :: actor_type
  ha_mode :: mode
  ha_vars :: "string \<rightharpoonup> value_type"

datatype actor_state = Healthy healthy_actor | Errored

fun is_errored :: "actor_state \<Rightarrow> bool" where
  "is_errored Errored = True"
| "is_errored (Healthy h) = False"

fun as_healthy :: "actor_state \<Rightarrow> healthy_actor option" where
  "as_healthy (Healthy h) = Some h"
| "as_healthy Errored = None"

datatype command_outcome = ImpliedOk | ExplicitOk | ExplicitError

fun outcome_is_ok :: "command_outcome \<Rightarrow> bool" where
  "outcome_is_ok ImpliedOk = True"
| "outcome_is_ok ExplicitOk = True"
| "outcome_is_ok ExplicitError = False"

record validator =
  v_registry :: registry
  v_actors :: "string \<rightharpoonup> actor_state"
  v_diagnostics :: "diagnostic list"

definition push_diag :: "diagnostic \<Rightarrow> validator \<Rightarrow> validator" where
  "push_diag d v = v\<lparr>v_diagnostics := v_diagnostics v @ [d]\<rparr>"

definition healthy :: "validator \<Rightarrow> string \<Rightarrow> healthy_actor option" where
  "healthy v name = (case v_actors v name of None \<Rightarrow> None | Some st \<Rightarrow> as_healthy st)"

text \<open>\<open>if let Some(state) = self.healthy_mut(name) { ... }\<close>\<close>

definition update_healthy ::
  "string \<Rightarrow> (healthy_actor \<Rightarrow> healthy_actor) \<Rightarrow> validator \<Rightarrow> validator" where
  "update_healthy name f v =
     (case healthy v name of
        None \<Rightarrow> v
      | Some h \<Rightarrow> v\<lparr>v_actors := (v_actors v)(name \<mapsto> Healthy (f h))\<rparr>)"

section \<open>Expression types\<close>

fun expr_type :: "expr \<Rightarrow> value_type" where
  "expr_type (EStringLit _) = TyString"
| "expr_type (ENumber _) = TyNumber"
| "expr_type (EBool _) = TyBool"
| "expr_type ENull = TyNull"
| "expr_type (EAtom _) = TyAtom"
| "expr_type (ESquiggle (Squiggle name _ _)) =
     (case squiggle_get (ident_name name) of
        Some s \<Rightarrow> squiggle_output_type s
      | None \<Rightarrow> TyUnknown)"
| "expr_type _ = TyUnknown"

fun resolve_outcome_chain ::
  "expr \<Rightarrow> outcome_field list \<Rightarrow> error_type_def list \<Rightarrow> value_type option" where
  "resolve_outcome_chain (EMemberAccess (EIdent root) property sp) last_ok last_err =
     (if ident_name root = ''ok'' then
        map_option fld_ty (find_by fld_name (ident_name property) last_ok)
      else if ident_name root = ''error'' then
        (if ident_name property = ''type'' then Some TyAtom
         else map_option (\<lambda>_. TyUnknown) (find_by et_name (ident_name property) last_err))
      else None)"
| "resolve_outcome_chain
     (EMemberAccess (EMemberAccess (EIdent root) variant_prop sp') property sp) last_ok last_err =
     (if ident_name root \<noteq> ''error'' then None
      else case find_by et_name (ident_name variant_prop) last_err of
        None \<Rightarrow> None
      | Some variant \<Rightarrow> map_option fld_ty (find_by fld_name (ident_name property) (et_fields variant)))"
| "resolve_outcome_chain e last_ok last_err = None"

definition expr_type_in_actor ::
  "validator \<Rightarrow> string \<Rightarrow> expr \<Rightarrow> outcome_field list \<Rightarrow> error_type_def list \<Rightarrow> command_outcome
     \<Rightarrow> value_type" where
  "expr_type_in_actor v actor_name e last_ok last_err outcome =
     (let var_type = (\<lambda>name. case healthy v actor_name of
                         None \<Rightarrow> None | Some st \<Rightarrow> ha_vars st name);
          chain = (case resolve_outcome_chain e last_ok last_err of
                     Some ty \<Rightarrow> ty | None \<Rightarrow> TyUnknown)
      in case e of
        EMemberAccess (EIdent root) property _ \<Rightarrow>
          if ident_name root = ''self'' then
            (case var_type (ident_name property) of Some ty \<Rightarrow> ty | None \<Rightarrow> TyUnknown)
          else chain
      | EMemberAccess _ _ _ \<Rightarrow> chain
      | EIdent i \<Rightarrow> (case var_type (ident_name i) of Some ty \<Rightarrow> ty | None \<Rightarrow> TyUnknown)
      | _ \<Rightarrow> expr_type e)"

section \<open>Squiggles\<close>

definition unknown_squiggle_diag :: "expr \<Rightarrow> diagnostic list \<Rightarrow> diagnostic list" where
  "unknown_squiggle_diag e ds =
     (case e of
        ESquiggle (Squiggle name _ _) \<Rightarrow>
          (if squiggle_get (ident_name name) = None
           then ds @ [diag_error (ident_span name) UnknownSquiggle
                        (''unknown squiggle `~'' @ ident_name name @ ''`'')]
           else ds)
      | _ \<Rightarrow> ds)"

definition check_squiggles_in_expr :: "expr \<Rightarrow> validator \<Rightarrow> validator" where
  "check_squiggles_in_expr e v =
     v\<lparr>v_diagnostics := for_each_expr e unknown_squiggle_diag (v_diagnostics v)\<rparr>"

fun check_squiggles_in_kwvalue :: "keyword_value \<Rightarrow> validator \<Rightarrow> validator" where
  "check_squiggles_in_kwvalue (KwExpr e) v = check_squiggles_in_expr e v"
| "check_squiggles_in_kwvalue (KwMap pairs) v =
     fold (\<lambda>(k, x) v. check_squiggles_in_expr x (check_squiggles_in_expr k v)) pairs v"

section \<open>Keyword arguments\<close>

definition check_keyword_args_against ::
  "keyword_arg list \<Rightarrow> keyword_arg_def list \<Rightarrow> span \<Rightarrow> string option \<Rightarrow> validator \<Rightarrow> validator" where
  "check_keyword_args_against provided expected fallback_span command_context v =
     (let v1 = fold (\<lambda>kw v.
            if \<not> list_ex (\<lambda>d. kwd_name d = ident_name (kw_key kw)) expected then
              push_diag (diag_error (ident_span (kw_key kw)) UnknownKeywordArg
                (case command_context of
                   Some cmd \<Rightarrow> ''unknown keyword arg `'' @ ident_name (kw_key kw)
                                @ ''` for command `'' @ cmd @ ''`''
                 | None \<Rightarrow> ''unknown keyword arg `'' @ ident_name (kw_key kw) @ ''`'')) v
            else v) provided v
      in fold (\<lambda>d v.
            if kwd_required d \<and> \<not> list_ex (\<lambda>kw. ident_name (kw_key kw) = kwd_name d) provided then
              push_diag (diag_error fallback_span MissingRequiredArg
                (case command_context of
                   Some cmd \<Rightarrow> ''command `'' @ cmd @ ''` missing required keyword arg `''
                                @ kwd_name d @ ''`''
                 | None \<Rightarrow> ''missing required keyword arg `'' @ kwd_name d @ ''`'')) v
            else v) expected v1)"

section \<open>Actor declarations\<close>

definition register_actor :: "actor_declaration \<Rightarrow> validator \<Rightarrow> validator" where
  "register_actor decl v =
     (let name = ident_name (decl_name decl);
          duplicate = (case v_actors v name of None \<Rightarrow> False | Some st \<Rightarrow> \<not> is_errored st)
      in if duplicate then
           push_diag (diag_error (ident_span (decl_name decl)) DuplicateActor
             (''actor `'' @ name @ ''` is already declared'')) v
         else case registry_get (v_registry v) (ident_name (decl_actor_type decl)) of
           None \<Rightarrow>
             (push_diag (diag_error (ident_span (decl_actor_type decl)) UnknownActorType
                (''unknown actor type `'' @ ident_name (decl_actor_type decl) @ ''`'')) v)
               \<lparr>v_actors := (v_actors v)(name \<mapsto> Errored)\<rparr>
         | Some type_def \<Rightarrow>
             let v1 = check_keyword_args_against (decl_keyword_args decl)
                        (at_constructor_keyword type_def) (decl_span decl) None v;
                 v2 = fold (\<lambda>kw. check_squiggles_in_kwvalue (kw_value kw)) (decl_keyword_args decl) v1;
                 (vars, v3) = fold (\<lambda>var (vars, v).
                     (vars(ident_name (var_name var) \<mapsto>
                        (case var_default var of Some e \<Rightarrow> expr_type e | None \<Rightarrow> TyUnknown)),
                      case var_default var of Some d \<Rightarrow> check_squiggles_in_expr d v | None \<Rightarrow> v))
                   (decl_vars decl) (Map.empty, v2)
             in v3\<lparr>v_actors := (v_actors v3)(name \<mapsto>
                  Healthy \<lparr>ha_type_def = type_def, ha_mode = at_initial_mode type_def,
                            ha_vars = vars\<rparr>)\<rparr>)"

section \<open>Commands\<close>

definition check_command ::
  "string \<Rightarrow> command \<Rightarrow> validator
     \<Rightarrow> (outcome_field list \<times> error_type_def list \<times> mode option) \<times> validator" where
  "check_command actor_name cmd v =
     (case healthy v actor_name of
        None \<Rightarrow> (([], [], None), v)
      | Some st \<Rightarrow>
        (let type_def = ha_type_def st; current_mode = ha_mode st; name = ident_name (cmd_name cmd)
         in case resolve_command type_def name (cmd_positional_args cmd) of
              None \<Rightarrow>
                (([], [], None),
                 push_diag (diag_error (ident_span (cmd_name cmd)) UnknownCommand
                   (unknown_command_message (at_name type_def) name (cmd_positional_args cmd))) v)
            | Some (cmd_def, consumed) \<Rightarrow>
                if \<not> list_ex (\<lambda>m. same_mode m current_mode) (cd_valid_in_modes cmd_def) then
                  (([], [], None),
                   push_diag (diag_error (ident_span (cmd_name cmd)) CommandNotValidInMode
                     (''command `'' @ name @ ''` is not valid in mode `'' @ mode_name current_mode
                       @ ''` (valid: '' @ join '', '' (map mode_name (cd_valid_in_modes cmd_def))
                       @ '')'')) v)
                else
                  (let source_positional = drop consumed (cmd_positional_args cmd);
                       expected = length (cd_positional cmd_def);
                       actual = length source_positional;
                       v1 = (if actual < expected then
                               push_diag (diag_error (ident_span (cmd_name cmd)) MissingRequiredArg
                                 (''command `'' @ name @ ''` missing required positional arg `''
                                   @ arg_name (cd_positional cmd_def ! actual) @ ''`'')) v
                             else v);
                       v2 = fold check_squiggles_in_expr source_positional v1;
                       v3 = check_keyword_args_against (cmd_keyword_args cmd) (cd_keyword cmd_def)
                              (cmd_span cmd) (Some name) v2;
                       v4 = fold (\<lambda>kw. check_squiggles_in_kwvalue (kw_value kw)) (cmd_keyword_args cmd) v3
                   in ((cd_ok_fields cmd_def, cd_error_types cmd_def, cd_transitions_to cmd_def), v4))))"

section \<open>\<open>as\<close> blocks\<close>

fun advance_outcome ::
  "command_outcome \<Rightarrow> bool \<Rightarrow> span \<Rightarrow> validator \<Rightarrow> command_outcome \<times> validator" where
  "advance_outcome ImpliedOk True sp v = (ExplicitOk, v)"
| "advance_outcome ImpliedOk False sp v = (ExplicitError, v)"
| "advance_outcome ExplicitOk False sp v =
     (ExplicitOk, push_diag (diag_error sp ConflictingOutcomeAsserts
        ''cannot mix `ok` and `error` references for the same command'') v)"
| "advance_outcome ExplicitError True sp v =
     (ExplicitError, push_diag (diag_error sp ConflictingOutcomeAsserts
        ''cannot mix `ok` and `error` references for the same command'') v)"
| "advance_outcome ExplicitOk True sp v = (ExplicitOk, v)"
| "advance_outcome ExplicitError False sp v = (ExplicitError, v)"

record block_ctx =
  ctx_ok_fields :: "outcome_field list"
  ctx_error_types :: "error_type_def list"
  ctx_outcome :: command_outcome
  ctx_pending :: "mode option"

definition block_ctx_init :: block_ctx where
  "block_ctx_init =
     \<lparr>ctx_ok_fields = [], ctx_error_types = [], ctx_outcome = ImpliedOk, ctx_pending = None\<rparr>"

definition apply_pending :: "string \<Rightarrow> block_ctx \<Rightarrow> validator \<Rightarrow> validator" where
  "apply_pending actor ctx v =
     (if outcome_is_ok (ctx_outcome ctx) then
        (case ctx_pending ctx of
           None \<Rightarrow> v
         | Some next_mode \<Rightarrow> update_healthy actor (\<lambda>h. h\<lparr>ha_mode := next_mode\<rparr>) v)
      else v)"

fun check_statement :: "string \<Rightarrow> statement \<Rightarrow> block_ctx \<times> validator \<Rightarrow> block_ctx \<times> validator" where
  "check_statement actor (SCommand cmd) (ctx, v) =
     (let v1 = apply_pending actor ctx v;
          ((ok_fields, error_types, transition), v2) = check_command actor cmd v1
      in (\<lparr>ctx_ok_fields = ok_fields, ctx_error_types = error_types, ctx_outcome = ImpliedOk,
           ctx_pending = transition\<rparr>, v2))"
| "check_statement actor (SLet l) (ctx, v) =
     (let (ctx1, v1, ty) =
        (case let_val l of
           LetExpr e \<Rightarrow>
             (let (outcome, v1) =
                 (if expr_starts_with_ident e ''ok'' then
                    advance_outcome (ctx_outcome ctx) True (let_span l) v
                  else if expr_starts_with_ident e ''error'' then
                    advance_outcome (ctx_outcome ctx) False (let_span l) v
                  else (ctx_outcome ctx, v));
                  v2 = check_squiggles_in_expr e v1
              in (ctx\<lparr>ctx_outcome := outcome\<rparr>, v2,
                  expr_type_in_actor v2 actor e (ctx_ok_fields ctx) (ctx_error_types ctx) outcome))
         | LetParse source format \<Rightarrow>
             (ctx, check_squiggles_in_expr source v,
              if ident_name format = ''json'' then TyDynamic else TyUnknown))
      in (ctx1, update_healthy actor (\<lambda>h. h\<lparr>ha_vars := (ha_vars h)(ident_name (let_name l) \<mapsto> ty)\<rparr>) v1))"
| "check_statement actor (SAssignment a) (ctx, v) =
     (ctx, check_squiggles_in_expr (asg_value a) (check_squiggles_in_expr (asg_target a) v))"
| "check_statement actor (SAssert a) (ctx, v) =
     (let asserts_ok = expr_starts_with_ident (as_left a) ''ok'';
          asserts_error = expr_starts_with_ident (as_left a) ''error'';
          (outcome, v1) = (if asserts_ok \<or> asserts_error
                           then advance_outcome (ctx_outcome ctx) asserts_ok (as_span a) v
                           else (ctx_outcome ctx, v));
          v2 = check_squiggles_in_expr (as_left a) v1;
          v3 = (case as_right a of Some r \<Rightarrow> check_squiggles_in_expr r v2 | None \<Rightarrow> v2)
      in (ctx\<lparr>ctx_outcome := outcome\<rparr>, v3))"

definition check_as_block :: "as_block \<Rightarrow> validator \<Rightarrow> validator" where
  "check_as_block blk v =
     (let actor = ident_name (blk_actor blk)
      in case v_actors v actor of
           None \<Rightarrow> push_diag (diag_error (ident_span (blk_actor blk)) UnknownActor
                     (''unknown actor `'' @ actor @ ''`'')) v
         | Some st \<Rightarrow>
             if is_errored st then v
             else let (ctx, v') = fold (check_statement actor) (blk_body blk) (block_ctx_init, v)
                  in apply_pending actor ctx v')"

section \<open>The two passes\<close>

fun register_item :: "top_level \<Rightarrow> validator \<Rightarrow> validator" where
  "register_item (TActorDeclaration decl) v = register_actor decl v"
| "register_item (TAsBlock blk) v = v"

fun check_item :: "top_level \<Rightarrow> validator \<Rightarrow> validator" where
  "check_item (TActorDeclaration decl) v = v"
| "check_item (TAsBlock blk) v = check_as_block blk v"

definition validator_run :: "source_file \<Rightarrow> validator \<Rightarrow> validator" where
  "validator_run source v = fold check_item (src_items source) (fold register_item (src_items source) v)"

definition validator_init :: validator where
  "validator_init = \<lparr>v_registry = registry_global, v_actors = Map.empty, v_diagnostics = []\<rparr>"

definition validate :: "source_file \<Rightarrow> diagnostic list" where
  "validate source = v_diagnostics (validator_run source validator_init)"

end
