(* ===== verification/Ill_Assert.thy ===== *)
theory Ill_Assert
  imports Ill_Eval
begin

text \<open>
  The assert evaluator, \<^verbatim>\<open>runtime/assert.rs\<close>. The \<^verbatim>\<open>regex\<close> crate is the parameter \<open>regex_new\<close>: a
  pattern compiles to an error message or to the predicate \<open>is_match\<close>.
\<close>

type_synonym regex_engine = "string \<Rightarrow> string + (string \<Rightarrow> bool)"

record assert_result =
  ar_passed :: bool
  ar_left :: val
  ar_right :: "val option"
  ar_op :: "comparison_op option"

datatype ordering = Less | Equal | Greater

fun is_truthy :: "val \<Rightarrow> bool" where
  "is_truthy (VBool b) = b"
| "is_truthy (VNumber n) = (n \<noteq> 0)"
| "is_truthy (VFloat x) = (\<not> f64_eq x 0)"
| "is_truthy (VString s) = (s \<noteq> [])"
| "is_truthy (VArray vs) = (vs \<noteq> [])"
| "is_truthy (VDict d) = (d \<noteq> [])"
| "is_truthy (VBytes b) = (b \<noteq> [])"
| "is_truthy (VAtom a) = True"
| "is_truthy VNull = False"

definition cmp :: "'a::linorder \<Rightarrow> 'a \<Rightarrow> ordering" where
  "cmp x y = (if x < y then Less else if x = y then Equal else Greater)"

fun compare_ord :: "val \<Rightarrow> val \<Rightarrow> runtime_error + ordering" where
  "compare_ord (VNumber x) (VNumber y) = Inr (cmp x y)"
| "compare_ord (VString x) (VString y) = Inr (cmp x y)"
| "compare_ord a b =
     Inl (REval (''cannot order-compare '' @ type_name a @ '' and '' @ type_name b))"

fun contains :: "val \<Rightarrow> val \<Rightarrow> runtime_error + bool" where
  "contains (VString h) (VString n) = Inr (sublist n h)"
| "contains (VArray items) needle = Inr (list_ex (\<lambda>item. value_eq item needle) items)"
| "contains haystack needle =
     Inl (REval (''cannot test whether '' @ type_name haystack @ '' contains '' @ type_name needle))"

fun matches_regex :: "regex_engine \<Rightarrow> val \<Rightarrow> val \<Rightarrow> runtime_error + bool" where
  "matches_regex regex_new (VString s) (VString p) =
     (case regex_new p of
        Inl e \<Rightarrow> Inl (REval (''invalid regex `'' @ p @ ''`: '' @ e))
      | Inr is_match \<Rightarrow> Inr (is_match s))"
| "matches_regex regex_new subject pattern =
     Inl (REval (''`matches` requires string left and string regex right, got ''
       @ type_name subject @ '' and '' @ type_name pattern))"

fun compare :: "regex_engine \<Rightarrow> val \<Rightarrow> val \<Rightarrow> comparison_op \<Rightarrow> runtime_error + bool" where
  "compare rx l r OpEq = Inr (value_eq l r)"
| "compare rx l r OpNotEq = Inr (\<not> value_eq l r)"
| "compare rx l r OpGt = map_sum id (\<lambda>c. c = Greater) (compare_ord l r)"
| "compare rx l r OpGte = map_sum id (\<lambda>c. c \<noteq> Less) (compare_ord l r)"
| "compare rx l r OpLt = map_sum id (\<lambda>c. c = Less) (compare_ord l r)"
| "compare rx l r OpLte = map_sum id (\<lambda>c. c \<noteq> Greater) (compare_ord l r)"
| "compare rx l r OpContains = contains l r"
| "compare rx l r OpNotContains = map_sum id Not (contains l r)"
| "compare rx l r OpMatches = matches_regex rx l r"
| "compare rx l r OpNotMatches = map_sum id Not (matches_regex rx l r)"

definition eval_assert :: "regex_engine \<Rightarrow> assert_stmt \<Rightarrow> scope \<Rightarrow> runtime_error + assert_result" where
  "eval_assert rx a s =
     (case eval (as_left a) s of
        Inl e \<Rightarrow> Inl e
      | Inr left \<Rightarrow>
          (case as_op a of
             None \<Rightarrow> Inr \<lparr>ar_passed = is_truthy left, ar_left = left, ar_right = None, ar_op = None\<rparr>
           | Some op \<Rightarrow>
               (case as_right a of
                  None \<Rightarrow> Inl (REval ''assert has comparison operator but no right-hand side'')
                | Some r \<Rightarrow>
                    (case eval r s of
                       Inl e \<Rightarrow> Inl e
                     | Inr right \<Rightarrow>
                         (case compare rx left right op of
                            Inl e \<Rightarrow> Inl e
                          | Inr passed \<Rightarrow>
                              Inr \<lparr>ar_passed = passed, ar_left = left, ar_right = Some right,
                                   ar_op = Some op\<rparr>)))))"

section \<open>Properties\<close>

text \<open>The operator a user writes to deny another one.\<close>

fun negate_op :: "comparison_op \<Rightarrow> comparison_op" where
  "negate_op OpEq = OpNotEq"
| "negate_op OpNotEq = OpEq"
| "negate_op OpGt = OpLte"
| "negate_op OpLte = OpGt"
| "negate_op OpGte = OpLt"
| "negate_op OpLt = OpGte"
| "negate_op OpContains = OpNotContains"
| "negate_op OpNotContains = OpContains"
| "negate_op OpMatches = OpNotMatches"
| "negate_op OpNotMatches = OpMatches"

lemma map_sum_id_comp: "map_sum id f (map_sum id g x) = map_sum id (\<lambda>y. f (g y)) x"
  by (cases x) simp_all

lemma cmp_swap: "cmp y x = Less \<longleftrightarrow> cmp x y = Greater"
  by (auto simp: cmp_def)

lemma compare_ord_total:
  "(\<exists>c. compare_ord a b = Inr c) \<longleftrightarrow>
     is_of_type a TyNumber \<and> is_of_type b TyNumber \<or> is_of_type a TyString \<and> is_of_type b TyString"
  by (cases a; cases b) (auto simp: is_of_type_iff)

lemma eval_assert_Inr_iff:
  "eval_assert rx a s = Inr res \<longleftrightarrow>
     eval (as_left a) s = Inr (ar_left res) \<and> ar_op res = as_op a \<and>
     (case as_op a of
        None \<Rightarrow> ar_right res = None \<and> ar_passed res = is_truthy (ar_left res)
      | Some op \<Rightarrow> (\<exists>r right. as_right a = Some r \<and> eval r s = Inr right \<and> ar_right res = Some right \<and>
          compare rx (ar_left res) right op = Inr (ar_passed res)))"
  by (cases res) (auto simp: eval_assert_def split: sum.splits option.splits)

end
