(* ===== verification/Ill_Harness.thy ===== *)
theory Ill_Harness
  imports Ill_Validate Ill_Assert
begin

text \<open>
  The test harness, \<^verbatim>\<open>runtime/harness.rs\<close>. A \<open>Box<dyn ActorInstance>\<close> is a value of the type
  \<open>'i\<close>, and its method table, with \<open>ActorType::construct\<close>, is the record \<open>instance_ops\<close>; whatever
  the methods change outside the instance is the world \<open>'w\<close>, threaded through every call. The
  harness awaits one call at a time, so sequencing is function composition.
\<close>

section \<open>The actor interface\<close>

text \<open>How a spawned teardown task ends: its value, or the two cases of a \<open>JoinError\<close>.\<close>

datatype join_result = Joined teardown_outcome | Panicked | Cancelled

record ('i, 'w) instance_ops =
  op_construct :: "string \<Rightarrow> construct_args \<Rightarrow> 'w \<Rightarrow> (runtime_error + 'i) \<times> 'w"
  op_type_name :: "'i \<Rightarrow> string"
  op_execute :: "'i \<Rightarrow> string \<Rightarrow> command_args \<Rightarrow> 'w \<Rightarrow> run_outcome \<times> 'i \<times> 'w"
  op_teardown :: "'i \<Rightarrow> 'w \<Rightarrow> join_result \<times> 'w"
  op_self_view :: "'i \<Rightarrow> dict option"

section \<open>Live instances\<close>

type_synonym 'i actors = "(string \<times> 'i) list"

definition actors_push :: "string \<Rightarrow> 'i \<Rightarrow> 'i actors \<Rightarrow> 'i actors" where
  "actors_push name inst actors = actors @ [(name, inst)]"

definition actors_get :: "'i actors \<Rightarrow> string \<Rightarrow> 'i option" where
  "actors_get actors name = map_option snd (find (\<lambda>(n, _). n = name) actors)"

text \<open>Writing back the instance that \<open>get_mut\<close> lent out.\<close>

fun actors_put :: "string \<Rightarrow> 'i \<Rightarrow> 'i actors \<Rightarrow> 'i actors" where
  "actors_put name inst [] = []"
| "actors_put name inst ((n, i) # rest) =
     (if n = name then (n, inst) # rest else (n, i) # actors_put name inst rest)"

definition teardown_one ::
  "('i, 'w) instance_ops \<Rightarrow> string \<times> 'i \<Rightarrow> 'w \<Rightarrow> teardown_report \<times> 'w" where
  "teardown_one ops entry w =
     (let (joined, w') = op_teardown ops (snd entry) w
      in (\<lparr>tdr_actor = fst entry,
           tdr_outcome = (case joined of
                            Joined outcome \<Rightarrow> outcome
                          | Panicked \<Rightarrow> teardown_failed ''teardown panicked''
                          | Cancelled \<Rightarrow> teardown_failed ''teardown cancelled'')\<rparr>, w'))"

text \<open>The loop pops from the end of \<open>entries\<close>.\<close>

function teardown_loop ::
  "('i, 'w) instance_ops \<Rightarrow> 'i actors \<Rightarrow> teardown_report list \<Rightarrow> 'w \<Rightarrow> teardown_report list \<times> 'w" where
  "teardown_loop ops actors reports w =
     (if actors = [] then (reports, w)
      else let (report, w') = teardown_one ops (last actors) w
           in teardown_loop ops (butlast actors) (reports @ [report]) w')"
  by pat_completeness auto
termination
  by (relation "measure (\<lambda>(ops, actors, reports, w). length actors)") auto

declare teardown_loop.simps [simp del]

definition teardown_all :: "('i, 'w) instance_ops \<Rightarrow> 'i actors \<Rightarrow> 'w \<Rightarrow> teardown_report list \<times> 'w" where
  "teardown_all ops actors w =
     (let (reports, w') = teardown_loop ops actors [] w in (rev reports, w'))"

section \<open>Arguments\<close>

definition eval_map_key :: "expr \<Rightarrow> scope \<Rightarrow> runtime_error + string" where
  "eval_map_key k s =
     (case k of
        EIdent i \<Rightarrow> Inr (ident_name i)
      | other \<Rightarrow>
          (case eval other s of
             Inl e \<Rightarrow> Inl e
           | Inr (VString t) \<Rightarrow> Inr t
           | Inr (VAtom a) \<Rightarrow> Inr a
           | Inr v \<Rightarrow> Inl (REval (''map key must be identifier, string, or atom, got '' @ type_name v))))"

fun eval_keyword_value :: "keyword_value \<Rightarrow> scope \<Rightarrow> runtime_error + val" where
  "eval_keyword_value (KwExpr e) s = eval e s"
| "eval_keyword_value (KwMap pairs) s =
     map_sum id VDict (try_fold (\<lambda>(k, v) rec.
       case eval_map_key k s of
         Inl e \<Rightarrow> Inl e
       | Inr key \<Rightarrow> (case eval v s of Inl e \<Rightarrow> Inl e | Inr x \<Rightarrow> Inr (index_insert key x rec))) pairs [])"

definition eval_keyword_args :: "keyword_arg list \<Rightarrow> scope \<Rightarrow> runtime_error + dict" where
  "eval_keyword_args args s =
     try_fold (\<lambda>kw out.
       case eval_keyword_value (kw_value kw) s of
         Inl e \<Rightarrow> Inl e
       | Inr v \<Rightarrow> Inr (index_insert (ident_name (kw_key kw)) v out)) args []"

definition eval_command_args :: "command \<Rightarrow> nat \<Rightarrow> scope \<Rightarrow> runtime_error + command_args" where
  "eval_command_args cmd consumed s =
     (case try_map (\<lambda>e. eval e s) (drop consumed (cmd_positional_args cmd)) of
        Inl e \<Rightarrow> Inl e
      | Inr positional \<Rightarrow>
          (case eval_keyword_args (cmd_keyword_args cmd) s of
             Inl e \<Rightarrow> Inl e
           | Inr keyword \<Rightarrow> Inr \<lparr>args_positional = positional, args_keyword = keyword\<rparr>))"

section \<open>Construction\<close>

definition construct_actor ::
  "('i, 'w) instance_ops \<Rightarrow> actor_declaration \<Rightarrow> path_buf \<Rightarrow> 'w \<Rightarrow> (string + 'i) \<times> 'w" where
  "construct_actor ops decl source_dir w =
     (case registry_get registry_global (ident_name (decl_actor_type decl)) of
        None \<Rightarrow> (Inl (''unknown actor type `'' @ ident_name (decl_actor_type decl) @ ''`''), w)
      | Some actor_type \<Rightarrow>
          (case eval_keyword_args (decl_keyword_args decl) scope_new of
             Inl e \<Rightarrow> (Inl (runtime_error_display e), w)
           | Inr keyword \<Rightarrow>
               (case try_map (\<lambda>var.
                       case var_default var of
                         Some e \<Rightarrow> map_sum id (\<lambda>v. \<lparr>dv_name = ident_name (var_name var), dv_default = Some v\<rparr>)
                                    (eval e scope_new)
                       | None \<Rightarrow> Inr \<lparr>dv_name = ident_name (var_name var), dv_default = None\<rparr>)
                     (decl_vars decl) of
                  Inl e \<Rightarrow> (Inl (runtime_error_display e), w)
                | Inr vars \<Rightarrow>
                    (let (r, w') = op_construct ops (at_name actor_type)
                           \<lparr>ca_keyword = keyword, ca_source_dir = source_dir, ca_vars = vars\<rparr> w
                     in (map_sum runtime_error_display id r, w')))))"

section \<open>Statements\<close>

definition bind_self :: "('i, 'w) instance_ops \<Rightarrow> 'i actors \<Rightarrow> string \<Rightarrow> scope \<Rightarrow> scope" where
  "bind_self ops actors actor_name scope =
     (let scope1 = fold (\<lambda>(name, inst) s.
            case op_self_view ops inst of
              Some d \<Rightarrow> scope_bind name (VDict d) s
            | None \<Rightarrow> scope_unbind name s) actors scope
      in case Option.bind (actors_get actors actor_name) (op_self_view ops) of
           Some d \<Rightarrow> scope_bind ''self'' (VDict d) scope1
         | None \<Rightarrow> scope_unbind ''self'' scope1)"

definition build_error_dict :: "string \<Rightarrow> dict \<Rightarrow> dict" where
  "build_error_dict variant err =
     index_insert variant (VDict err) (index_insert ''type'' (VAtom variant) [])"

fun error_ref_scan :: "statement list \<Rightarrow> bool" where
  "error_ref_scan [] = False"
| "error_ref_scan (SCommand c # rest) = False"
| "error_ref_scan (SAssert a # rest) =
     (if expr_starts_with_ident (as_left a) ''error'' then True else error_ref_scan rest)"
| "error_ref_scan (SLet l # rest) =
     (case let_val l of
        LetExpr e \<Rightarrow> if expr_starts_with_ident e ''error'' then True else error_ref_scan rest
      | LetParse _ _ \<Rightarrow> error_ref_scan rest)"
| "error_ref_scan (SAssignment a # rest) = error_ref_scan rest"

definition block_has_error_ref_after :: "as_block \<Rightarrow> nat \<Rightarrow> bool" where
  "block_has_error_ref_after blk after = error_ref_scan (drop (after + 1) (blk_body blk))"

definition run_let :: "let_stmt \<Rightarrow> scope \<Rightarrow> runtime_error + scope" where
  "run_let l scope =
     (case let_val l of
        LetExpr e \<Rightarrow>
          (case eval e scope of
             Inl err \<Rightarrow> Inl err
           | Inr v \<Rightarrow> Inr (scope_bind (ident_name (let_name l)) v scope))
      | LetParse _ _ \<Rightarrow> Inl (REval ''`let ... parse as ...` is not yet supported in runtime''))"

text \<open>The \<open>Statement::Command\<close> arm, after \<open>bind_self\<close>.\<close>

definition run_command ::
  "('i, 'w) instance_ops \<Rightarrow> actor_type \<Rightarrow> as_block \<Rightarrow> nat \<Rightarrow> command \<Rightarrow> scope \<Rightarrow> 'i actors \<Rightarrow> 'w
     \<Rightarrow> (statement_report + scope) \<times> 'i actors \<times> 'w" where
  "run_command ops actor_type blk idx cmd scope0 actors w =
     (let actor_name = ident_name (blk_actor blk);
          scope = scope_unbind ''error'' (scope_unbind ''ok'' scope0)
      in case resolve_command actor_type (ident_name (cmd_name cmd)) (cmd_positional_args cmd) of
           None \<Rightarrow>
             (Inl (EvalError actor_name (cmd_span cmd)
                (unknown_command_message (at_name actor_type) (ident_name (cmd_name cmd))
                   (cmd_positional_args cmd))), actors, w)
         | Some (cmd_def, consumed) \<Rightarrow>
             (case eval_command_args cmd consumed scope of
                Inl e \<Rightarrow> (Inl (EvalError actor_name (cmd_span cmd) (runtime_error_display e)), actors, w)
              | Inr args \<Rightarrow>
                  (case actors_get actors actor_name of
                     None \<Rightarrow>
                       (Inl (EvalError actor_name (cmd_span cmd)
                          (''actor `'' @ actor_name @ ''` has no live instance'')), actors, w)
                   | Some inst \<Rightarrow>
                       (let (outcome, inst', w') = op_execute ops inst (cd_name cmd_def) args w;
                            actors' = actors_put actor_name inst' actors
                        in case outcome of
                             RunOk d \<Rightarrow> (Inr (scope_bind ''ok'' (VDict d) scope), actors', w')
                           | RunError variant d \<Rightarrow>
                               (let error_dict = build_error_dict variant d
                                in if \<not> block_has_error_ref_after blk idx then
                                     (Inl (CommandFailure actor_name (ident_name (cmd_name cmd))
                                        (cmd_span cmd) error_dict
                                        (Option.bind (cmd_annotation cmd) ann_value)), actors', w')
                                   else
                                     (Inr (scope_bind ''error'' (VDict error_dict) scope), actors', w'))
                           | RunNotImplemented actor c \<Rightarrow>
                               (Inl (CommandNotImplemented actor c (cmd_span cmd)), actors', w')))))"

definition run_assert :: "regex_engine \<Rightarrow> string \<Rightarrow> assert_stmt \<Rightarrow> scope \<Rightarrow> statement_report + scope" where
  "run_assert rx actor_name a scope =
     (case eval_assert rx a scope of
        Inl e \<Rightarrow> Inl (EvalError actor_name (as_span a) (runtime_error_display e))
      | Inr result \<Rightarrow>
          if \<not> ar_passed result then
            Inl (AssertFailure actor_name (as_span a) (ar_left result) (ar_right result) (ar_op result)
                   (Option.bind (as_annotation a) ann_value))
          else Inr scope)"

text \<open>One iteration of the loop of \<open>run_as_block\<close>.\<close>

definition run_statement ::
  "('i, 'w) instance_ops \<Rightarrow> regex_engine \<Rightarrow> actor_type \<Rightarrow> as_block \<Rightarrow> nat \<Rightarrow> statement
     \<Rightarrow> scope \<Rightarrow> 'i actors \<Rightarrow> 'w \<Rightarrow> (statement_report + scope) \<times> 'i actors \<times> 'w" where
  "run_statement ops rx actor_type blk idx stmt scope0 actors w =
     (let actor_name = ident_name (blk_actor blk);
          scope = bind_self ops actors actor_name scope0
      in case stmt of
           SCommand cmd \<Rightarrow> run_command ops actor_type blk idx cmd scope actors w
         | SLet l \<Rightarrow>
             (map_sum (\<lambda>e. EvalError actor_name (let_span l) (runtime_error_display e)) id
                (run_let l scope), actors, w)
         | SAssignment _ \<Rightarrow>
             (Inl (EvalError actor_name (blk_span blk)
                ''assignment statements are not yet supported in runtime''), actors, w)
         | SAssert a \<Rightarrow> (run_assert rx actor_name a scope, actors, w))"

fun run_statements ::
  "('i, 'w) instance_ops \<Rightarrow> regex_engine \<Rightarrow> actor_type \<Rightarrow> as_block \<Rightarrow> nat \<Rightarrow> statement list
     \<Rightarrow> scope \<Rightarrow> 'i actors \<Rightarrow> 'w \<Rightarrow> (statement_report + unit) \<times> 'i actors \<times> 'w" where
  "run_statements ops rx ty blk idx [] scope actors w = (Inr (), actors, w)"
| "run_statements ops rx ty blk idx (stmt # rest) scope actors w =
     (case run_statement ops rx ty blk idx stmt scope actors w of
        (Inl failure, actors', w') \<Rightarrow> (Inl failure, actors', w')
      | (Inr scope', actors', w') \<Rightarrow> run_statements ops rx ty blk (idx + 1) rest scope' actors' w')"

definition run_as_block ::
  "('i, 'w) instance_ops \<Rightarrow> regex_engine \<Rightarrow> as_block \<Rightarrow> 'i actors \<Rightarrow> 'w
     \<Rightarrow> (statement_report + unit) \<times> 'i actors \<times> 'w" where
  "run_as_block ops rx blk actors w =
     (let actor_name = ident_name (blk_actor blk)
      in case actors_get actors actor_name of
           None \<Rightarrow>
             (Inl (EvalError actor_name (blk_span blk)
                (''actor `'' @ actor_name @ ''` has no live instance'')), actors, w)
         | Some inst \<Rightarrow>
             (case registry_get registry_global (op_type_name ops inst) of
                None \<Rightarrow>
                  (Inl (EvalError actor_name (blk_span blk)
                     (''unknown actor type `'' @ op_type_name ops inst @ ''` in registry'')), actors, w)
              | Some actor_type \<Rightarrow>
                  run_statements ops rx actor_type blk 0 (blk_body blk) scope_new actors w))"

section \<open>Test files\<close>

fun run_items ::
  "('i, 'w) instance_ops \<Rightarrow> regex_engine \<Rightarrow> path_buf \<Rightarrow> top_level list \<Rightarrow> 'i actors \<Rightarrow> 'w
     \<Rightarrow> statement_report list \<times> 'i actors \<times> 'w" where
  "run_items ops rx source_dir [] actors w = ([], actors, w)"
| "run_items ops rx source_dir (TActorDeclaration decl # items) actors w =
     (case construct_actor ops decl source_dir w of
        (Inr inst, w') \<Rightarrow>
          run_items ops rx source_dir items (actors_push (ident_name (decl_name decl)) inst actors) w'
      | (Inl msg, w') \<Rightarrow> ([ConstructFailure (ident_name (decl_name decl)) msg (decl_span decl)], actors, w'))"
| "run_items ops rx source_dir (TAsBlock blk # items) actors w =
     (case run_as_block ops rx blk actors w of
        (Inr _, actors', w') \<Rightarrow> run_items ops rx source_dir items actors' w'
      | (Inl failure, actors', w') \<Rightarrow> ([failure], actors', w'))"

definition execute ::
  "('i, 'w) instance_ops \<Rightarrow> regex_engine \<Rightarrow> path_buf \<Rightarrow> source_file \<Rightarrow> path_buf \<Rightarrow> 'w
     \<Rightarrow> test_report \<times> 'w" where
  "execute ops rx path source source_dir w =
     (let (statements, actors, w1) = run_items ops rx source_dir (src_items source) [] w;
          (teardown, w2) = teardown_all ops actors w1
      in (\<lparr>tr_path = path, tr_passed = (statements = []), tr_statements = statements,
           tr_teardown = teardown\<rparr>, w2))"

definition run_validated_test_file ::
  "('i, 'w) instance_ops \<Rightarrow> regex_engine \<Rightarrow> path_buf \<Rightarrow> source_file \<Rightarrow> 'w \<Rightarrow> test_report \<times> 'w" where
  "run_validated_test_file ops rx path source w =
     (let source_dir = (case path_parent path of
                          Some p \<Rightarrow> if p \<noteq> [] then p else ''.''
                        | None \<Rightarrow> ''.'')
      in execute ops rx path source source_dir w)"

text \<open>
  \<open>lower\<close>, the parser and lowering of \<^verbatim>\<open>lower.rs\<close>, is an argument: \<open>Ill_Lower.lower\<close> of a parser on which it
  does not panic.
\<close>

definition run_test_file ::
  "('i, 'w) instance_ops \<Rightarrow> regex_engine \<Rightarrow> (string \<Rightarrow> diagnostic list + source_file)
     \<Rightarrow> path_buf \<Rightarrow> string \<Rightarrow> 'w \<Rightarrow> test_report \<times> 'w" where
  "run_test_file ops rx lower path src w =
     (case lower src of
        Inl errors \<Rightarrow>
          (\<lparr>tr_path = path, tr_passed = False, tr_statements = [ParseFailure errors],
            tr_teardown = []\<rparr>, w)
      | Inr ast \<Rightarrow>
          (let errors = filter (\<lambda>d. diag_severity d = SevError) (validate ast)
           in if errors \<noteq> [] then
                (\<lparr>tr_path = path, tr_passed = False, tr_statements = [ValidationFailure errors],
                  tr_teardown = []\<rparr>, w)
              else run_validated_test_file ops rx path ast w))"

end
