(* ===== verification/Ill_Validate_Facts.thy ===== *)
theory Ill_Validate_Facts
  imports Ill_Validate
begin

text \<open>
  The contracts of the validator's operations. A \<open>checker\<close> inspects one piece of syntax: it leaves
  the symbol table alone and adds no diagnostic exactly when a predicate on the syntax holds. A
  \<open>diag_step\<close> only ever appends error diagnostics. Both are locales interpreted on the operations
  of \<^verbatim>\<open>validate.rs\<close>; the loops of the source are covered once, inside them.
\<close>

section \<open>Diagnostics only accumulate\<close>

definition grows :: "diagnostic_code set \<Rightarrow> validator \<Rightarrow> validator \<Rightarrow> bool" where
  "grows codes v v' \<longleftrightarrow>
     v_registry v' = v_registry v \<and>
     (\<exists>ds. v_diagnostics v' = v_diagnostics v @ ds \<and>
        list_all (\<lambda>d. diag_severity d = SevError \<and> diag_code d \<in> codes) ds)"

lemma grows_refl [simp]: "grows C v v"
  by (simp add: grows_def)

lemma grows_trans: "grows C u v \<Longrightarrow> grows C v w \<Longrightarrow> grows C u w"
  by (fastforce simp: grows_def)

lemma grows_mono: "grows C v w \<Longrightarrow> C \<subseteq> D \<Longrightarrow> grows D v w"
  by (fastforce simp: grows_def list_all_iff)

lemma grows_chain: "grows C u v \<Longrightarrow> grows D v w \<Longrightarrow> C \<subseteq> E \<Longrightarrow> D \<subseteq> E \<Longrightarrow> grows E u w"
  by (blast intro: grows_trans grows_mono)

lemma grows_update [simp]:
  "grows C v (w\<lparr>v_actors := f\<rparr>) \<longleftrightarrow> grows C v w"
  by (simp add: grows_def)

text \<open>A step that only appends errors with the codes \<open>codes\<close>; so does a loop of such steps.\<close>

locale diag_step =
  fixes step :: "'a \<Rightarrow> validator \<Rightarrow> validator" and codes :: "diagnostic_code set"
  assumes grows: "grows codes v (step x v)"
begin

lemma fold_grows: "grows codes v (fold step xs v)"
proof (induction xs arbitrary: v)
  case (Cons x xs)
  show ?case using grows_trans [OF grows Cons.IH] by simp
qed simp

end

section \<open>Checkers\<close>

locale checker = diag_step +
  fixes ok :: "'a \<Rightarrow> bool"
  assumes actors: "v_actors (step x v) = v_actors v"
    and clean: "v_diagnostics (step x v) = [] \<longleftrightarrow> v_diagnostics v = [] \<and> ok x"
begin

lemma registry: "v_registry (step x v) = v_registry v"
  using grows by (simp add: grows_def)

lemma fold_actors: "v_actors (fold step xs v) = v_actors v"
  by (induction xs arbitrary: v) (simp_all add: actors)

lemma fold_registry: "v_registry (fold step xs v) = v_registry v"
  using fold_grows by (simp add: grows_def)

lemma fold_clean:
  "v_diagnostics (fold step xs v) = [] \<longleftrightarrow> v_diagnostics v = [] \<and> list_all ok xs"
  by (induction xs arbitrary: v) (auto simp: clean)

lemma fold_checker: "checker (fold step) codes (list_all ok)"
  by unfold_locales (simp_all add: fold_actors fold_grows fold_clean)

lemmas laws = actors registry clean fold_actors fold_registry fold_clean

end

lemma is_errored_iff [simp]: "is_errored st \<longleftrightarrow> as_healthy st = None"
  by (cases st) simp_all

lemma push_diag_sel [simp]:
  "v_actors (push_diag d v) = v_actors v"
  "v_registry (push_diag d v) = v_registry v"
  "v_diagnostics (push_diag d v) = v_diagnostics v @ [d]"
  by (simp_all add: push_diag_def)

lemma unknown_squiggle_diag_eq:
  "unknown_squiggle_diag e [] = [] \<longleftrightarrow> known_squiggle e"
  "unknown_squiggle_diag e ds = ds @ unknown_squiggle_diag e []"
  by (auto simp: unknown_squiggle_diag_def known_squiggle_def split: expr.splits squiggle.splits)

lemma fold_unknown_squiggle:
  "fold unknown_squiggle_diag es ds = ds @ concat (map (\<lambda>e. unknown_squiggle_diag e []) es)"
proof (induction es arbitrary: ds)
  case (Cons e es)
  then show ?case using unknown_squiggle_diag_eq(2) [of e ds] by simp
qed simp

lemma push_diag_grows: "diag_severity d = SevError \<Longrightarrow> diag_code d \<in> C \<Longrightarrow> grows C v (push_diag d v)"
  by (simp add: grows_def)

lemma unknown_squiggle_errors: 
  "list_all (\<lambda>d. diag_severity d = SevError \<and> diag_code d = UnknownSquiggle) (unknown_squiggle_diag e [])"
  by (auto simp: unknown_squiggle_diag_def split: expr.splits squiggle.splits)

definition squiggles_known :: "expr \<Rightarrow> bool" where
  "squiggles_known e = list_all known_squiggle (subexprs e)"

fun kwvalue_known :: "keyword_value \<Rightarrow> bool" where
  "kwvalue_known (KwExpr e) = squiggles_known e"
| "kwvalue_known (KwMap pairs) = list_all (\<lambda>(k, x). squiggles_known k \<and> squiggles_known x) pairs"

definition kwargs_known :: "keyword_arg list \<Rightarrow> bool" where
  "kwargs_known kws = list_all (\<lambda>kw. kwvalue_known (kw_value kw)) kws"

interpretation sq_expr: checker check_squiggles_in_expr "{UnknownSquiggle}" squiggles_known
proof
  show "v_diagnostics (check_squiggles_in_expr e v) = [] \<longleftrightarrow>
      v_diagnostics v = [] \<and> squiggles_known e" for e v
    by (auto simp: check_squiggles_in_expr_def for_each_expr_fold fold_unknown_squiggle
        squiggles_known_def list_all_iff unknown_squiggle_diag_eq(1))
  show "grows {UnknownSquiggle} v (check_squiggles_in_expr e v)" for e v
    using unknown_squiggle_errors
    by (auto simp: grows_def check_squiggles_in_expr_def for_each_expr_fold fold_unknown_squiggle
        list_all_iff)
qed (simp add: check_squiggles_in_expr_def)

interpretation sq_pair: checker
  "\<lambda>(k, x) v. check_squiggles_in_expr x (check_squiggles_in_expr k v)" "{UnknownSquiggle}"
  "\<lambda>(k, x). squiggles_known k \<and> squiggles_known x"
proof
  show "grows {UnknownSquiggle} v ((\<lambda>(k, x) v. check_squiggles_in_expr x (check_squiggles_in_expr k v)) kx v)" for kx v
    using grows_trans [OF sq_expr.grows sq_expr.grows] by (cases kx) simp
qed (auto simp: sq_expr.laws)

interpretation sq_kwvalue: checker check_squiggles_in_kwvalue "{UnknownSquiggle}" kwvalue_known
proof
  fix kv v
  show "v_actors (check_squiggles_in_kwvalue kv v) = v_actors v"
    "v_diagnostics (check_squiggles_in_kwvalue kv v) = [] \<longleftrightarrow>
       v_diagnostics v = [] \<and> kwvalue_known kv"
    by (cases kv; simp add: sq_expr.laws sq_pair.laws)+
  show "grows {UnknownSquiggle} v (check_squiggles_in_kwvalue kv v)"
    by (cases kv) (simp_all add: sq_expr.grows sq_pair.fold_grows)
qed

interpretation sq_kwarg: checker
  "\<lambda>kw. check_squiggles_in_kwvalue (kw_value kw)" "{UnknownSquiggle}" "\<lambda>kw. kwvalue_known (kw_value kw)"
  by unfold_locales (simp_all add: sq_kwvalue.laws sq_kwvalue.grows)

lemma guard_checker:
  "checker (\<lambda>x v. if P x then push_diag (diag_error (sp x) c (m x)) v else v) {c} (\<lambda>x. \<not> P x)"
  by unfold_locales (auto simp: push_diag_grows split: if_splits)

lemmas guard_laws =
  checker.fold_actors [OF guard_checker] checker.fold_clean [OF guard_checker]
lemmas guard_grows = diag_step.fold_grows [OF checker.axioms(1) [OF guard_checker]]

text \<open>What \<open>check_keyword_args_against\<close> accepts: only declared keywords, all the required ones.\<close>

definition kwargs_match :: "keyword_arg list \<Rightarrow> keyword_arg_def list \<Rightarrow> bool" where
  "kwargs_match provided expected \<longleftrightarrow>
     (\<forall>kw \<in> set provided. \<exists>d \<in> set expected. kwd_name d = ident_name (kw_key kw)) \<and>
     (\<forall>d \<in> set expected. kwd_required d \<longrightarrow>
        (\<exists>kw \<in> set provided. ident_name (kw_key kw) = kwd_name d))"

lemma kwargs_match_iff:
  "kwargs_match provided expected \<longleftrightarrow>
     list_all (\<lambda>kw. list_ex (\<lambda>d. kwd_name d = ident_name (kw_key kw)) expected) provided \<and>
     list_all (\<lambda>d. \<not> (kwd_required d \<and> \<not> list_ex (\<lambda>kw. ident_name (kw_key kw) = kwd_name d) provided))
       expected"
  by (simp add: kwargs_match_def list_all_iff list_ex_iff)

interpretation kwargs: checker
  "\<lambda>provided. check_keyword_args_against provided expected sp cmd" "{UnknownKeywordArg, MissingRequiredArg}"
  "\<lambda>provided. kwargs_match provided expected" for expected sp cmd
proof
  fix provided v
  show "v_actors (check_keyword_args_against provided expected sp cmd v) = v_actors v"
    by (simp add: check_keyword_args_against_def guard_laws)
  show "grows {UnknownKeywordArg, MissingRequiredArg} v
      (check_keyword_args_against provided expected sp cmd v)"
    unfolding check_keyword_args_against_def Let_def
    by (rule grows_chain [OF guard_grows guard_grows]) simp_all
  show "v_diagnostics (check_keyword_args_against provided expected sp cmd v) = [] \<longleftrightarrow>
      v_diagnostics v = [] \<and> kwargs_match provided expected"
    by (simp only: check_keyword_args_against_def guard_laws Let_def kwargs_match_iff
        not_not conj_assoc)
qed

lemmas checker_laws =
  sq_expr.laws sq_kwvalue.laws sq_kwarg.laws kwargs.actors kwargs.registry kwargs.clean

lemmas checker_grows =
  sq_expr.grows sq_expr.fold_grows sq_kwvalue.grows sq_kwarg.fold_grows kwargs.grows

section \<open>Types of expressions\<close>

lemma expr_type_sound:
  assumes "eval e s = Inr v"
  shows "is_of_type v (expr_type e)"
proof (cases e)
  case (EStringLit l)
  with assms show ?thesis by (cases l) (auto simp: map_sum_id_Inr)
next
  case (ESquiggle q)
  with assms show ?thesis
    by (cases q) (auto split: option.splits sum.splits dest: squiggle_value_typed)
qed (use assms in auto)

end
