(* ===== verification/Ill_Accept.thy ===== *)
theory Ill_Accept
  imports Ill_Validate_Facts
begin

text \<open>
  What the validator accepts, stated without diagnostics or mutable state: an environment of actors
  and modes, a partial function per declaration, command and block. The refinement at the end says
  that \<open>validate\<close> reports nothing exactly when this specification is defined.
\<close>

section \<open>Specification\<close>

type_synonym env = "string \<rightharpoonup> actor_type \<times> mode"

definition decl_ok :: "actor_type \<Rightarrow> actor_declaration \<Rightarrow> bool" where
  "decl_ok ty decl \<longleftrightarrow>
     kwargs_match (decl_keyword_args decl) (at_constructor_keyword ty) \<and>
     list_all (\<lambda>kw. kwvalue_known (kw_value kw)) (decl_keyword_args decl) \<and>
     list_all (\<lambda>var. pred_option squiggles_known (var_default var)) (decl_vars decl)"

definition accept_decl :: "registry \<Rightarrow> actor_declaration \<Rightarrow> env \<Rightarrow> env option" where
  "accept_decl reg decl env =
     (case env (ident_name (decl_name decl)) of
        Some _ \<Rightarrow> None
      | None \<Rightarrow>
          (case registry_get reg (ident_name (decl_actor_type decl)) of
             None \<Rightarrow> None
           | Some ty \<Rightarrow>
               if decl_ok ty decl
               then Some (env(ident_name (decl_name decl) \<mapsto> (ty, at_initial_mode ty)))
               else None))"

text \<open>A command is accepted in a mode; the result is its pending transition.\<close>

definition accept_command :: "actor_type \<Rightarrow> mode \<Rightarrow> command \<Rightarrow> mode option option" where
  "accept_command ty m cmd =
     (case resolve_command ty (ident_name (cmd_name cmd)) (cmd_positional_args cmd) of
        None \<Rightarrow> None
      | Some (c, k) \<Rightarrow>
          if m \<in> set (cd_valid_in_modes c) \<and>
             length (cd_positional c) \<le> length (cmd_positional_args cmd) - k \<and>
             list_all squiggles_known (drop k (cmd_positional_args cmd)) \<and>
             kwargs_match (cmd_keyword_args cmd) (cd_keyword c) \<and>
             list_all (\<lambda>kw. kwvalue_known (kw_value kw)) (cmd_keyword_args cmd)
          then Some (cd_transitions_to c) else None)"

text \<open>
  Which outcome a statement after a command implies: \<open>True\<close> for a reference to \<open>ok\<close>, \<open>False\<close> for one
  to \<open>error\<close>. The statements up to the next command must not imply both.
\<close>

definition root_polarity :: "expr \<Rightarrow> bool option" where
  "root_polarity e =
     (if expr_starts_with_ident e ''ok'' then Some True
      else if expr_starts_with_ident e ''error'' then Some False else None)"

fun polarity :: "statement \<Rightarrow> bool option" where
  "polarity (SCommand c) = None"
| "polarity (SLet l) = (case let_val l of LetExpr e \<Rightarrow> root_polarity e | LetParse _ _ \<Rightarrow> None)"
| "polarity (SAssignment a) = None"
| "polarity (SAssert a) = root_polarity (as_left a)"

definition polarities :: "statement list \<Rightarrow> bool set" where
  "polarities ss = {p. Some p \<in> polarity ` set ss}"

definition consistent :: "bool set \<Rightarrow> bool" where
  "consistent ps \<longleftrightarrow> \<not> (True \<in> ps \<and> False \<in> ps)"

fun stmt_known :: "statement \<Rightarrow> bool" where
  "stmt_known (SCommand c) = True"
| "stmt_known (SLet l) =
     (case let_val l of LetExpr e \<Rightarrow> squiggles_known e | LetParse e _ \<Rightarrow> squiggles_known e)"
| "stmt_known (SAssignment a) = (squiggles_known (asg_target a) \<and> squiggles_known (asg_value a))"
| "stmt_known (SAssert a) = (squiggles_known (as_left a) \<and> pred_option squiggles_known (as_right a))"

definition window_ok :: "statement list \<Rightarrow> bool" where
  "window_ok w \<longleftrightarrow> list_all stmt_known w \<and> consistent (polarities w)"

text \<open>The mode after a command whose window implies \<open>ps\<close>: an expected error keeps the mode.\<close>

definition next_mode :: "mode \<Rightarrow> mode option \<Rightarrow> bool set \<Rightarrow> mode" where
  "next_mode m transition ps =
     (if False \<in> ps then m else case transition of None \<Rightarrow> m | Some m' \<Rightarrow> m')"

fun accept_commands :: "actor_type \<Rightarrow> mode \<Rightarrow> statement list \<Rightarrow> mode option" where
  "accept_commands ty m [] = Some m"
| "accept_commands ty m (SCommand cmd # body) =
     (case accept_command ty m cmd of
        None \<Rightarrow> None
      | Some transition \<Rightarrow>
          if window_ok (window body)
          then accept_commands ty (next_mode m transition (polarities (window body))) body
          else None)"
| "accept_commands ty m (_ # body) = accept_commands ty m body"

definition accept_block :: "as_block \<Rightarrow> env \<Rightarrow> env option" where
  "accept_block blk env =
     (case env (ident_name (blk_actor blk)) of
        None \<Rightarrow> None
      | Some (ty, m) \<Rightarrow>
          if window_ok (window (blk_body blk))
          then map_option (\<lambda>m'. env(ident_name (blk_actor blk) \<mapsto> (ty, m')))
                 (accept_commands ty m (blk_body blk))
          else None)"

fun accept_decl_item :: "registry \<Rightarrow> top_level \<Rightarrow> env \<Rightarrow> env option" where
  "accept_decl_item reg (TActorDeclaration decl) env = accept_decl reg decl env"
| "accept_decl_item reg (TAsBlock blk) env = Some env"

fun accept_block_item :: "top_level \<Rightarrow> env \<Rightarrow> env option" where
  "accept_block_item (TActorDeclaration decl) env = Some env"
| "accept_block_item (TAsBlock blk) env = accept_block blk env"

definition accept_source :: "registry \<Rightarrow> source_file \<Rightarrow> env option" where
  "accept_source reg source =
     (case option_fold (accept_decl_item reg) (src_items source) Map.empty of
        None \<Rightarrow> None
      | Some env \<Rightarrow> option_fold accept_block_item (src_items source) env)"

section \<open>Abstraction\<close>

definition abs_env :: "validator \<Rightarrow> string \<Rightarrow> (actor_type \<times> mode) option option" where
  "abs_env v n =
     map_option (\<lambda>st. map_option (\<lambda>h. (ha_type_def h, ha_mode h)) (as_healthy st)) (v_actors v n)"

definition agrees :: "validator \<Rightarrow> env \<Rightarrow> bool" where
  "agrees v env \<longleftrightarrow> (\<forall>n. abs_env v n = map_option Some (env n))"

abbreviation clean :: "validator \<Rightarrow> bool" where
  "clean v \<equiv> v_diagnostics v = []"

text \<open>
  A step of the validator refines a step of the specification: from related states, it stays clean
  and related exactly when the specification is defined; a state that has a diagnostic keeps one.
\<close>

locale refinement_step =
  fixes step :: "'a \<Rightarrow> validator \<Rightarrow> validator" and spec :: "registry \<Rightarrow> 'a \<Rightarrow> env \<Rightarrow> env option"
  assumes dirty: "\<not> clean v \<Longrightarrow> \<not> clean (step x v)"
    and registry: "v_registry (step x v) = v_registry v"
    and refines: "clean v \<Longrightarrow> agrees v env \<Longrightarrow>
      (case spec (v_registry v) x env of
         None \<Rightarrow> \<not> clean (step x v)
       | Some env' \<Rightarrow> clean (step x v) \<and> agrees (step x v) env')"
begin

lemma fold_registry: "v_registry (fold step xs v) = v_registry v"
  by (induction xs arbitrary: v) (simp_all add: registry)

lemma fold_dirty: "\<not> clean v \<Longrightarrow> \<not> clean (fold step xs v)"
  by (induction xs arbitrary: v) (simp_all add: dirty)

lemma fold_refines:
  "clean v \<Longrightarrow> agrees v env \<Longrightarrow>
   (case option_fold (spec (v_registry v)) xs env of
      None \<Rightarrow> \<not> clean (fold step xs v)
    | Some env' \<Rightarrow> clean (fold step xs v) \<and> agrees (fold step xs v) env')"
proof (induction xs arbitrary: v env)
  case (Cons x xs)
  show ?case
  proof (cases "spec (v_registry v) x env")
    case None
    with Cons.prems refines [of v env x] show ?thesis by (simp add: fold_dirty)
  next
    case (Some env')
    with Cons.prems refines [of v env x] have "clean (step x v)" "agrees (step x v) env'" by simp_all
    with Cons.IH [of "step x v" env'] Some show ?thesis by (simp add: registry split: option.splits)
  qed
qed simp

end

section \<open>Frame laws of the validator's operations\<close>

lemma abs_env_cong: "v_actors v = v_actors w \<Longrightarrow> abs_env v = abs_env w"
  by (rule ext) (simp add: abs_env_def)

lemma healthy_cong: "v_actors v = v_actors w \<Longrightarrow> healthy v = healthy w"
  by (rule ext) (simp add: healthy_def)

lemma healthy_abs:
  "healthy v n = Some h \<Longrightarrow> abs_env v n = Some (Some (ha_type_def h, ha_mode h))"
  by (auto simp: healthy_def abs_env_def split: option.splits)

lemma abs_healthy:
  "abs_env v n = Some (Some (ty, m)) \<Longrightarrow> \<exists>h. healthy v n = Some h \<and> ha_type_def h = ty \<and> ha_mode h = m"
  by (auto simp: healthy_def abs_env_def)

lemma update_healthy_sel [simp]:
  "v_registry (update_healthy n f v) = v_registry v"
  "v_diagnostics (update_healthy n f v) = v_diagnostics v"
  by (simp_all add: update_healthy_def split: option.splits)

lemma abs_env_update_vars:
  "abs_env (update_healthy n (\<lambda>h. h\<lparr>ha_vars := f h\<rparr>) v) = abs_env v"
  by (rule ext) (auto simp: update_healthy_def abs_env_def healthy_def split: option.splits)

lemma healthy_update:
  "healthy v n = Some h \<Longrightarrow> healthy (update_healthy n f v) n = Some (f h)"
  by (auto simp: update_healthy_def healthy_def)

lemma abs_env_update_mode:
  "healthy v n = Some h \<Longrightarrow>
   abs_env (update_healthy n (\<lambda>h. h\<lparr>ha_mode := m\<rparr>) v) = (abs_env v)(n \<mapsto> Some (ha_type_def h, m))"
  by (rule ext) (auto simp: update_healthy_def abs_env_def healthy_def)

section \<open>Statements\<close>

fun seen :: "command_outcome \<Rightarrow> bool set" where
  "seen ImpliedOk = {}"
| "seen ExplicitOk = {True}"
| "seen ExplicitError = {False}"

lemma outcome_is_ok_seen: "outcome_is_ok o' \<longleftrightarrow> False \<notin> seen o'"
  by (cases o') simp_all

lemma polarities_simps [simp]:
  "polarities [] = {}"
  "polarities (s # ss) = set_option (polarity s) \<union> polarities ss"
  by (auto simp: polarities_def)

lemma advance_outcome_laws:
  assumes "advance_outcome o1 p sp v = (o2, v')"
  shows "v_actors v' = v_actors v" and "v_registry v' = v_registry v"
    and "clean v' \<longleftrightarrow> clean v \<and> consistent (insert p (seen o1))"
    and "consistent (insert p (seen o1)) \<Longrightarrow> seen o2 = insert p (seen o1)"
  using assms
  by (cases o1; cases p; auto simp: consistent_def)+

text \<open>The polarity of a reference, then \<open>advance_outcome\<close>: the shape both \<open>let\<close> and \<open>assert\<close> use.\<close>

definition advance_on :: "bool option \<Rightarrow> span \<Rightarrow> command_outcome \<times> validator \<Rightarrow> command_outcome \<times> validator"
  where
  "advance_on p sp ov =
     (case p of None \<Rightarrow> ov | Some b \<Rightarrow> advance_outcome (fst ov) b sp (snd ov))"

lemma advance_on_laws:
  assumes "advance_on p sp (o1, v) = (o2, v')"
  shows "v_actors v' = v_actors v" and "v_registry v' = v_registry v"
    and "consistent (seen o1) \<Longrightarrow> clean v' \<longleftrightarrow> clean v \<and> consistent (set_option p \<union> seen o1)"
    and "consistent (set_option p \<union> seen o1) \<Longrightarrow> seen o2 = set_option p \<union> seen o1"
  using assms advance_outcome_laws [of o1 _ sp v o2 v']
  by (auto simp: advance_on_def split: option.splits)

lemma consistent_seen [simp]: "consistent (seen o1)"
  by (cases o1) (simp_all add: consistent_def)

lemma let_advance:
  "(if expr_starts_with_ident e ''ok'' then advance_outcome o1 True sp v
    else if expr_starts_with_ident e ''error'' then advance_outcome o1 False sp v
    else (o1, v)) = advance_on (root_polarity e) sp (o1, v)"
  by (simp add: advance_on_def root_polarity_def)

lemma assert_advance:
  "(if expr_starts_with_ident e ''ok'' \<or> expr_starts_with_ident e ''error''
    then advance_outcome o1 (expr_starts_with_ident e ''ok'') sp v
    else (o1, v)) = advance_on (root_polarity e) sp (o1, v)"
  by (simp add: advance_on_def root_polarity_def)

lemma check_statement_laws:
  assumes "check_statement a s (ctx, v) = (ctx', v')" and "\<not> is_command s"
  shows "abs_env v' = abs_env v" and "v_registry v' = v_registry v"
    and "ctx_pending ctx' = ctx_pending ctx"
    and "clean v' \<longleftrightarrow> clean v \<and> stmt_known s \<and> consistent (set_option (polarity s) \<union> seen (ctx_outcome ctx))"
    and "consistent (set_option (polarity s) \<union> seen (ctx_outcome ctx)) \<Longrightarrow>
      seen (ctx_outcome ctx') = set_option (polarity s) \<union> seen (ctx_outcome ctx)"
proof -
  have "abs_env v' = abs_env v \<and> v_registry v' = v_registry v \<and> ctx_pending ctx' = ctx_pending ctx \<and>
    (clean v' \<longleftrightarrow> clean v \<and> stmt_known s \<and> consistent (set_option (polarity s) \<union> seen (ctx_outcome ctx))) \<and>
    (consistent (set_option (polarity s) \<union> seen (ctx_outcome ctx)) \<longrightarrow>
      seen (ctx_outcome ctx') = set_option (polarity s) \<union> seen (ctx_outcome ctx))"
  proof (cases s)
    case (SAssert x)
    obtain o2 v2 where adv: "advance_on (root_polarity (as_left x)) (as_span x) (ctx_outcome ctx, v) = (o2, v2)"
      by (cases "advance_on (root_polarity (as_left x)) (as_span x) (ctx_outcome ctx, v)")
    note laws = advance_on_laws [OF adv]
    from assms(1) SAssert have v': "v' = (let v3 = check_squiggles_in_expr (as_left x) v2
        in case as_right x of Some r \<Rightarrow> check_squiggles_in_expr r v3 | None \<Rightarrow> v3)"
      and ctx': "ctx' = ctx\<lparr>ctx_outcome := o2\<rparr>"
      by (simp_all add: assert_advance adv Let_def)
    have "v_actors v' = v_actors v" "v_registry v' = v_registry v"
      "clean v' \<longleftrightarrow> clean v2 \<and> stmt_known s"
      using laws(1,2) SAssert by (simp_all add: v' Let_def checker_laws split: option.split)
    with laws SAssert show ?thesis by (simp add: ctx' abs_env_cong [of v' v] conj_ac)
  next
    case (SLet l)
    show ?thesis
    proof (cases "let_val l")
      case (LetExpr e)
      obtain o2 v2 where adv: "advance_on (root_polarity e) (let_span l) (ctx_outcome ctx, v) = (o2, v2)"
        by (cases "advance_on (root_polarity e) (let_span l) (ctx_outcome ctx, v)")
      note laws = advance_on_laws [OF adv]
      from assms(1) SLet LetExpr obtain ty where v': "v' = update_healthy a
          (\<lambda>h. h\<lparr>ha_vars := (ha_vars h)(ident_name (let_name l) \<mapsto> ty)\<rparr>) (check_squiggles_in_expr e v2)"
        and ctx': "ctx' = ctx\<lparr>ctx_outcome := o2\<rparr>"
        by (auto simp add: let_advance adv Let_def)
      have "abs_env v' = abs_env v" "v_registry v' = v_registry v" "clean v' \<longleftrightarrow> clean v2 \<and> stmt_known s"
        using laws(1,2) SLet LetExpr
        by (simp_all add: v' checker_laws abs_env_update_vars abs_env_cong [of "check_squiggles_in_expr e v2" v])
      with laws SLet LetExpr show ?thesis by (simp add: ctx' conj_ac)
    next
      case (LetParse e f)
      with assms(1) SLet show ?thesis
        by (auto simp: checker_laws abs_env_update_vars abs_env_cong [of "check_squiggles_in_expr e v" v])
    qed
  next
    case (SAssignment x)
    have "v_actors v' = v_actors v" using assms(1) SAssignment by (auto simp: checker_laws)
    with assms(1) SAssignment show ?thesis by (auto simp: checker_laws abs_env_cong [of v' v])
  qed (use assms(2) in simp)
  then show "abs_env v' = abs_env v" "v_registry v' = v_registry v"
    "ctx_pending ctx' = ctx_pending ctx"
    "clean v' \<longleftrightarrow> clean v \<and> stmt_known s \<and> consistent (set_option (polarity s) \<union> seen (ctx_outcome ctx))"
    "consistent (set_option (polarity s) \<union> seen (ctx_outcome ctx)) \<Longrightarrow>
      seen (ctx_outcome ctx') = set_option (polarity s) \<union> seen (ctx_outcome ctx)"
    by simp_all
qed

section \<open>Commands and blocks\<close>

lemma check_command_laws:
  assumes "check_command a cmd v = ((oks, errs, transition), v')" and "healthy v a = Some h"
  shows "v_actors v' = v_actors v" and "v_registry v' = v_registry v"
    and "clean v' \<longleftrightarrow> clean v \<and> accept_command (ha_type_def h) (ha_mode h) cmd \<noteq> None"
    and "accept_command (ha_type_def h) (ha_mode h) cmd = Some tr \<Longrightarrow> transition = tr"
proof -
  have valid: "list_ex (\<lambda>x. same_mode x m) ms \<longleftrightarrow> m \<in> set ms" for m ms
    by (auto simp: list_ex_iff same_mode_def)
  have *: "v_actors v' = v_actors v \<and> v_registry v' = v_registry v \<and>
      (clean v' \<longleftrightarrow> clean v \<and> accept_command (ha_type_def h) (ha_mode h) cmd \<noteq> None) \<and>
      (accept_command (ha_type_def h) (ha_mode h) cmd = Some tr \<longrightarrow> transition = tr)"
  proof (cases "resolve_command (ha_type_def h) (ident_name (cmd_name cmd)) (cmd_positional_args cmd)")
    case None
    with assms show ?thesis by (auto simp: check_command_def accept_command_def Let_def)
  next
    case (Some ck)
    obtain c k where ck: "ck = (c, k)" by (cases ck)
    show ?thesis
    proof (cases "ha_mode h \<in> set (cd_valid_in_modes c)")
      case False
      with assms Some ck show ?thesis
        by (auto simp: check_command_def accept_command_def Let_def valid)
    next
      case True
      with assms Some ck have v': "v' =
          fold (\<lambda>kw. check_squiggles_in_kwvalue (kw_value kw)) (cmd_keyword_args cmd)
           (check_keyword_args_against (cmd_keyword_args cmd) (cd_keyword c) (cmd_span cmd)
             (Some (ident_name (cmd_name cmd)))
             (fold check_squiggles_in_expr (drop k (cmd_positional_args cmd))
               (if length (drop k (cmd_positional_args cmd)) < length (cd_positional c) then
                  push_diag (diag_error (ident_span (cmd_name cmd)) MissingRequiredArg
                    (''command `'' @ ident_name (cmd_name cmd) @ ''` missing required positional arg `''
                      @ arg_name (cd_positional c ! length (drop k (cmd_positional_args cmd))) @ ''`'')) v
                else v)))"
        and tr: "transition = cd_transitions_to c"
        by (simp_all add: check_command_def Let_def valid)
      have "v_actors v' = v_actors v" "v_registry v' = v_registry v"
        by (simp_all add: v' checker_laws)
      moreover have "clean v' \<longleftrightarrow> clean v \<and> accept_command (ha_type_def h) (ha_mode h) cmd \<noteq> None"
        using Some ck True by (auto simp: v' checker_laws accept_command_def)
      ultimately show ?thesis using Some ck by (auto simp: accept_command_def tr split: if_splits)
    qed
  qed
  then show "v_actors v' = v_actors v" "v_registry v' = v_registry v"
    "clean v' \<longleftrightarrow> clean v \<and> accept_command (ha_type_def h) (ha_mode h) cmd \<noteq> None"
    "accept_command (ha_type_def h) (ha_mode h) cmd = Some tr \<Longrightarrow> transition = tr"
    by simp_all
qed

lemma apply_pending_laws:
  assumes "healthy v a = Some h"
  shows "v_registry (apply_pending a ctx v) = v_registry v"
    and "clean (apply_pending a ctx v) \<longleftrightarrow> clean v"
    and "abs_env (apply_pending a ctx v) =
      (abs_env v)(a \<mapsto> Some (ha_type_def h, next_mode (ha_mode h) (ctx_pending ctx) (seen (ctx_outcome ctx))))"
  using assms
  by (auto simp: apply_pending_def next_mode_def outcome_is_ok_seen abs_env_update_mode healthy_abs
      fun_upd_idem_iff split: option.splits)

lemma check_body:
  assumes "healthy v a = Some h" and "fold (check_statement a) body (ctx, v) = (ctx', v')"
  defines "vf \<equiv> apply_pending a ctx' v'" and "S \<equiv> polarities (window body) \<union> seen (ctx_outcome ctx)"
  defines "m0 \<equiv> next_mode (ha_mode h) (ctx_pending ctx) S"
  shows "(clean vf \<longleftrightarrow> clean v \<and> list_all stmt_known (window body) \<and> consistent S \<and>
      accept_commands (ha_type_def h) m0 body \<noteq> None) \<and>
    (clean vf \<longrightarrow> abs_env vf =
      (abs_env v)(a \<mapsto> Some (ha_type_def h, the (accept_commands (ha_type_def h) m0 body)))) \<and>
    v_registry vf = v_registry v"
  using assms(1,2) unfolding vf_def m0_def S_def
proof (induction body arbitrary: ctx v h)
  case Nil
  then show ?case by (simp add: apply_pending_laws)
next
  case (Cons s body)
  obtain ctx1 v1 where s: "check_statement a s (ctx, v) = (ctx1, v1)"
    by (cases "check_statement a s (ctx, v)")
  with Cons.prems have rest: "fold (check_statement a) body (ctx1, v1) = (ctx', v')" by simp
  show ?case
  proof (cases "is_command s")
    case False
    note laws = check_statement_laws [OF s False]
    from laws(1) healthy_abs [OF Cons.prems(1)] obtain h1 where
      h1: "healthy v1 a = Some h1" "ha_type_def h1 = ha_type_def h" "ha_mode h1 = ha_mode h"
      using abs_healthy by metis
    have win: "window (s # body) = s # window body" using False by (cases s) simp_all
    have acc: "accept_commands ty m (s # body) = accept_commands ty m body" for ty m
      using False by (cases s) simp_all
    let ?S = "set_option (polarity s) \<union> seen (ctx_outcome ctx)"
    note IH = Cons.IH [OF h1(1) rest, unfolded h1 laws(1-3)]
    show ?thesis
    proof (cases "consistent ?S")
      case True
      with laws(5) have "polarities (window (s # body)) \<union> seen (ctx_outcome ctx) =
          polarities (window body) \<union> seen (ctx_outcome ctx1)" by (auto simp: win)
      with IH laws(4) True show ?thesis by (auto simp: win acc)
    next
      case incons: False
      then have "\<not> consistent (polarities (window (s # body)) \<union> seen (ctx_outcome ctx))"
        by (auto simp: win consistent_def)
      with IH laws(4) incons show ?thesis by simp
    qed
  next
    case True
    then obtain cmd where cmd: "s = SCommand cmd" by (cases s) simp_all
    let ?va = "apply_pending a ctx v" and ?ty = "ha_type_def h"
    let ?m = "next_mode (ha_mode h) (ctx_pending ctx) (seen (ctx_outcome ctx))"
    note pend = apply_pending_laws [OF Cons.prems(1), of ctx]
    obtain oks errs tr where chk: "check_command a cmd ?va = ((oks, errs, tr), v1)"
      and ctx1: "ctx_outcome ctx1 = ImpliedOk" "ctx_pending ctx1 = tr"
      using s cmd by (auto simp: Let_def split: prod.splits)
    from pend(3) obtain ha where ha: "healthy ?va a = Some ha" "ha_type_def ha = ?ty" "ha_mode ha = ?m"
      using abs_healthy [of ?va a ?ty ?m] by auto
    note laws = check_command_laws [OF chk ha(1), unfolded ha(2,3)]
    have h1: "healthy v1 a = Some ha" unfolding healthy_cong [OF laws(1)] by (rule ha(1))
    note IH = Cons.IH [OF h1 rest, unfolded ctx1 ha(2,3) abs_env_cong [OF laws(1)] laws(2) pend(1,3)]
    show ?thesis
    proof (cases "accept_command ?ty ?m cmd")
      case None
      with IH laws(3) show ?thesis by (simp add: cmd)
    next
      case (Some tr')
      with laws(4) have "tr = tr'" by simp
      with IH laws(3) Some pend(2) show ?thesis by (auto simp: cmd window_ok_def)
    qed
  qed
qed

section \<open>Declarations\<close>

interpretation var_default: checker
  "\<lambda>var v. case var_default var of Some d \<Rightarrow> check_squiggles_in_expr d v | None \<Rightarrow> v"
  "{UnknownSquiggle}" "\<lambda>var. pred_option squiggles_known (var_default var)"
  by unfold_locales (simp_all add: checker_laws checker_grows split: option.splits)

lemma register_actor_fresh:
  assumes "v_actors v (ident_name (decl_name decl)) = None"
  shows "case registry_get (v_registry v) (ident_name (decl_actor_type decl)) of
      None \<Rightarrow> \<not> clean (register_actor decl v)
    | Some ty \<Rightarrow>
        (clean (register_actor decl v) \<longleftrightarrow> clean v \<and> decl_ok ty decl) \<and>
        abs_env (register_actor decl v) =
          (abs_env v)(ident_name (decl_name decl) \<mapsto> Some (ty, at_initial_mode ty))"
  using assms
  by (auto simp: register_actor_def fold_pair checker_laws var_default.laws decl_ok_def abs_env_def
      Let_def fun_eq_iff split: option.split)

lemma register_actor_dirty: "\<not> clean v \<Longrightarrow> \<not> clean (register_actor decl v)"
  by (auto simp: register_actor_def fold_pair checker_laws var_default.laws Let_def
      split: option.split)

lemma register_actor_registry: "v_registry (register_actor decl v) = v_registry v"
  by (simp add: register_actor_def fold_pair checker_laws var_default.laws Let_def
      split: option.split)

lemma register_actor_duplicate:
  "healthy v (ident_name (decl_name decl)) = Some h \<Longrightarrow> \<not> clean (register_actor decl v)"
  by (auto simp: register_actor_def healthy_def Let_def split: option.splits)

lemma agreesD:
  assumes "agrees v env"
  shows "env n = None \<longleftrightarrow> v_actors v n = None"
    and "env n = Some (ty, m) \<Longrightarrow> \<exists>h. healthy v n = Some h \<and> ha_type_def h = ty \<and> ha_mode h = m"
proof -
  from assms have "abs_env v n = map_option Some (env n)" by (simp add: agrees_def)
  then show "env n = None \<longleftrightarrow> v_actors v n = None"
    "env n = Some (ty, m) \<Longrightarrow> \<exists>h. healthy v n = Some h \<and> ha_type_def h = ty \<and> ha_mode h = m"
    using abs_healthy [of v n ty m] by (auto simp: abs_env_def)
qed

lemma agrees_upd:
  "agrees v env \<Longrightarrow> abs_env v' = (abs_env v)(n \<mapsto> Some x) \<Longrightarrow> agrees v' (env(n \<mapsto> x))"
  by (simp add: agrees_def)

lemma register_refines:
  assumes "clean v" and "agrees v env"
  shows "case accept_decl (v_registry v) decl env of
      None \<Rightarrow> \<not> clean (register_actor decl v)
    | Some env' \<Rightarrow> clean (register_actor decl v) \<and> agrees (register_actor decl v) env'"
proof (cases "env (ident_name (decl_name decl))")
  case None
  with agreesD(1) [OF assms(2)] have "v_actors v (ident_name (decl_name decl)) = None" by simp
  from register_actor_fresh [OF this] None assms agrees_upd [OF assms(2)] show ?thesis
    by (auto simp: accept_decl_def split: option.splits)
next
  case (Some tm)
  with agreesD(2) [OF assms(2)] obtain h where "healthy v (ident_name (decl_name decl)) = Some h"
    by (metis surj_pair)
  then show ?thesis by (simp add: accept_decl_def Some register_actor_duplicate)
qed

interpretation register: refinement_step register_item accept_decl_item
proof
  fix v x env
  show "v_registry (register_item x v) = v_registry v"
    by (cases x) (simp_all add: register_actor_registry)
  show "\<not> clean (register_item x v)" if "\<not> clean v"
    using that by (cases x) (simp_all add: register_actor_dirty)
  show "case accept_decl_item (v_registry v) x env of None \<Rightarrow> \<not> clean (register_item x v)
      | Some env' \<Rightarrow> clean (register_item x v) \<and> agrees (register_item x v) env'"
    if "clean v" "agrees v env"
  proof (cases x)
    case (TActorDeclaration decl)
    with that register_refines [OF that, of decl] show ?thesis by (simp split: option.splits)
  next
    case (TAsBlock blk)
    with that  show ?thesis by simp
  qed
qed

section \<open>Refinement\<close>

lemma check_as_block_cases:
  assumes "healthy v (ident_name (blk_actor blk)) = Some h"
  obtains ctx v' where
    "fold (check_statement (ident_name (blk_actor blk))) (blk_body blk) (block_ctx_init, v) = (ctx, v')"
    "check_as_block blk v = apply_pending (ident_name (blk_actor blk)) ctx v'"
proof -
  obtain ctx v' where *: "fold (check_statement (ident_name (blk_actor blk))) (blk_body blk)
      (block_ctx_init, v) = (ctx, v')"
    by (cases "fold (check_statement (ident_name (blk_actor blk))) (blk_body blk) (block_ctx_init, v)")
  moreover from * assms have "check_as_block blk v = apply_pending (ident_name (blk_actor blk)) ctx v'"
    by (auto simp: check_as_block_def healthy_def Let_def split: option.splits)
  ultimately show ?thesis by (rule that)
qed

lemma check_as_block_healthy:
  assumes "healthy v (ident_name (blk_actor blk)) = Some h"
  shows "v_registry (check_as_block blk v) = v_registry v"
    and "clean (check_as_block blk v) \<longleftrightarrow> clean v \<and> window_ok (window (blk_body blk)) \<and>
      accept_commands (ha_type_def h) (ha_mode h) (blk_body blk) \<noteq> None"
    and "clean (check_as_block blk v) \<Longrightarrow> abs_env (check_as_block blk v) =
      (abs_env v)(ident_name (blk_actor blk) \<mapsto>
        Some (ha_type_def h, the (accept_commands (ha_type_def h) (ha_mode h) (blk_body blk))))"
proof -
  obtain ctx v' where *: "fold (check_statement (ident_name (blk_actor blk))) (blk_body blk)
      (block_ctx_init, v) = (ctx, v')"
    "check_as_block blk v = apply_pending (ident_name (blk_actor blk)) ctx v'"
    using check_as_block_cases [OF assms] .
  have "next_mode m None ps = m" for m ps by (simp add: next_mode_def)
  with check_body [OF assms *(1)]
  show "v_registry (check_as_block blk v) = v_registry v"
    "clean (check_as_block blk v) \<longleftrightarrow> clean v \<and> window_ok (window (blk_body blk)) \<and>
      accept_commands (ha_type_def h) (ha_mode h) (blk_body blk) \<noteq> None"
    "clean (check_as_block blk v) \<Longrightarrow> abs_env (check_as_block blk v) =
      (abs_env v)(ident_name (blk_actor blk) \<mapsto>
        Some (ha_type_def h, the (accept_commands (ha_type_def h) (ha_mode h) (blk_body blk))))"
    by (simp_all add: *(2) block_ctx_init_def window_ok_def)
qed

lemma check_as_block_sick:
  "healthy v (ident_name (blk_actor blk)) = None \<Longrightarrow>
   v_registry (check_as_block blk v) = v_registry v \<and> (\<not> clean v \<longrightarrow> \<not> clean (check_as_block blk v))"
  by (auto simp: check_as_block_def healthy_def Let_def split: option.splits)

lemma check_block_refines:
  assumes "clean v" and "agrees v env"
  shows "case accept_block blk env of
      None \<Rightarrow> \<not> clean (check_as_block blk v)
    | Some env' \<Rightarrow> clean (check_as_block blk v) \<and> agrees (check_as_block blk v) env'"
proof (cases "env (ident_name (blk_actor blk))")
  case None
  with agreesD(1) [OF assms(2)] have "v_actors v (ident_name (blk_actor blk)) = None" by simp
  with None show ?thesis by (simp add: accept_block_def check_as_block_def)
next
  case (Some tm)
  obtain ty m where tm: "tm = (ty, m)" by (cases tm)
  with agreesD(2) [OF assms(2)] Some obtain h where
    h: "healthy v (ident_name (blk_actor blk)) = Some h" "ha_type_def h = ty" "ha_mode h = m" by metis
  note laws = check_as_block_healthy [OF h(1), unfolded h(2,3)]
  show ?thesis
  proof (cases "accept_commands ty m (blk_body blk)")
    case None
    with laws(2) Some tm show ?thesis by (simp add: accept_block_def)
  next
    case (Some m')
    with laws assms tm \<open>env _ = _\<close> agrees_upd [OF assms(2) laws(3)] show ?thesis
      by (auto simp: accept_block_def)
  qed
qed

interpretation check: refinement_step check_item "\<lambda>_. accept_block_item"
proof
  fix v x env
  show "v_registry (check_item x v) = v_registry v"
    using check_as_block_healthy(1) check_as_block_sick by (cases x) (auto, metis not_None_eq)
  show "\<not> clean (check_item x v)" if "\<not> clean v"
    using that check_as_block_healthy(2) check_as_block_sick by (cases x) (auto, metis not_None_eq)
  show "case accept_block_item x env of None \<Rightarrow> \<not> clean (check_item x v)
      | Some env' \<Rightarrow> clean (check_item x v) \<and> agrees (check_item x v) env'"
    if "clean v" "agrees v env"
  proof (cases x)
    case (TActorDeclaration decl)
    with that  show ?thesis by simp
  next
    case (TAsBlock blk)
    with that check_block_refines [OF that, of blk] show ?thesis by (simp split: option.splits)
  qed
qed

lemma validator_run_refines:
  assumes "clean v" and "agrees v Map.empty"
  shows "case accept_source (v_registry v) source of
      None \<Rightarrow> \<not> clean (validator_run source v)
    | Some env \<Rightarrow> clean (validator_run source v) \<and> agrees (validator_run source v) env"
proof (cases "option_fold (accept_decl_item (v_registry v)) (src_items source) Map.empty")
  case None
  with register.fold_refines [OF assms, of "src_items source"] show ?thesis
    by (simp add: accept_source_def validator_run_def check.fold_dirty)
next
  case (Some env)
  with register.fold_refines [OF assms, of "src_items source"]
  have "clean (fold register_item (src_items source) v)"
    "agrees (fold register_item (src_items source) v) env" by simp_all
  from check.fold_refines [OF this, of "src_items source"] Some show ?thesis
    by (simp add: accept_source_def validator_run_def split: option.splits)
qed

lemma validator_init_related: "clean validator_init" "agrees validator_init Map.empty"
  by (simp_all add: validator_init_def agrees_def abs_env_def)

lemma validate_Nil_iff:
  "validate source = [] \<longleftrightarrow> (\<exists>env. accept_source registry_global source = Some env)"
  using validator_run_refines [OF validator_init_related, of source]
  by (auto simp: validate_def validator_init_def split: option.splits)

end
