(* ===== verification/Ill_Harness_Facts.thy ===== *)
theory Ill_Harness_Facts
  imports Ill_Harness Ill_Accept
begin

text \<open>
  Facts about the harness that hold for every runtime: the table of live instances, teardown,
  keyword arguments, the scope, and the agreement of its \<open>error\<close> scan with the validator's.
\<close>

section \<open>Live instances\<close>

lemma actors_get_simps [simp]:
  "actors_get [] n = None"
  "actors_get ((k, i) # actors) n = (if k = n then Some i else actors_get actors n)"
  by (simp_all add: actors_get_def)

lemma actors_get_eq: "actors_get actors n = map_of actors n"
  by (induction actors) (auto split: prod.splits)

lemma actors_put_names [simp]: "map fst (actors_put n i actors) = map fst actors"
  by (induction n i actors rule: actors_put.induct) auto

lemma actors_put_fst [simp]: "fst ` set (actors_put n i actors) = fst ` set actors"
  using actors_put_names [of n i actors] by (metis list.set_map)

lemma actors_get_put:
  "actors_get (actors_put n i actors) k =
     (if k = n then map_option (\<lambda>_. i) (actors_get actors n) else actors_get actors k)"
  by (induction n i actors rule: actors_put.induct) auto

lemma actors_put_put [simp]: "actors_put n i (actors_put n j actors) = actors_put n i actors"
  by (induction n j actors rule: actors_put.induct) auto

lemma actors_put_same: "actors_get actors n = Some i \<Longrightarrow> actors_put n i actors = actors"
  by (induction n i actors rule: actors_put.induct) (auto split: if_splits)

lemma actors_get_push:
  "actors_get (actors_push n i actors) k =
     (case actors_get actors k of Some j \<Rightarrow> Some j | None \<Rightarrow> if k = n then Some i else None)"
  by (auto simp: actors_push_def actors_get_eq map_add_def split: option.splits)

section \<open>Teardown\<close>

text \<open>Tearing down a list of instances from front to back.\<close>

fun teardown_seq ::
  "('i, 'w) instance_ops \<Rightarrow> 'i actors \<Rightarrow> 'w \<Rightarrow> teardown_report list \<times> 'w" where
  "teardown_seq ops [] w = ([], w)"
| "teardown_seq ops (entry # entries) w =
     (let (report, w1) = teardown_one ops entry w;
          (reports, w2) = teardown_seq ops entries w1
      in (report # reports, w2))"

lemma teardown_loop_eq:
  "teardown_loop ops actors acc w =
     (acc @ fst (teardown_seq ops (rev actors) w), snd (teardown_seq ops (rev actors) w))"
proof (induction actors arbitrary: acc w rule: rev_induct)
  case Nil
  show ?case by (simp add: teardown_loop.simps)
next
  case (snoc entry actors)
  then show ?case
    by (subst teardown_loop.simps) (simp add: split_beta Let_def)
qed

lemma teardown_all_eq:
  "teardown_all ops actors w =
     (rev (fst (teardown_seq ops (rev actors) w)), snd (teardown_seq ops (rev actors) w))"
  by (simp add: teardown_all_def teardown_loop_eq split_beta)

lemma teardown_seq_names: "map tdr_actor (fst (teardown_seq ops entries w)) = map fst entries"
  by (induction entries arbitrary: w) (simp_all add: split_beta Let_def teardown_one_def)

lemma teardown_all_names: "map tdr_actor (fst (teardown_all ops actors w)) = map fst actors"
  by (simp add: teardown_all_eq rev_map [symmetric] teardown_seq_names)

section \<open>The walk keeps the table in construction order\<close>

lemma run_statement_names:
  "run_statement ops rx ty blk idx s scope actors w = (r, actors', w') \<Longrightarrow>
   map fst actors' = map fst actors"
  by (auto simp: run_statement_def run_command_def Let_def split: statement.splits option.splits
      sum.splits prod.splits run_outcome.splits if_splits)

lemma run_statements_names:
  "run_statements ops rx ty blk idx body scope actors w = (r, actors', w') \<Longrightarrow>
   map fst actors' = map fst actors"
proof (induction body arbitrary: idx scope actors w)
  case (Cons s body)
  obtain r1 actors1 w1 where s: "run_statement ops rx ty blk idx s scope actors w = (r1, actors1, w1)"
    by (cases "run_statement ops rx ty blk idx s scope actors w")
  with Cons run_statement_names [OF s] show ?case by (cases r1) auto
qed simp

lemma run_as_block_names:
  "run_as_block ops rx blk actors w = (r, actors', w') \<Longrightarrow> map fst actors' = map fst actors"
  by (auto simp: run_as_block_def Let_def split: option.splits dest: run_statements_names)

definition decl_names :: "top_level list \<Rightarrow> string list" where
  "decl_names items =
     concat (map (\<lambda>item. case item of
       TActorDeclaration decl \<Rightarrow> [ident_name (decl_name decl)] | TAsBlock _ \<Rightarrow> []) items)"

lemma decl_names_simps [simp]:
  "decl_names [] = []"
  "decl_names (TActorDeclaration decl # items) = ident_name (decl_name decl) # decl_names items"
  "decl_names (TAsBlock blk # items) = decl_names items"
  by (simp_all add: decl_names_def)

lemma run_items_names:
  "run_items ops rx dir items actors w = (stmts, actors', w') \<Longrightarrow>
   \<exists>ns. map fst actors' = map fst actors @ ns \<and> prefix ns (decl_names items) \<and>
     (stmts = [] \<longrightarrow> ns = decl_names items) \<and> length stmts \<le> 1"
proof (induction ops rx dir items actors w rule: run_items.induct)
  case (2 ops rx dir decl items actors w)
  show ?case
  proof (cases "construct_actor ops decl dir w")
    case (Pair r w1)
    show ?thesis
    proof (cases r)
      case (Inl msg)
      with 2 Pair show ?thesis by auto
    next
      case (Inr inst)
      from "2.IH" [OF Pair [symmetric] Inr] "2.prems" Pair Inr obtain ns where
        "map fst actors' = map fst (actors_push (ident_name (decl_name decl)) inst actors) @ ns"
        "prefix ns (decl_names items)" "stmts = [] \<longrightarrow> ns = decl_names items" "length stmts \<le> 1"
        by auto
      then show ?thesis
        by (intro exI [of _ "ident_name (decl_name decl) # ns"]) (simp add: actors_push_def)
    qed
  qed
next
  case (3 ops rx dir blk items actors w)
  obtain r actors1 w1 where b: "run_as_block ops rx blk actors w = (r, actors1, w1)"
    by (cases "run_as_block ops rx blk actors w")
  with 3 run_as_block_names [OF b] show ?case by (cases r) auto
qed simp

section \<open>Scope\<close>

lemma bind_self_other:
  assumes "n \<notin> fst ` set actors" and "n \<noteq> ''self''"
  shows "scope_get (bind_self ops actors a scope) n = scope_get scope n"
proof -
  have "scope_get (fold (\<lambda>(name, inst) s. case op_self_view ops inst of
      Some d \<Rightarrow> scope_bind name (VDict d) s | None \<Rightarrow> scope_unbind name s) actors scope) n =
      scope_get scope n"
    using assms(1) by (induction actors arbitrary: scope) (auto split: option.splits)
  with assms(2) show ?thesis by (auto simp: bind_self_def Let_def split: option.splits)
qed

lemma eval_root_unbound:
  "root_ident e = Some n \<Longrightarrow> scope_get s n = None \<Longrightarrow> \<exists>err. eval e s = Inl err"
  by (induction e rule: root_ident.induct) auto

section \<open>Expected errors\<close>

lemma root_polarity_False: "root_polarity e = Some False \<longleftrightarrow> expr_starts_with_ident e ''error''"
  using starts_with_unique [of e "''ok''" "''error''"] by (auto simp: root_polarity_def)

text \<open>The harness expects an error exactly when the validator sees an \<open>error\<close> reference.\<close>

lemma error_ref_scan_iff: "error_ref_scan body \<longleftrightarrow> False \<in> polarities (window body)"
  by (induction body rule: error_ref_scan.induct)
    (auto simp: root_polarity_False split: let_value.split)

text \<open>Walking a window with the validator computes its polarities.\<close>

lemma check_window:
  assumes "fold (check_statement a) w (ctx, v) = (ctx', v')" and "list_all (\<lambda>s. \<not> is_command s) w"
    and "clean v'"
  shows "clean v \<and> seen (ctx_outcome ctx') = polarities w \<union> seen (ctx_outcome ctx)"
  using assms
proof (induction w arbitrary: ctx v)
  case (Cons s w)
  obtain ctx1 v1 where s: "check_statement a s (ctx, v) = (ctx1, v1)"
    by (cases "check_statement a s (ctx, v)")
  with Cons have "clean v1 \<and> seen (ctx_outcome ctx') = polarities w \<union> seen (ctx_outcome ctx1)" by simp
  with check_statement_laws [OF s] Cons.prems(2) show ?case by auto
qed simp

lemma window_no_command: "list_all (\<lambda>s. \<not> is_command s) (window body)"
  by (auto simp: window_def list_all_iff dest: set_takeWhileD)

lemma ExplicitError_seen: "o' = ExplicitError \<longleftrightarrow> False \<in> seen o'"
  by (cases o') simp_all

section \<open>Keyword arguments\<close>

lemma try_fold_index:
  assumes "\<And>x v m. x \<in> set xs \<Longrightarrow> f x = Inr v \<Longrightarrow> g x m = Inr (index_insert (k x) v m)"
    and "\<And>x e m. x \<in> set xs \<Longrightarrow> f x = Inl e \<Longrightarrow> g x m = Inl e"
  shows "try_fold g xs m =
    (case try_map f xs of
       Inl e \<Rightarrow> Inl e
     | Inr vs \<Rightarrow> Inr (fold (\<lambda>(k, v). index_insert k v) (zip (map k xs) vs) m))"
  using assms
proof (induction xs arbitrary: m)
  case (Cons x xs)
  then show ?case by (cases "f x") (auto split: sum.splits)
qed simp

lemma eval_keyword_args_eq:
  "eval_keyword_args args s =
     (case try_map (\<lambda>kw. eval_keyword_value (kw_value kw) s) args of
        Inl e \<Rightarrow> Inl e
      | Inr vs \<Rightarrow> Inr (fold (\<lambda>(k, v). index_insert k v)
          (zip (map (\<lambda>kw. ident_name (kw_key kw)) args) vs) []))"
  unfolding eval_keyword_args_def by (rule try_fold_index) simp_all

lemma keys_index_fold:
  "fst ` set (fold (\<lambda>(k, v). index_insert k v) kvs m) = fst ` set m \<union> fst ` set kvs"
proof (induction kvs arbitrary: m)
  case (Cons kv kvs)
  obtain k v where kv: "kv = (k, v)" by (cases kv)
  have "fst ` set (index_insert k v m) = insert k (fst ` set m)"
    by (induction k v m rule: index_insert.induct) auto
  with Cons show ?case by (simp add: kv)
qed simp

lemma eval_keyword_args_keys:
  assumes "eval_keyword_args args s = Inr d"
  shows "fst ` set d = (\<lambda>kw. ident_name (kw_key kw)) ` set args"
proof -
  from assms obtain vs where vs: "try_map (\<lambda>kw. eval_keyword_value (kw_value kw) s) args = Inr vs"
    "d = fold (\<lambda>(k, v). index_insert k v) (zip (map (\<lambda>kw. ident_name (kw_key kw)) args) vs) []"
    by (auto simp: eval_keyword_args_eq split: sum.splits)
  have "map fst (zip (map (\<lambda>kw. ident_name (kw_key kw)) args) vs) = map (\<lambda>kw. ident_name (kw_key kw)) args"
    using try_map_length [OF vs(1)] by simp
  then have "fst ` set (zip (map (\<lambda>kw. ident_name (kw_key kw)) args) vs) =
      (\<lambda>kw. ident_name (kw_key kw)) ` set args"
    by (metis list.set_map)
  with vs(2) show ?thesis by (simp add: keys_index_fold)
qed

end
