(* ===== verification/Ill_Simulation.thy ===== *)
theory Ill_Simulation
  imports Ill_Harness_Facts
begin

text \<open>
  The validator is a sound abstract interpreter of the harness. The contract of the actor
  implementations is the locale \<open>moded_runtime\<close>: an instance knows its type, starts in the type's
  initial mode, follows a command's transition when it succeeds and, for the commands in \<open>keeps\<close>,
  keeps its mode when it fails; and a construction that fails does not do so with one of the harness's errors.
  Under that contract the modes the validator computes are the modes the instances are in.
\<close>

section \<open>Errors that are not drift\<close>

lemma drift_error_simps [simp]:
  "\<not> drift_error (RMissingKwarg n)" "\<not> drift_error (RConstruct m)"
  "\<not> drift_error (RTypeMismatch x g c)" "\<not> drift_error (RActorNotImplemented n)"
  by (simp_all add: drift_defs)

lemma eval_no_drift: "squiggles_known e \<Longrightarrow> eval e s = Inl err \<Longrightarrow> \<not> drift_error err"
  by (simp add: squiggles_known_def eval_known_squiggles)

lemma compare_error: "compare rx l r op = Inl err \<Longrightarrow> \<not> drift_error err"
proof -
  have "compare_ord l r = Inl e \<Longrightarrow> \<not> drift_error e" for e
    by (cases l; cases r) (auto simp: drift_defs)
  moreover have "contains l r = Inl e \<Longrightarrow> \<not> drift_error e" for e
    by (cases l; cases r) (auto simp: drift_defs)
  moreover have "matches_regex rx l r = Inl e \<Longrightarrow> \<not> drift_error e" for e
    by (cases l; cases r) (auto simp: drift_defs split: sum.splits)
  moreover assume "compare rx l r op = Inl err"
  ultimately show ?thesis by (cases op) (simp_all add: map_sum_id_Inl)
qed

lemma eval_assert_error:
  assumes "stmt_known (SAssert a)" and "eval_assert rx a s = Inl err"
  shows "\<not> drift_error err"
proof -
  have "\<not> drift_error (REval ''assert has comparison operator but no right-hand side'')"
    by (simp add: drift_defs)
  with assms show ?thesis
    by (auto simp: eval_assert_def split: sum.splits option.splits dest: eval_no_drift compare_error)
qed

lemma eval_map_key_error:
  assumes "squiggles_known k" and "eval_map_key k s = Inl err"
  shows "\<not> drift_error err"
proof -
  have "\<not> drift_error (REval (''map key must be identifier, string, or atom, got '' @ t))" for t
    by (simp add: drift_defs)
  with assms eval_no_drift [OF assms(1)] show ?thesis
    by (auto simp: eval_map_key_def split: expr.splits sum.splits val.splits)
qed

lemma eval_keyword_value_error:
  assumes "kwvalue_known kv" and "eval_keyword_value kv s = Inl err"
  shows "\<not> drift_error err"
proof (cases kv)
  case (KwExpr e)
  with assms show ?thesis by (simp add: eval_no_drift)
next
  case (KwMap pairs)
  with assms obtain k v m where "(k, v) \<in> set pairs"
    "(case eval_map_key k s of Inl e \<Rightarrow> Inl e
      | Inr key \<Rightarrow> (case eval v s of Inl e \<Rightarrow> Inl e | Inr x \<Rightarrow> Inr (index_insert key x m))) = Inl err"
    by (auto simp: map_sum_id_Inl dest!: try_fold_InlD)
  with assms(1) KwMap show ?thesis
    by (auto simp: list_all_iff split: sum.splits dest: eval_map_key_error eval_no_drift)
qed

lemma eval_keyword_args_error:
  assumes "list_all (\<lambda>kw. kwvalue_known (kw_value kw)) kws" and "eval_keyword_args kws s = Inl err"
  shows "\<not> drift_error err"
proof -
  from assms(2) obtain kw where "kw \<in> set kws" "eval_keyword_value (kw_value kw) s = Inl err"
    by (auto simp: eval_keyword_args_def split: sum.splits dest!: try_fold_InlD)
  with assms(1) show ?thesis using eval_keyword_value_error by (auto simp: list_all_iff)
qed

lemma eval_command_args_error:
  assumes "list_all squiggles_known (drop k (cmd_positional_args cmd))"
    and "list_all (\<lambda>kw. kwvalue_known (kw_value kw)) (cmd_keyword_args cmd)"
    and "eval_command_args cmd k s = Inl err"
  shows "\<not> drift_error err"
  using assms
  by (auto simp: eval_command_args_def list_all_iff split: sum.splits dest!: try_map_InlD
      dest: eval_keyword_args_error [unfolded list_all_iff] eval_no_drift)

section \<open>The contract of the actors\<close>

text \<open>Keyword arguments fit their declarations: none is undeclared, and no required one is missing.\<close>

definition kwargs_fit :: "keyword_arg_def list \<Rightarrow> dict \<Rightarrow> bool" where
  "kwargs_fit expected d \<longleftrightarrow>
     (\<forall>k \<in> fst ` set d. \<exists>e \<in> set expected. kwd_name e = k) \<and>
     (\<forall>e \<in> set expected. kwd_required e \<longrightarrow> kwd_name e \<in> fst ` set d)"

lemma kwargs_match_fit:
  assumes "kwargs_match kws expected" and "eval_keyword_args kws s = Inr d"
  shows "kwargs_fit expected d"
proof -
  have "kwd_name e \<in> fst ` set d" if e: "e \<in> set expected" "kwd_required e" for e
  proof -
    from assms(1) e obtain kw where "kw \<in> set kws" "ident_name (kw_key kw) = kwd_name e"
      by (auto simp: kwargs_match_def)
    then show ?thesis unfolding eval_keyword_args_keys [OF assms(2)] by (simp add: rev_image_eqI)
  qed
  with assms(1) eval_keyword_args_keys [OF assms(2)] show ?thesis
    by (simp add: kwargs_match_def kwargs_fit_def)
qed

text \<open>
  A call is safe when the instance is in a mode the command is declared valid in, and its arguments are
  those the command declares; a construction when its arguments are those the actor type declares.
\<close>

definition args_fit :: "command_def \<Rightarrow> command_args \<Rightarrow> bool" where
  "args_fit cd args \<longleftrightarrow>
     length (cd_positional cd) \<le> length (args_positional args) \<and> kwargs_fit (cd_keyword cd) (args_keyword args)"

lemma eval_command_args_fit:
  assumes "eval_command_args cmd k s = Inr args" and "kwargs_match (cmd_keyword_args cmd) (cd_keyword cd)"
    and "length (cd_positional cd) \<le> length (cmd_positional_args cmd) - k"
  shows "args_fit cd args"
  using assms
  by (auto simp: eval_command_args_def args_fit_def split: sum.splits dest: try_map_length kwargs_match_fit)

definition construct_ok :: "string \<Rightarrow> construct_args \<Rightarrow> bool" where
  "construct_ok n cargs \<longleftrightarrow>
     (case registry_get registry_global n of
        None \<Rightarrow> False
      | Some ty \<Rightarrow> kwargs_fit (at_constructor_keyword ty) (ca_keyword cargs))"

definition call_ok ::
  "('i, 'w) instance_ops \<Rightarrow> ('i \<Rightarrow> mode) \<Rightarrow> 'i \<Rightarrow> string \<Rightarrow> command_args \<Rightarrow> bool" where
  "call_ok ops mode_of i c args \<longleftrightarrow>
     (case registry_get registry_global (op_type_name ops i) of
        None \<Rightarrow> False
      | Some ty \<Rightarrow>
          (case find_command ty c of
             None \<Rightarrow> False
           | Some cd \<Rightarrow> mode_of i \<in> set (cd_valid_in_modes cd) \<and> args_fit cd args))"

locale moded_runtime =
  fixes ops :: "('i, 'w) instance_ops" and mode_of :: "'i \<Rightarrow> mode" and keeps :: "string \<Rightarrow> bool"
  assumes construct_law:
      "op_construct ops n cargs w = (Inr i, w') \<Longrightarrow> registry_get registry_global n = Some ty \<Longrightarrow>
       op_type_name ops i = n \<and> mode_of i = at_initial_mode ty"
    and construct_error: "op_construct ops n cargs w = (Inl e, w') \<Longrightarrow> \<not> drift_error e"
    and execute_type:
      "op_execute ops i c args w = (out, i', w') \<Longrightarrow> op_type_name ops i' = op_type_name ops i"
    and execute_ok:
      "op_execute ops i c args w = (RunOk d, i', w') \<Longrightarrow>
       registry_get registry_global (op_type_name ops i) = Some ty \<Longrightarrow> find_command ty c = Some cd \<Longrightarrow>
       mode_of i \<in> set (cd_valid_in_modes cd) \<Longrightarrow>
       mode_of i' = (case cd_transitions_to cd of None \<Rightarrow> mode_of i | Some m \<Rightarrow> m)"
    and execute_error:
      "op_execute ops i c args w = (RunError variant d, i', w') \<Longrightarrow>
       registry_get registry_global (op_type_name ops i) = Some ty \<Longrightarrow> find_command ty c = Some cd \<Longrightarrow>
       mode_of i \<in> set (cd_valid_in_modes cd) \<Longrightarrow> keeps c \<Longrightarrow>
       mode_of i' = mode_of i"

text \<open>A predicate on the world that construction, safe calls and teardown keep.\<close>

locale watched_runtime = moded_runtime +
  fixes P :: "'b \<Rightarrow> bool"
  assumes construct_P: "P w \<Longrightarrow> construct_ok n cargs \<Longrightarrow> op_construct ops n cargs w = (r, w') \<Longrightarrow> P w'"
    and execute_P:
      "P w \<Longrightarrow> call_ok ops mode_of i c args \<Longrightarrow> op_execute ops i c args w = (out, i', w') \<Longrightarrow> P w'"
    and teardown_P: "P w \<Longrightarrow> op_teardown ops i w = (t, w') \<Longrightarrow> P w'"

fun drift_report :: "statement_report \<Rightarrow> bool" where
  "drift_report (EvalError a sp m) = drift_msg m"
| "drift_report (ConstructFailure a m sp) = drift_msg m"
| "drift_report _ = False"

fun binds_error :: "statement \<Rightarrow> bool" where
  "binds_error (SLet l) = (ident_name (let_name l) = ''error'')"
| "binds_error _ = False"

text \<open>The names of the commands that a command statement may resolve to.\<close>

definition command_names :: "command \<Rightarrow> string list" where
  "command_names cmd =
     ident_name (cmd_name cmd) #
     (case cmd_positional_args cmd of EIdent event # _ \<Rightarrow> [''receive_'' @ ident_name event] | _ \<Rightarrow> [])"

lemma resolve_command_names:
  assumes "resolve_command ty (ident_name (cmd_name cmd)) (cmd_positional_args cmd) = Some (cd, k)"
  shows "cd_name cd \<in> set (command_names cmd)"
  using assms
  by (auto simp: resolve_command_def resolve_default_def resolve_mqtt_def command_names_def Let_def
      split: resolve_impl.splits option.splits if_splits list.splits expr.splits
      dest!: find_command_SomeD)

text \<open>
  No \<open>let\<close> rebinds \<open>error\<close>, and a command whose failure may change the mode is not one that the block
  expects to fail.
\<close>

fun block_reserved :: "(string \<Rightarrow> bool) \<Rightarrow> statement list \<Rightarrow> bool" where
  "block_reserved keeps [] = True"
| "block_reserved keeps (s # rest) =
     (\<not> binds_error s \<and>
      (case s of
         SCommand cmd \<Rightarrow> error_ref_scan rest \<longrightarrow> list_all keeps (command_names cmd)
       | _ \<Rightarrow> True) \<and>
      block_reserved keeps rest)"

lemma find_command_resolved:
  assumes "registry_get registry_global n = Some ty" and "resolve_command ty name pos = Some (cd, k)"
  shows "find_command ty (cd_name cd) = Some cd"
proof -
  have "wf_registry registry_global" by (simp add: wf_registry_def registry_global_eq wf_builtin)
  with assms(1) have "distinct (map cd_name (at_commands ty))"
    using wf_registry_get by (auto simp: wf_actor_type_def)
  with resolve_command_SomeD(1) [OF assms(2)] show ?thesis
    by (simp add: find_command_def find_by_distinct)
qed

lemma run_simple_statement:
  assumes "run_statement ops rx ty blk idx s scope actors w = (r, actors', w')" and "\<not> is_command s"
    and "stmt_known s" and "\<not> binds_error s" and "''error'' \<notin> fst ` set actors"
  shows "actors' = actors \<and> w' = w \<and>
    (case r of
       Inl rep \<Rightarrow> \<not> drift_report rep
     | Inr scope' \<Rightarrow> scope_get scope' ''error'' = scope_get scope ''error'' \<and>
         (scope_get scope ''error'' = None \<longrightarrow> polarity s \<noteq> Some False))"
proof -
  let ?s = "bind_self ops actors (ident_name (blk_actor blk)) scope"
  have err: "scope_get ?s ''error'' = scope_get scope ''error''"
    by (rule bind_self_other) (use assms(5) in simp_all)
  have unbound: "\<exists>x. eval e ?s = Inl x" if "root_polarity e = Some False" "scope_get scope ''error'' = None" for e
    using that err eval_root_unbound [of e "''error''" ?s]
    by (auto simp: root_polarity_False expr_starts_with_ident_root)
  show ?thesis
  proof (cases s)
    case (SAssert a)
    with assms(1,3) unbound [of "as_left a"] err eval_assert_error [of a rx ?s] show ?thesis
      by (cases "eval_assert rx a ?s")
        (auto simp: run_statement_def run_assert_def eval_assert_Inr_iff drift_error_def Let_def
          split: if_splits)
  next
    case (SLet l)
    show ?thesis
    proof (cases "let_val l")
      case (LetExpr e)
      with SLet assms(1,3,4) unbound [of e] err eval_no_drift [of e ?s] show ?thesis
        by (cases "eval e ?s") (auto simp: run_statement_def run_let_def Let_def drift_error_def)
    next
      case (LetParse e f)
      with SLet assms(1) show ?thesis
        by (auto simp: run_statement_def run_let_def Let_def drift_msg_def)
    qed
  next
    case (SAssignment a)
    with assms(1) show ?thesis by (auto simp: run_statement_def drift_msg_def)
  qed (use assms(2) in simp)
qed

section \<open>Simulation of blocks\<close>

context watched_runtime
begin

lemma run_command_sim:
  assumes "run_command ops ty blk idx cmd scope actors w = (r, actors', w')"
    and "actors_get actors (ident_name (blk_actor blk)) = Some i"
    and "registry_get registry_global (op_type_name ops i) = Some ty"
    and "accept_command ty (mode_of i) cmd = Some tr" and "P w"
    and "block_has_error_ref_after blk idx \<Longrightarrow> list_all keeps (command_names cmd)"
  defines "S \<equiv> polarities (window (drop (idx + 1) (blk_body blk)))"
  shows "P w' \<and>
    (case r of
       Inl rep \<Rightarrow> \<not> drift_report rep
     | Inr scope' \<Rightarrow>
         (\<exists>i'. actors' = actors_put (ident_name (blk_actor blk)) i' actors \<and>
            op_type_name ops i' = op_type_name ops i \<and>
            (mode_of i' = next_mode (mode_of i) tr S \<or> scope_get scope' ''error'' = None \<and> False \<in> S)))"
proof -
  from assms(4) obtain cd k where
    res: "resolve_command ty (ident_name (cmd_name cmd)) (cmd_positional_args cmd) = Some (cd, k)"
    and mode: "mode_of i \<in> set (cd_valid_in_modes cd)"
    and known: "list_all squiggles_known (drop k (cmd_positional_args cmd))"
      "list_all (\<lambda>kw. kwvalue_known (kw_value kw)) (cmd_keyword_args cmd)"
    and fit: "kwargs_match (cmd_keyword_args cmd) (cd_keyword cd)"
      "length (cd_positional cd) \<le> length (cmd_positional_args cmd) - k"
    and tr: "tr = cd_transitions_to cd"
    by (auto simp: accept_command_def split: option.splits if_splits)
  have cd: "find_command ty (cd_name cd) = Some cd" by (rule find_command_resolved [OF assms(3) res])
  let ?s = "scope_unbind ''error'' (scope_unbind ''ok'' scope)"
  show ?thesis
  proof (cases "eval_command_args cmd k ?s")
    case (Inl e)
    with assms(1,5) res eval_command_args_error [OF known Inl] show ?thesis
      by (auto simp: run_command_def Let_def drift_error_def)
  next
    case (Inr args)
    obtain out i' w1 where ex: "op_execute ops i (cd_name cd) args w = (out, i', w1)"
      by (cases "op_execute ops i (cd_name cd) args w")
    have "call_ok ops mode_of i (cd_name cd) args"
      using assms(3) cd mode eval_command_args_fit [OF Inr fit] by (simp add: call_ok_def)
    then have P: "P w1" by (rule execute_P [OF assms(5) _ ex])
    note ty = execute_type [OF ex]
    show ?thesis
    proof (cases out)
      case (RunOk d)
      from execute_ok [OF ex [unfolded RunOk] assms(3) cd mode]
      have "mode_of i' = next_mode (mode_of i) tr S \<or> False \<in> S"
        by (auto simp: next_mode_def tr)
      with assms(1,2) res Inr ex RunOk P ty show ?thesis by (auto simp: run_command_def Let_def)
    next
      case (RunError variant d)
      have "mode_of i' = next_mode (mode_of i) tr S" if "block_has_error_ref_after blk idx"
      proof -
        have "keeps (cd_name cd)" using assms(6) [OF that] resolve_command_names [OF res] by (simp add: list_all_iff)
        from execute_error [OF ex [unfolded RunError] assms(3) cd mode this] that show ?thesis
          by (simp add: next_mode_def block_has_error_ref_after_def error_ref_scan_iff S_def)
      qed
      with assms(1,2) res Inr ex RunError P ty show ?thesis
        by (auto simp: run_command_def Let_def split: if_splits)
    next
      case (RunNotImplemented x c)
      with assms(1,2) res Inr ex P show ?thesis by (auto simp: run_command_def Let_def)
    qed
  qed
qed

lemma run_statements_sim:
  assumes "run_statements ops rx ty blk idx rest scope actors w = (r, actors', w')"
    and "rest = drop idx (blk_body blk)"
    and "actors_get actors (ident_name (blk_actor blk)) = Some i"
    and "registry_get registry_global (op_type_name ops i) = Some ty"
    and "accept_commands ty mv rest = Some m'" and "list_all stmt_known (window rest)"
    and "block_reserved keeps rest" and "''error'' \<notin> fst ` set actors" and "P w"
    and "mode_of i = mv \<or> scope_get scope ''error'' = None \<and> False \<in> polarities (window rest)"
  shows "P w' \<and>
    (case r of
       Inl rep \<Rightarrow> \<not> drift_report rep
     | Inr _ \<Rightarrow>
         (\<exists>i'. actors' = actors_put (ident_name (blk_actor blk)) i' actors \<and>
            op_type_name ops i' = op_type_name ops i \<and> mode_of i' = m'))"
  using assms
proof (induction rest arbitrary: idx scope actors w i mv)
  case Nil
  then show ?case by (auto intro!: exI [of _ i] simp: actors_put_same)
next
  case (Cons s rest)
  obtain r1 actors1 w1 where s: "run_statement ops rx ty blk idx s scope actors w = (r1, actors1, w1)"
    by (cases "run_statement ops rx ty blk idx s scope actors w")
  have rest: "rest = drop (idx + 1) (blk_body blk)"
    using Cons.prems(2) by (metis drop_Suc list.sel(3) Suc_eq_plus1 tl_drop)
  show ?case
  proof (cases "is_command s")
    case False
    have win: "window (s # rest) = s # window rest" and acc: "accept_commands ty mv (s # rest) = accept_commands ty mv rest"
      using False by (cases s; simp)+
    have simple: "actors1 = actors \<and> w1 = w \<and>
        (case r1 of
           Inl rep \<Rightarrow> \<not> drift_report rep
         | Inr scope' \<Rightarrow> scope_get scope' ''error'' = scope_get scope ''error'' \<and>
             (scope_get scope ''error'' = None \<longrightarrow> polarity s \<noteq> Some False))"
      by (rule run_simple_statement [OF s False]) (use Cons.prems(6-8) win in auto)
    show ?thesis
    proof (cases r1)
      case (Inl rep)
      with simple s Cons.prems(1,9) show ?thesis by auto
    next
      case (Inr scope')
      have modes: "mode_of i = mv \<or> scope_get scope' ''error'' = None \<and> False \<in> polarities (window rest)"
        using Cons.prems(10) simple Inr by (auto simp: win)
      have run: "run_statements ops rx ty blk (idx + 1) rest scope' actors w = (r, actors', w')"
        using Cons.prems(1) s Inr simple by simp
      have spec: "accept_commands ty mv rest = Some m'" "list_all stmt_known (window rest)"
        "block_reserved keeps rest"
        using Cons.prems(5-7) by (simp_all add: win acc)
      show ?thesis
        by (rule Cons.IH [OF run rest Cons.prems(3,4) spec Cons.prems(8,9) modes])
    qed
  next
    case True
    then obtain cmd where cmd: "s = SCommand cmd" by (cases s) simp_all
    have mv: "mode_of i = mv" using Cons.prems(10) by (simp add: cmd)
    obtain tr where tr: "accept_command ty mv cmd = Some tr" "window_ok (window rest)"
      "accept_commands ty (next_mode mv tr (polarities (window rest))) rest = Some m'"
      using Cons.prems(5) by (auto simp: cmd split: option.splits if_splits)
    let ?a = "ident_name (blk_actor blk)"
    have kept: "list_all keeps (command_names cmd)" if "block_has_error_ref_after blk idx"
      using that Cons.prems(7) rest by (simp add: cmd block_has_error_ref_after_def)
    have "run_command ops ty blk idx cmd (bind_self ops actors ?a scope) actors w = (r1, actors1, w1)"
      using s by (simp add: cmd run_statement_def)
    note sim = run_command_sim [OF this Cons.prems(3,4) tr(1) [folded mv] Cons.prems(9),
        folded rest, unfolded mv, OF kept]
    show ?thesis
    proof (cases r1)
      case (Inl rep)
      with sim s Cons.prems(1) show ?thesis by auto
    next
      case (Inr scope')
      with sim obtain i1 where i1: "actors1 = actors_put ?a i1 actors"
        "op_type_name ops i1 = op_type_name ops i"
        "mode_of i1 = next_mode mv tr (polarities (window rest)) \<or>
         scope_get scope' ''error'' = None \<and> False \<in> polarities (window rest)" and w1: "P w1"
        by auto
      have run: "run_statements ops rx ty blk (idx + 1) rest scope' actors1 w1 = (r, actors', w')"
        using Cons.prems(1) s Inr by simp
      have get: "actors_get actors1 ?a = Some i1" "''error'' \<notin> fst ` set actors1"
        "registry_get registry_global (op_type_name ops i1) = Some ty"
        using Cons.prems(3,4,8) by (simp_all add: i1(1,2) actors_get_put)
      have spec: "list_all stmt_known (window rest)" "block_reserved keeps rest"
        using tr(2) Cons.prems(7) by (simp_all add: window_ok_def)
      from Cons.IH [OF run rest get(1,3) tr(3) spec get(2) w1 i1(3)] show ?thesis
        by (auto simp: i1(1,2) split: sum.splits)
    qed
  qed
qed

end

section \<open>Simulation of files\<close>

text \<open>Every block comes after the declaration of its actor.\<close>

fun uses_declared :: "string set \<Rightarrow> top_level list \<Rightarrow> bool" where
  "uses_declared names [] = True"
| "uses_declared names (TActorDeclaration decl # items) =
     uses_declared (insert (ident_name (decl_name decl)) names) items"
| "uses_declared names (TAsBlock blk # items) =
     (ident_name (blk_actor blk) \<in> names \<and> uses_declared names items)"

text \<open>No actor is called \<open>error\<close>, and the blocks are reserved as above.\<close>

fun item_reserved :: "(string \<Rightarrow> bool) \<Rightarrow> top_level \<Rightarrow> bool" where
  "item_reserved keeps (TActorDeclaration decl) = (ident_name (decl_name decl) \<noteq> ''error'')"
| "item_reserved keeps (TAsBlock blk) = block_reserved keeps (blk_body blk)"

text \<open>What the declaration pass of the specification leaves behind.\<close>

definition decls_match :: "env \<Rightarrow> top_level list \<Rightarrow> bool" where
  "decls_match env items \<longleftrightarrow> distinct (decl_names items) \<and>
     (\<forall>decl. TActorDeclaration decl \<in> set items \<longrightarrow>
        (\<exists>ty. registry_get registry_global (ident_name (decl_actor_type decl)) = Some ty \<and>
           env (ident_name (decl_name decl)) = Some (ty, at_initial_mode ty) \<and> decl_ok ty decl))"

lemma accept_decls_keep:
  "option_fold (accept_decl_item reg) items env = Some env' \<Longrightarrow>
   (\<forall>n \<in> dom env. env' n = env n) \<and> set (decl_names items) \<inter> dom env = {}"
proof (induction items arbitrary: env)
  case (Cons x items)
  then show ?case
    by (cases x) (fastforce simp: accept_decl_def dom_def split: option.splits if_splits)+
qed simp

lemma accept_decls_match:
  "option_fold (accept_decl_item registry_global) items env = Some env' \<Longrightarrow> decls_match env' items"
proof (induction items arbitrary: env)
  case (Cons x items)
  show ?case
  proof (cases x)
    case (TActorDeclaration decl)
    let ?n = "ident_name (decl_name decl)"
    obtain ty where ty: "registry_get registry_global (ident_name (decl_actor_type decl)) = Some ty"
      "option_fold (accept_decl_item registry_global) items (env(?n \<mapsto> (ty, at_initial_mode ty))) = Some env'"
      "decl_ok ty decl"
      using Cons.prems TActorDeclaration by (auto simp: accept_decl_def split: option.splits if_splits)
    with accept_decls_keep [OF ty(2)] Cons.IH [OF ty(2)] show ?thesis
      by (auto simp: TActorDeclaration decls_match_def)
  next
    case (TAsBlock blk)
    with Cons show ?thesis by (auto simp: decls_match_def)
  qed
qed (simp add: decls_match_def)

lemma decl_names_in: "TActorDeclaration decl \<in> set items \<Longrightarrow> ident_name (decl_name decl) \<in> set (decl_names items)"
  by (force simp: decl_names_def)

lemma actors_get_in: "actors_get actors n = Some i \<Longrightarrow> n \<in> fst ` set actors"
  by (auto simp: actors_get_eq dest!: map_of_SomeD) force

lemma actors_in_get: "n \<in> fst ` set actors \<Longrightarrow> \<exists>i. actors_get actors n = Some i"
  unfolding actors_get_eq by (metis map_of_eq_None_iff option.exhaust)

text \<open>Each live instance has the type and mode the specification has for its name.\<close>

definition live :: "('i, 'w) instance_ops \<Rightarrow> ('i \<Rightarrow> mode) \<Rightarrow> env \<Rightarrow> 'i actors \<Rightarrow> bool" where
  "live ops mode_of env actors \<longleftrightarrow> (\<forall>n i. actors_get actors n = Some i \<longrightarrow>
     (\<exists>ty. env n = Some (ty, mode_of i) \<and> registry_get registry_global (op_type_name ops i) = Some ty))"

lemma live_push:
  assumes "live ops mode_of env actors" and "env n = Some (ty, mode_of i)"
    and "registry_get registry_global (op_type_name ops i) = Some ty"
  shows "live ops mode_of env (actors_push n i actors)"
  unfolding live_def
proof (intro allI impI)
  fix k j assume get: "actors_get (actors_push n i actors) k = Some j"
  show "\<exists>ty. env k = Some (ty, mode_of j) \<and> registry_get registry_global (op_type_name ops j) = Some ty"
  proof (cases "actors_get actors k")
    case None
    with get assms(2,3) show ?thesis by (simp add: actors_get_push split: if_splits)
  next
    case (Some x)
    with get assms(1) show ?thesis by (simp add: actors_get_push live_def)
  qed
qed

lemma decls_match_block:
  assumes "decls_match env (TAsBlock blk # items)" and "accept_block blk env = Some env'"
    and "ident_name (blk_actor blk) \<notin> set (decl_names items)"
  shows "decls_match env' items"
proof -
  have same: "env' n = env n" if "n \<noteq> ident_name (blk_actor blk)" for n
    using assms(2) that by (auto simp: accept_block_def split: option.splits if_splits prod.splits)
  have "env' (ident_name (decl_name decl)) = env (ident_name (decl_name decl))"
    if "TActorDeclaration decl \<in> set items" for decl
    by (rule same) (use decl_names_in [OF that] assms(3) in metis)
  with assms(1) show ?thesis by (simp add: decls_match_def)
qed

context watched_runtime
begin

lemma teardown_all_P: "P w \<Longrightarrow> P (snd (teardown_all ops actors w))"
proof -
  have "P w \<Longrightarrow> P (snd (teardown_seq ops entries w))" for entries w
  proof (induction entries arbitrary: w)
    case (Cons e entries)
    obtain t w1 where "op_teardown ops (snd e) w = (t, w1)" by (cases "op_teardown ops (snd e) w")
    with Cons teardown_P [OF Cons.prems this] show ?case
      by (simp add: teardown_one_def split_beta Let_def)
  qed simp
  then show "P w \<Longrightarrow> P (snd (teardown_all ops actors w))" by (simp add: teardown_all_eq)
qed

lemma construct_actor_sim:
  assumes "construct_actor ops decl dir w = (r, w')" and "P w"
    and "registry_get registry_global (ident_name (decl_actor_type decl)) = Some ty" and "decl_ok ty decl"
  shows "P w'" and "r = Inr i \<Longrightarrow>
    registry_get registry_global (op_type_name ops i) = Some ty \<and> mode_of i = at_initial_mode ty"
    and "r = Inl msg \<Longrightarrow> \<not> drift_msg msg"
proof -
  have "wf_registry registry_global" by (simp add: wf_registry_def registry_global_eq wf_builtin)
  from wf_registry_get [OF this assms(3)] have nm: "at_name ty = ident_name (decl_actor_type decl)" by simp
  from assms(4) have kwargs: "kwargs_match (decl_keyword_args decl) (at_constructor_keyword ty)"
    "list_all (\<lambda>kw. kwvalue_known (kw_value kw)) (decl_keyword_args decl)"
    and vars: "list_all (\<lambda>var. pred_option squiggles_known (var_default var)) (decl_vars decl)"
    by (simp_all add: decl_ok_def)
  have "construct_ok (at_name ty) \<lparr>ca_keyword = d, ca_source_dir = dir, ca_vars = vs\<rparr>"
    if "eval_keyword_args (decl_keyword_args decl) scope_new = Inr d" for d vs
    using kwargs_match_fit [OF kwargs(1) that] assms(3) nm by (simp add: construct_ok_def)
  from construct_P [OF assms(2) this] show "P w'"
    using assms by (auto simp: construct_actor_def Let_def split: sum.splits prod.splits)
  { assume r: "r = Inr i"
    with assms(1,3) obtain cargs where "op_construct ops (at_name ty) cargs w = (Inr i, w')"
      by (auto simp: construct_actor_def Let_def map_sum_Inr_id split: sum.splits prod.splits)
    from construct_law [OF this] assms(3) nm show
      "registry_get registry_global (op_type_name ops i) = Some ty \<and> mode_of i = at_initial_mode ty"
      by simp }
  have default: "\<not> drift_error e" if "var \<in> set (decl_vars decl)" "var_default var = Some x" "eval x scope_new = Inl e"
    for var x e
    using vars that eval_no_drift [of x scope_new e] by (auto simp: list_all_iff)
  assume "r = Inl msg"
  with assms(1,3) construct_error eval_keyword_args_error [OF kwargs(2)] default show "\<not> drift_msg msg"
    by (auto simp: construct_actor_def Let_def map_sum_Inl_id map_sum_id_Inl drift_error_def
        split: sum.splits prod.splits option.splits dest!: try_map_InlD)
qed

lemma run_as_block_sim:
  assumes "run_as_block ops rx blk actors w = (r, actors', w')" and "live ops mode_of env actors" and "P w"
    and "ident_name (blk_actor blk) \<in> fst ` set actors" and "accept_block blk env = Some env'"
    and "block_reserved keeps (blk_body blk)" and "''error'' \<notin> fst ` set actors"
  shows "P w' \<and> (case r of Inl rep \<Rightarrow> \<not> drift_report rep | Inr _ \<Rightarrow> live ops mode_of env' actors')"
proof -
  let ?a = "ident_name (blk_actor blk)"
  from assms(4) obtain i where i: "actors_get actors ?a = Some i" using actors_in_get by metis
  with assms(2) obtain ty where ty: "env ?a = Some (ty, mode_of i)"
    "registry_get registry_global (op_type_name ops i) = Some ty" by (auto simp: live_def)
  from assms(5) ty obtain m' where m': "accept_commands ty (mode_of i) (blk_body blk) = Some m'"
    "window_ok (window (blk_body blk))" "env' = env(?a \<mapsto> (ty, m'))"
    by (auto simp: accept_block_def split: if_splits)
  have run: "run_statements ops rx ty blk 0 (blk_body blk) scope_new actors w = (r, actors', w')"
    using assms(1) i ty by (simp add: run_as_block_def)
  have known: "list_all stmt_known (window (blk_body blk))" using m'(2) by (simp add: window_ok_def)
  have "P w' \<and> (case r of
       Inl rep \<Rightarrow> \<not> drift_report rep
     | Inr _ \<Rightarrow> (\<exists>i'. actors' = actors_put ?a i' actors \<and>
         op_type_name ops i' = op_type_name ops i \<and> mode_of i' = m'))"
    by (rule run_statements_sim [OF run _ i ty(2) m'(1) known assms(6,7,3)]) simp_all
  then show ?thesis
    using assms(2) i ty m'(3) by (auto simp: live_def actors_get_put split: sum.splits)
qed

lemma run_items_sim:
  assumes "run_items ops rx dir items actors w = (stmts, actors', w')" and "live ops mode_of env actors"
    and "uses_declared (fst ` set actors) items" and "decls_match env items"
    and "set (decl_names items) \<inter> fst ` set actors = {}"
    and "option_fold accept_block_item items env = Some env'"
    and "list_all (item_reserved keeps) items" and "''error'' \<notin> fst ` set actors" and "P w"
  shows "P w' \<and> list_all (\<lambda>r. \<not> drift_report r) stmts"
  using assms
proof (induction items arbitrary: actors w env)
  case (Cons x items)
  show ?case
  proof (cases x)
    case (TActorDeclaration decl)
    let ?n = "ident_name (decl_name decl)"
    from Cons.prems(4) TActorDeclaration obtain ty where
      ty: "registry_get registry_global (ident_name (decl_actor_type decl)) = Some ty"
      "env ?n = Some (ty, at_initial_mode ty)" "decl_ok ty decl" by (auto simp: decls_match_def)
    obtain r w1 where c: "construct_actor ops decl dir w = (r, w1)"
      by (cases "construct_actor ops decl dir w")
    note sim = construct_actor_sim [OF c Cons.prems(9) ty(1,3)]
    show ?thesis
    proof (cases r)
      case (Inl msg)
      with Cons.prems(1) sim(1,3) show ?thesis by (auto simp: TActorDeclaration c)
    next
      case (Inr i)
      have names: "fst ` set (actors_push ?n i actors) = insert ?n (fst ` set actors)"
        by (auto simp: actors_push_def)
      have "live ops mode_of env (actors_push ?n i actors)"
        by (rule live_push [OF Cons.prems(2)]) (use ty(2) sim(2) [OF Inr] in simp_all)
      then show ?thesis
        using Cons.IH [of "actors_push ?n i actors" w1 env] Cons.prems sim(1)
        by (auto simp: TActorDeclaration c Inr names decls_match_def)
    qed
  next
    case (TAsBlock blk)
    let ?a = "ident_name (blk_actor blk)"
    from Cons.prems(6) TAsBlock obtain env1 where env1: "accept_block blk env = Some env1"
      "option_fold accept_block_item items env1 = Some env'" by (auto split: option.splits)
    obtain r actors1 w1 where b: "run_as_block ops rx blk actors w = (r, actors1, w1)"
      by (cases "run_as_block ops rx blk actors w")
    have names: "fst ` set actors1 = fst ` set actors"
      using run_as_block_names [OF b] by (metis list.set_map)
    have a: "?a \<in> fst ` set actors" using Cons.prems(3) by (simp add: TAsBlock)
    have "P w1 \<and> (case r of Inl rep \<Rightarrow> \<not> drift_report rep | Inr _ \<Rightarrow> live ops mode_of env1 actors1)"
      by (rule run_as_block_sim [OF b Cons.prems(2,9) a env1(1)])
        (use Cons.prems(7,8) in \<open>simp_all add: TAsBlock\<close>)
    note sim = this
    have "set (decl_names items) \<inter> fst ` set actors = {}" using Cons.prems(5) by (simp add: TAsBlock)
    with a have "?a \<notin> set (decl_names items)" by (simp only: disjoint_iff) blast
    then have match: "decls_match env1 items"
      by (rule decls_match_block [OF Cons.prems(4) [unfolded TAsBlock] env1(1)])
    show ?thesis
    proof (cases r)
      case (Inl rep)
      with sim Cons.prems(1) show ?thesis by (auto simp: TAsBlock b)
    next
      case (Inr u)
      with sim have "live ops mode_of env1 actors1" "P w1" by simp_all
      with Inr Cons.prems match env1(2) show ?thesis
        by (intro Cons.IH [of actors1 w1 env1]) (simp_all add: TAsBlock b names)
    qed
  qed
qed simp

lemma execute_sim:
  assumes "validate source = []" and "uses_declared {} (src_items source)"
    and "list_all (item_reserved keeps) (src_items source)" and "P w"
  shows "P (snd (execute ops rx path source dir w)) \<and>
    list_all (\<lambda>r. \<not> drift_report r) (tr_statements (fst (execute ops rx path source dir w)))"
proof -
  from assms(1) obtain env0 env where
    env0: "option_fold (accept_decl_item registry_global) (src_items source) Map.empty = Some env0"
    and env: "option_fold accept_block_item (src_items source) env0 = Some env"
    by (auto simp: validate_Nil_iff accept_source_def split: option.splits)
  obtain stmts actors w1 where run: "run_items ops rx dir (src_items source) [] w = (stmts, actors, w1)"
    by (cases "run_items ops rx dir (src_items source) [] w")
  have "P w1 \<and> list_all (\<lambda>r. \<not> drift_report r) stmts"
    by (rule run_items_sim [OF run _ _ accept_decls_match [OF env0] _ env assms(3) _ assms(4)])
      (use assms(2) in \<open>simp_all add: live_def\<close>)
  then show ?thesis by (simp add: execute_def run split_beta Let_def teardown_all_P)
qed

end

section \<open>Monitored execution\<close>

text \<open>
  The same operations with a flag in the world that turns false when a command is called on an
  instance that is not in one of the command's modes, or a command or a constructor with arguments
  that its schema does not declare or without one that it requires.
\<close>

definition monitor ::
  "('i, 'w) instance_ops \<Rightarrow> ('i \<Rightarrow> mode) \<Rightarrow> ('i, 'w \<times> bool) instance_ops" where
  "monitor ops mode_of =
     \<lparr>op_construct = (\<lambda>n cargs (w, b).
        let (r, w') = op_construct ops n cargs w in (r, (w', b \<and> construct_ok n cargs))),
      op_type_name = op_type_name ops,
      op_execute = (\<lambda>i c args (w, b).
        let (out, i', w') = op_execute ops i c args w in (out, i', (w', b \<and> call_ok ops mode_of i c args))),
      op_teardown = (\<lambda>i (w, b). let (t, w') = op_teardown ops i w in (t, (w', b))),
      op_self_view = op_self_view ops\<rparr>"

lemma monitor_watched:
  assumes "moded_runtime ops mode_of keeps"
  shows "watched_runtime (monitor ops mode_of) mode_of keeps snd"
proof -
  have ok: "call_ok (monitor ops mode_of) mode_of i c args = call_ok ops mode_of i c args" for i c args
    by (simp add: call_ok_def monitor_def)
  have moded: "moded_runtime (monitor ops mode_of) mode_of keeps"
    using moded_runtime.construct_law [OF assms] moded_runtime.construct_error [OF assms] moded_runtime.execute_type [OF assms]
      moded_runtime.execute_ok [OF assms] moded_runtime.execute_error [OF assms]
    by unfold_locales (auto simp: monitor_def split: prod.splits)
  show ?thesis
    unfolding watched_runtime_def watched_runtime_axioms_def ok
    using moded by (auto simp: monitor_def split: prod.splits)
qed

end
