(* ===== verification/Ill_Args_Actor.thy ===== *)
theory Ill_Args_Actor
  imports Ill_Runtime Ill_Eval
begin

text \<open>
  The runtime half of \<open>args_actor\<close>, \<^verbatim>\<open>actor_type/args_actor/\<close>: member variables resolved from declared
  defaults and the process-wide \<open>--arg KEY=VALUE\<close> map. \<open>CLI_ARGS\<close>, a \<open>RwLock<BTreeMap>\<close> written
  once at start-up, is the argument \<open>cli\<close>.
\<close>

type_synonym cli_args = "(string \<times> string) list"

record args_instance =
  ai_members :: dict

definition coerce_to :: "string \<Rightarrow> val \<Rightarrow> string \<Rightarrow> runtime_error + val" where
  "coerce_to raw target var =
     (case target of
        VString _ \<Rightarrow> Inr (VString raw)
      | VNumber _ \<Rightarrow>
          (case parse_i64 raw of
             Some n \<Rightarrow> Inr (VNumber n)
           | None \<Rightarrow> Inl (RConstruct (''--arg `'' @ var @ ''`: cannot parse `'' @ raw @ ''` as a number'')))
      | VBool _ \<Rightarrow>
          (case parse_bool raw of
             Some b \<Rightarrow> Inr (VBool b)
           | None \<Rightarrow> Inl (RConstruct (''--arg `'' @ var @ ''`: expected `true` or `false`, got `'' @ raw @ ''`'')))
      | VAtom _ \<Rightarrow>
          Inr (VAtom (case raw of c # r \<Rightarrow> if c = CHR '':'' then r else raw | [] \<Rightarrow> raw))
      | other \<Rightarrow>
          Inl (RConstruct (''--arg `'' @ var @ ''`: default has type '' @ type_name other
            @ '', which cannot be set from the command line'')))"

text \<open>The \<open>match\<close> of \<open>construct\<close> on the override and the default of one variable.\<close>

definition resolve_var :: "cli_args \<Rightarrow> declared_var \<Rightarrow> runtime_error + val" where
  "resolve_var cli var =
     (case (map_of cli (dv_name var), dv_default var) of
        (Some raw, Some dflt) \<Rightarrow> coerce_to raw dflt (dv_name var)
      | (Some raw, None) \<Rightarrow> Inr (VString raw)
      | (None, Some dflt) \<Rightarrow> Inr dflt
      | (None, None) \<Rightarrow> Inl (RConstruct (''missing required --arg `'' @ dv_name var @ ''`'')))"

definition args_construct :: "construct_args \<Rightarrow> cli_args \<Rightarrow> runtime_error + args_instance" where
  "args_construct args cli =
     (case find (\<lambda>key. \<not> list_ex (\<lambda>v. dv_name v = key) (ca_vars args)) (map fst cli) of
        Some key \<Rightarrow> Inl (RConstruct (''--arg `'' @ key @ ''` is not a declared var on this args_actor''))
      | None \<Rightarrow>
          (case try_fold (\<lambda>var members.
                   case resolve_var cli var of
                     Inl e \<Rightarrow> Inl e
                   | Inr v \<Rightarrow> Inr (index_insert (dv_name var) v members)) (ca_vars args) [] of
             Inl e \<Rightarrow> Inl e
           | Inr members \<Rightarrow> Inr \<lparr>ai_members = members\<rparr>))"

definition args_type_name :: "args_instance \<Rightarrow> string" where
  "args_type_name inst = ''args_actor''"

definition args_execute :: "args_instance \<Rightarrow> string \<Rightarrow> command_args \<Rightarrow> run_outcome \<times> args_instance" where
  "args_execute inst cmd args =
     (if cmd = ''check'' then RunOk [] else RunNotImplemented ''args_actor'' cmd, inst)"

definition args_teardown :: "args_instance \<Rightarrow> teardown_outcome \<times> args_instance" where
  "args_teardown inst = (teardown_ok, inst)"

definition args_self_view :: "args_instance \<Rightarrow> dict option" where
  "args_self_view inst = Some (ai_members inst)"

section \<open>Resolution of the members\<close>

text \<open>An override never changes the variant of the value a default fixes.\<close>

lemma coerce_to_type_name: "coerce_to raw target n = Inr v \<Longrightarrow> type_name v = type_name target"
  by (cases target) (auto simp: coerce_to_def split: option.splits)

lemma coerce_to_typed: "coerce_to raw target n = Inr v \<Longrightarrow> value_type_of v = value_type_of target"
  by (cases target) (auto simp: coerce_to_def split: option.splits)

lemma coerce_to_wf:
  assumes "coerce_to raw target n = Inr v" and "utf8_valid (as_bytes raw)"
  shows "wf_val v"
proof -
  have "utf8_valid (as_bytes (CHR '':'' # r)) = utf8_valid (as_bytes r)" for r
    using utf8_valid_ascii_append [of "'':''" "as_bytes r"] by (simp add: is_ascii_def as_bytes_def)
  with assms show ?thesis
    by (cases target)
      (auto simp: coerce_to_def dest: parse_i64_range split: option.splits list.splits if_splits)
qed

lemma resolve_fold:
  "try_fold (\<lambda>var members. case resolve_var cli var of
       Inl e \<Rightarrow> Inl e | Inr v \<Rightarrow> Inr (index_insert (dv_name var) v members)) vars m =
   (case try_map (resolve_var cli) vars of
      Inl e \<Rightarrow> Inl e
    | Inr vs \<Rightarrow> Inr (fold (\<lambda>(k, v). index_insert k v) (zip (map dv_name vars) vs) m))"
  by (induction vars arbitrary: m) (auto split: sum.splits)

text \<open>The outcome of \<open>construct\<close> in closed form, for variables with distinct names.\<close>

lemma args_construct_eq:
  assumes "distinct (map dv_name (ca_vars args))"
    and "set (map fst cli) \<subseteq> dv_name ` set (ca_vars args)"
  shows "args_construct args cli =
    (case try_map (resolve_var cli) (ca_vars args) of
       Inl e \<Rightarrow> Inl e
     | Inr vs \<Rightarrow> Inr \<lparr>ai_members = zip (map dv_name (ca_vars args)) vs\<rparr>)"
proof -
  have "find (\<lambda>key. \<not> list_ex (\<lambda>v. dv_name v = key) (ca_vars args)) (map fst cli) = None"
    using assms(2) by (fastforce simp: find_None_iff list_ex_iff)
  moreover have "fold (\<lambda>(k, v). index_insert k v) (zip (map dv_name (ca_vars args)) vs) [] =
      zip (map dv_name (ca_vars args)) vs" if "length vs = length (ca_vars args)" for vs
    using assms(1) that by (intro index_build_distinct [of "[]", simplified]) simp
  ultimately show ?thesis
    by (auto simp: args_construct_def resolve_fold split: sum.splits dest: try_map_length)
qed

text \<open>
  What a member is to be: the default when there is no \<open>--arg\<close>, the text of the \<open>--arg\<close> when there is no
  default, and otherwise the value of the default's type that the text spells.
\<close>

fun spells :: "string \<Rightarrow> val \<Rightarrow> bool" where
  "spells raw (VString s) = (raw = s)"
| "spells raw (VNumber n) = (parse_i64 raw = Some n)"
| "spells raw (VBool b) = (parse_bool raw = Some b)"
| "spells raw (VAtom a) = (raw = '':'' @ a \<or> raw = a \<and> \<not> prefix '':'' a)"
| "spells raw _ = False"

definition member_value :: "cli_args \<Rightarrow> declared_var \<Rightarrow> val \<Rightarrow> bool" where
  "member_value cli var v =
     (case map_of cli (dv_name var) of
        None \<Rightarrow> dv_default var = Some v
      | Some raw \<Rightarrow>
          (case dv_default var of
             None \<Rightarrow> v = VString raw
           | Some d \<Rightarrow> value_type_of v = value_type_of d \<and> spells raw v))"

lemma coerce_to_iff: "coerce_to raw d n = Inr v \<longleftrightarrow> value_type_of v = value_type_of d \<and> spells raw v"
proof -
  have "(case raw of c # r \<Rightarrow> if c = CHR '':'' then r else raw | [] \<Rightarrow> raw) = a \<longleftrightarrow> spells raw (VAtom a)" for a
    by (cases raw) (auto simp: prefix_Cons)
  then show ?thesis by (cases d; cases v) (auto simp: coerce_to_def split: option.splits)
qed

lemma resolve_var_iff: "resolve_var cli var = Inr v \<longleftrightarrow> member_value cli var v"
  by (auto simp: resolve_var_def member_value_def coerce_to_iff split: option.splits)

lemma args_construct_iff:
  assumes "distinct (map dv_name (ca_vars args))"
  shows "args_construct args cli = Inr inst \<longleftrightarrow>
    set (map fst cli) \<subseteq> dv_name ` set (ca_vars args) \<and>
    list_all2 (\<lambda>var (n, v). n = dv_name var \<and> member_value cli var v) (ca_vars args) (ai_members inst)"
proof (cases "set (map fst cli) \<subseteq> dv_name ` set (ca_vars args)")
  case True
  have zip_iff: "m = zip (map dv_name (ca_vars args)) vs \<and> length vs = length (ca_vars args) \<and>
      list_all2 (\<lambda>var v. member_value cli var v) (ca_vars args) vs \<longleftrightarrow>
      vs = map snd m \<and> list_all2 (\<lambda>var (n, v). n = dv_name var \<and> member_value cli var v) (ca_vars args) m" for m vs
    by (auto simp: list_all2_conv_all_nth split_beta intro!: nth_equalityI prod_eqI)
  have "args_construct args cli = Inr inst \<longleftrightarrow>
      (\<exists>vs. try_map (resolve_var cli) (ca_vars args) = Inr vs \<and> ai_members inst = zip (map dv_name (ca_vars args)) vs)"
    by (cases inst) (auto simp: args_construct_eq [OF assms True] split: sum.splits)
  also have "\<dots> \<longleftrightarrow> (\<exists>vs. ai_members inst = zip (map dv_name (ca_vars args)) vs \<and> length vs = length (ca_vars args) \<and>
      list_all2 (\<lambda>var v. member_value cli var v) (ca_vars args) vs)"
    by (auto simp: try_map_Inr_iff resolve_var_iff list_all2_conv_all_nth)
  finally show ?thesis using True zip_iff [of "ai_members inst"] by auto
next
  case False
  then obtain key where "key \<in> set (map fst cli)" "key \<notin> dv_name ` set (ca_vars args)" by blast
  then have "key \<in> set (map fst cli)" "\<not> list_ex (\<lambda>v. dv_name v = key) (ca_vars args)" by (auto simp: list_ex_iff)
  then have "find (\<lambda>key. \<not> list_ex (\<lambda>v. dv_name v = key) (ca_vars args)) (map fst cli) \<noteq> None"
    by (auto simp: find_None_iff)
  with False show ?thesis by (auto simp: args_construct_def)
qed

end
