(* ===== verification/Ill_Services.thy ===== *)
theory Ill_Services
  imports Ill_Runtime Ill_Actor_Types
begin

text \<open>
  What the runtimes of the service actors share: paths and I/O errors of the standard library,
  durations and the clock, the rendering of an \<open>env:\<close> dict, and the retry loop with a deadline that
  \<^verbatim>\<open>pg_client/runtime.rs\<close> and \<^verbatim>\<open>mqtt_client/runtime.rs\<close> both write out. The world \<open>'w\<close> stands for
  everything outside the process; an awaited call is a function on it.
\<close>

section \<open>Paths\<close>

text \<open>\<open>Path::is_absolute\<close> and \<open>Path::join\<close> on Unix.\<close>

definition path_is_absolute :: "string \<Rightarrow> bool" where
  "path_is_absolute p \<longleftrightarrow> p \<noteq> [] \<and> hd p = CHR ''/''"

definition path_join :: "string \<Rightarrow> string \<Rightarrow> string" where
  "path_join base p =
     (if path_is_absolute p then p
      else if base = [] \<or> last base = CHR ''/'' then base @ p
      else base @ ''/'' @ p)"

lemma path_join_absolute [simp]: "path_is_absolute p \<Longrightarrow> path_join base p = p"
  by (simp add: path_join_def)

lemma path_is_absolute_join:
  "path_is_absolute (path_join base p) \<longleftrightarrow> path_is_absolute p \<or> path_is_absolute base"
  by (auto simp: path_join_def path_is_absolute_def hd_append)

section \<open>I/O errors\<close>

text \<open>The kinds of \<open>std::io::ErrorKind\<close> that the runtimes tell apart; the rest are \<open>IoOther\<close>.\<close>

datatype io_error_kind =
    IoNotFound | IoPermissionDenied | IoConnectionRefused | IoTimedOut | IoConnectionReset
  | IoConnectionAborted | IoBrokenPipe | IoOther

record io_error =
  io_kind :: io_error_kind
  io_display :: string

section \<open>Durations\<close>

text \<open>A \<open>Duration\<close> and an \<open>Instant\<close> are a number of nanoseconds.\<close>

type_synonym duration = nat

definition from_millis :: "nat \<Rightarrow> duration" where
  "from_millis n = n * 1000000"

definition from_secs :: "nat \<Rightarrow> duration" where
  "from_secs n = n * 1000000000"

text \<open>
  The three time-outs in milliseconds read a positive number; everything else falls to the default
  (\<open>*n as u64\<close> of a positive \<open>i64\<close> is the number itself).
\<close>

definition millis_or :: "val option \<Rightarrow> duration \<Rightarrow> duration" where
  "millis_or v dflt =
     (case v of
        Some (VNumber n) \<Rightarrow> if 0 < n then from_millis (nat n) else dflt
      | _ \<Rightarrow> dflt)"

lemma millis_or_pos: "0 < dflt \<Longrightarrow> 0 < millis_or v dflt"
  by (auto simp: millis_or_def from_millis_def split: option.splits val.splits)

section \<open>Environment dicts\<close>

text \<open>
  \<open>apply_env\<close> of \<^verbatim>\<open>exec/runtime.rs\<close> and \<^verbatim>\<open>container/runtime.rs\<close>: the pairs handed to the command
  or container builder, in the dict's order, or the message of the first value that is not
  string-like. Both callers drop the message.
\<close>

fun env_value :: "val \<Rightarrow> string option" where
  "env_value (VString s) = Some s"
| "env_value (VNumber n) = Some (show_int n)"
| "env_value (VBool b) = Some (show_bool b)"
| "env_value (VAtom a) = Some a"
| "env_value _ = None"

definition apply_env :: "val \<Rightarrow> string + (string \<times> string) list" where
  "apply_env env =
     (case env of
        VDict entries \<Rightarrow>
          try_map (\<lambda>(k, v).
            case env_value v of
              Some s \<Rightarrow> Inr (k, s)
            | None \<Rightarrow> Inl (''env value for `'' @ k @ ''` is '' @ type_name v @ '' (expected string-like)''))
            entries
      | other \<Rightarrow> Inl (''`env` must be a dict, got '' @ type_name other))"

definition env_ok :: "val \<Rightarrow> bool" where
  "env_ok env \<longleftrightarrow> (case env of VDict d \<Rightarrow> list_all (\<lambda>(k, v). env_value v \<noteq> None) d | _ \<Rightarrow> False)"

lemma apply_env_Inr_iff:
  "(\<exists>pairs. apply_env env = Inr pairs) \<longleftrightarrow> env_ok env"
proof (cases env)
  case (VDict d)
  have "(\<exists>pairs. try_map (\<lambda>(k, v). case env_value v of
       Some s \<Rightarrow> Inr (k, s)
     | None \<Rightarrow> Inl (''env value for `'' @ k @ ''` is '' @ type_name v @ '' (expected string-like)'')) d
      = Inr pairs) \<longleftrightarrow> list_all (\<lambda>(k, v). env_value v \<noteq> None) d"
    by (induction d) (auto split: sum.splits option.splits)
  with VDict show ?thesis by (simp add: apply_env_def env_ok_def)
qed (simp_all add: apply_env_def env_ok_def)

lemma apply_env_keys: "apply_env (VDict d) = Inr pairs \<Longrightarrow> map fst pairs = map fst d"
  by (induction d arbitrary: pairs) (auto simp: apply_env_def split: sum.splits option.splits)

section \<open>Connecting with a deadline\<close>

text \<open>
  The loop of \<open>Disconnected::connect\<close>, in \<open>pg_client\<close> and \<open>mqtt_client\<close> alike: attempt under the
  remaining budget, return on success, on an error that is not a transport error and on expiry,
  otherwise back off for at most 200 ms and try again. An attempt answers \<open>None\<close> when
  \<open>tokio::time::timeout\<close> expired first. The fuel counts attempts; \<open>None\<close> is a loop that used it up.
\<close>

record 'w clock =
  clk_now :: "'w \<Rightarrow> nat"
  clk_sleep :: "duration \<Rightarrow> 'w \<Rightarrow> 'w"

type_synonym ('a, 'w) attempt = "duration \<Rightarrow> 'w \<Rightarrow> (run_outcome + 'a) option \<times> 'w"

definition is_transient_connect_error :: "run_outcome \<Rightarrow> bool" where
  "is_transient_connect_error outcome =
     (case outcome of RunError variant _ \<Rightarrow> variant = ''network'' | _ \<Rightarrow> False)"

definition backoff_limit :: duration where
  "backoff_limit = from_millis 200"

fun connect_loop ::
  "nat \<Rightarrow> 'w clock \<Rightarrow> ('a, 'w) attempt \<Rightarrow> run_outcome \<Rightarrow> nat \<Rightarrow> run_outcome option \<Rightarrow> 'w
     \<Rightarrow> ((run_outcome + 'a) \<times> 'w) option" where
  "connect_loop 0 clk attempt expired deadline last_outcome w = None"
| "connect_loop (Suc fuel) clk attempt expired deadline last_outcome w =
     (let remaining = deadline - clk_now clk w
      in if remaining = 0 then
           Some (Inl (case last_outcome of Some out \<Rightarrow> out | None \<Rightarrow> expired), w)
         else
           (case attempt remaining w of
              (None, w1) \<Rightarrow> Some (Inl expired, w1)
            | (Some (Inr c), w1) \<Rightarrow> Some (Inr c, w1)
            | (Some (Inl outcome), w1) \<Rightarrow>
                if \<not> is_transient_connect_error outcome then Some (Inl outcome, w1)
                else connect_loop fuel clk attempt expired deadline (Some outcome)
                       (clk_sleep clk (min backoff_limit remaining) w1)))"

text \<open>
  The call with the deadline \<open>now + timeout\<close>. One attempt per full back-off, one for the rest of the
  budget and one to see it empty are enough fuel, by \<open>connect_loop_returns\<close> below; the value for an
  exhausted loop is never used.
\<close>

definition connect_within ::
  "'w clock \<Rightarrow> ('a, 'w) attempt \<Rightarrow> run_outcome \<Rightarrow> duration \<Rightarrow> 'w \<Rightarrow> (run_outcome + 'a) \<times> 'w" where
  "connect_within clk attempt expired timeout w =
     (case connect_loop (timeout div backoff_limit + 2) clk attempt expired (clk_now clk w + timeout) None w of
        Some result \<Rightarrow> result
      | None \<Rightarrow> (Inl expired, w))"

text \<open>\<open>Instant\<close> never goes back, and \<open>sleep\<close> waits for at least its argument.\<close>

definition steady_clock :: "'w clock \<Rightarrow> ('a, 'w) attempt \<Rightarrow> bool" where
  "steady_clock clk attempt \<longleftrightarrow>
     (\<forall>d w. clk_now clk w + d \<le> clk_now clk (clk_sleep clk d w)) \<and>
     (\<forall>d w. clk_now clk w \<le> clk_now clk (snd (attempt d w)))"

lemma backoff_limit_pos: "0 < backoff_limit"
  by (simp add: backoff_limit_def from_millis_def)

lemma backoff_step:
  assumes "steady_clock clk attempt" and "attempt remaining w = (r, w1)"
    and "remaining = deadline - clk_now clk w" and "0 < remaining"
  defines "w2 \<equiv> clk_sleep clk (min backoff_limit remaining) w1"
  shows "deadline - clk_now clk w2 \<le> remaining - min backoff_limit remaining"
proof -
  have "clk_now clk w \<le> clk_now clk w1" using assms(1,2) by (metis snd_conv steady_clock_def)
  moreover have "clk_now clk w1 + min backoff_limit remaining \<le> clk_now clk w2"
    using assms(1) by (simp add: steady_clock_def w2_def)
  ultimately show ?thesis using assms(3) by linarith
qed

lemma div_backoff_le:
  assumes "r' \<le> r - min backoff_limit r" and "0 < r"
  shows "r' = 0 \<or> r' div backoff_limit + 1 \<le> r div backoff_limit"
proof (cases "r < backoff_limit")
  case True
  with assms show ?thesis by simp
next
  case False
  with assms have "r' + backoff_limit \<le> r" by simp
  then have "(r' + backoff_limit) div backoff_limit \<le> r div backoff_limit" by (rule div_le_mono)
  then show ?thesis by (simp add: div_add_self2 less_imp_neq [OF backoff_limit_pos, symmetric])
qed

lemma connect_loop_returns:
  assumes "steady_clock clk attempt" and "(deadline - clk_now clk w) div backoff_limit + 2 \<le> fuel"
  shows "\<exists>result. connect_loop fuel clk attempt expired deadline last_outcome w = Some result"
  using assms(2)
proof (induction fuel arbitrary: last_outcome w)
  case (Suc fuel)
  define remaining where "remaining = deadline - clk_now clk w"
  obtain r w1 where att: "attempt remaining w = (r, w1)" by (cases "attempt remaining w")
  define w2 where "w2 = clk_sleep clk (min backoff_limit remaining) w1"
  have "\<exists>result. connect_loop fuel clk attempt expired deadline (Some out) w2 = Some result"
    if "0 < remaining" for out
  proof -
    have "deadline - clk_now clk w2 \<le> remaining - min backoff_limit remaining"
      unfolding w2_def by (rule backoff_step [OF assms(1) att remaining_def that])
    from div_backoff_le [OF this that] show ?thesis
    proof
      assume "deadline - clk_now clk w2 = 0"
      moreover obtain m where "fuel = Suc m" using Suc.prems by (cases fuel) auto
      ultimately show ?thesis by simp
    next
      assume "(deadline - clk_now clk w2) div backoff_limit + 1 \<le> remaining div backoff_limit"
      with Suc.prems show ?thesis by (intro Suc.IH) (simp add: remaining_def)
    qed
  qed
  then show ?case
    using att by (auto simp: remaining_def [symmetric] w2_def [symmetric] Let_def split: option.splits sum.splits)
qed simp

lemma connect_loop_more_fuel:
  "connect_loop fuel clk attempt expired deadline last_outcome w = Some result \<Longrightarrow>
   connect_loop (fuel + k) clk attempt expired deadline last_outcome w = Some result"
  by (induction fuel arbitrary: last_outcome w)
    (auto simp: Let_def split: option.splits sum.splits if_splits prod.splits)

text \<open>Hence the result does not depend on the fuel once the loop returns.\<close>

lemma connect_within_eq:
  assumes "steady_clock clk attempt" and "timeout div backoff_limit + 2 \<le> fuel"
  shows "connect_loop fuel clk attempt expired (clk_now clk w + timeout) None w =
    Some (connect_within clk attempt expired timeout w)"
proof -
  let ?n = "timeout div backoff_limit + 2"
  obtain result where
    r: "connect_loop ?n clk attempt expired (clk_now clk w + timeout) None w = Some result"
    using connect_loop_returns [OF assms(1), of "clk_now clk w + timeout" w ?n expired None] by auto
  have "connect_loop (?n + (fuel - ?n)) clk attempt expired (clk_now clk w + timeout) None w = Some result"
    by (rule connect_loop_more_fuel [OF r])
  with r show ?thesis unfolding connect_within_def le_add_diff_inverse [OF assms(2)] by simp
qed

text \<open>
  Whatever ends the loop, an error it returns is the expiry error or came from an attempt, and a
  connection came from an attempt.
\<close>

lemma connect_loop_from_attempt:
  assumes "connect_loop fuel clk attempt expired deadline last_outcome w = Some (r, w')"
    and "\<And>out. last_outcome = Some out \<Longrightarrow> Q (Inl out)" and "Q (Inl expired)"
    and "\<And>d w x w'. attempt d w = (Some x, w') \<Longrightarrow> Q x"
  shows "Q r"
  using assms
proof (induction fuel arbitrary: last_outcome w)
  case (Suc fuel)
  show ?case
  proof (cases "deadline - clk_now clk w = 0")
    case True
    with Suc.prems show ?thesis by (auto simp: Let_def split: option.splits)
  next
    case False
    obtain x w1 where att: "attempt (deadline - clk_now clk w) w = (x, w1)"
      by (cases "attempt (deadline - clk_now clk w) w")
    with False Suc.prems Suc.IH [of "Some (projl (the x))"] show ?thesis
      by (auto simp: Let_def split: option.splits sum.splits if_splits)
  qed
qed simp

declare connect_loop.simps(2) [simp del]

lemma connect_within_from_attempt:
  assumes "connect_within clk attempt expired timeout w = (r, w')" and "Q (Inl expired)"
    and "\<And>d w x w'. attempt d w = (Some x, w') \<Longrightarrow> Q x"
  shows "Q r"
proof (cases "connect_loop (timeout div backoff_limit + 2) clk attempt expired (clk_now clk w + timeout) None w")
  case None
  with assms(1,2) show ?thesis unfolding connect_within_def by (simp only: option.case prod.inject)
next
  case (Some res)
  with assms(1) have "res = (r, w')" unfolding connect_within_def by (simp only: option.case)
  show ?thesis
    by (rule connect_loop_from_attempt [where Q = Q, OF Some [unfolded \<open>res = (r, w')\<close>] _ assms(2)])
      (auto intro: assms(3))
qed

section \<open>What an actor's runtime owes its schema\<close>

text \<open>
  The schema of a command declares its modes, its transition, the fields of \<open>ok\<close> and the variants
  of \<open>error\<close>; the runtime of the actor is a separate piece of code. The locale states that the two
  agree for calls made in a valid mode. \<open>keeps\<close> holds of the commands whose failure leaves the mode
  alone, \<open>covers\<close> of the error variants of a command that its schema declares.
\<close>

definition declared_error :: "command_def \<Rightarrow> string \<Rightarrow> dict \<Rightarrow> bool" where
  "declared_error cd variant d =
     list_ex (\<lambda>et. et_name et = variant \<and> outcome_ok (et_fields et) d) (cd_error_types cd)"

definition mode_after :: "command_def \<Rightarrow> mode \<Rightarrow> mode" where
  "mode_after cd m = (case cd_transitions_to cd of None \<Rightarrow> m | Some m' \<Rightarrow> m')"

definition conforms ::
  "command_def \<Rightarrow> bool \<Rightarrow> (string \<Rightarrow> bool) \<Rightarrow> mode \<Rightarrow> run_outcome \<Rightarrow> mode \<Rightarrow> bool" where
  "conforms cd kept covered m out m' \<longleftrightarrow>
     (case out of
        RunOk d \<Rightarrow> m' = mode_after cd m \<and> outcome_ok (cd_ok_fields cd) d
      | RunError variant d \<Rightarrow> (kept \<longrightarrow> m' = m) \<and> (covered variant \<longrightarrow> declared_error cd variant d)
      | RunNotImplemented _ _ \<Rightarrow> False)"

locale service_actor =
  fixes ty :: actor_type
    and run :: "'i \<Rightarrow> string \<Rightarrow> command_args \<Rightarrow> 'w \<Rightarrow> run_outcome \<times> 'i \<times> 'w"
    and mode_of :: "'i \<Rightarrow> mode"
    and keeps :: "string \<Rightarrow> bool"
    and covers :: "string \<Rightarrow> string \<Rightarrow> bool"
  assumes conforms_law:
      "find_command ty c = Some cd \<Longrightarrow> mode_of i \<in> set (cd_valid_in_modes cd) \<Longrightarrow>
       run i c args w = (out, i', w') \<Longrightarrow>
       conforms cd (keeps c) (covers c) (mode_of i) out (mode_of i')"
begin

lemma ok_law:
  "find_command ty c = Some cd \<Longrightarrow> mode_of i \<in> set (cd_valid_in_modes cd) \<Longrightarrow>
   run i c args w = (RunOk d, i', w') \<Longrightarrow>
   mode_of i' = mode_after cd (mode_of i) \<and> outcome_ok (cd_ok_fields cd) d"
  by (drule (2) conforms_law) (simp add: conforms_def)

lemma error_law:
  "find_command ty c = Some cd \<Longrightarrow> mode_of i \<in> set (cd_valid_in_modes cd) \<Longrightarrow>
   run i c args w = (RunError variant d, i', w') \<Longrightarrow>
   (keeps c \<longrightarrow> mode_of i' = mode_of i) \<and> (covers c variant \<longrightarrow> declared_error cd variant d)"
  by (drule (2) conforms_law) (simp add: conforms_def)

text \<open>A command declared for the mode the instance is in is implemented there.\<close>

lemma implemented:
  "find_command ty c = Some cd \<Longrightarrow> mode_of i \<in> set (cd_valid_in_modes cd) \<Longrightarrow>
   run i c args w \<noteq> (RunNotImplemented a c', i', w')"
  using conforms_law [of c cd i args w "RunNotImplemented a c'" i' w'] by (auto simp: conforms_def)

text \<open>
  A session: commands run one after the other until one fails. When each is valid in the mode the
  schema predicts, the instance is in the predicted mode at the end.
\<close>

fun session_modes :: "string list \<Rightarrow> mode \<Rightarrow> mode option" where
  "session_modes [] m = Some m"
| "session_modes (c # cs) m =
     (case find_command ty c of
        None \<Rightarrow> None
      | Some cd \<Rightarrow> if m \<in> set (cd_valid_in_modes cd) then session_modes cs (mode_after cd m) else None)"

fun session :: "(string \<times> command_args) list \<Rightarrow> 'i \<Rightarrow> 'w \<Rightarrow> ('i \<times> 'w) option" where
  "session [] i w = Some (i, w)"
| "session ((c, args) # rest) i w =
     (case run i c args w of
        (RunOk _, i', w') \<Rightarrow> session rest i' w'
      | _ \<Rightarrow> None)"

lemma session_mode:
  "session calls i w = Some (i', w') \<Longrightarrow> session_modes (map fst calls) (mode_of i) = Some m \<Longrightarrow>
   mode_of i' = m"
proof (induction calls arbitrary: i w)
  case (Cons call calls)
  obtain c args where call: "call = (c, args)" by (cases call)
  obtain out i1 w1 where run: "run i c args w = (out, i1, w1)" by (cases "run i c args w")
  with Cons.prems(1) obtain d where out: "out = RunOk d" "session calls i1 w1 = Some (i', w')"
    by (cases out) (auto simp: call)
  from Cons.prems(2) obtain cd where cd: "find_command ty c = Some cd"
    "mode_of i \<in> set (cd_valid_in_modes cd)"
    "session_modes (map fst calls) (mode_after cd (mode_of i)) = Some m"
    by (auto simp: call split: option.splits if_splits)
  from ok_law [OF cd(1,2) run [unfolded out(1)]] cd(3) Cons.IH [OF out(2)] show ?case by simp
qed simp

end

end
