(* ===== verification/Ill_Exec.thy ===== *)
theory Ill_Exec
  imports Ill_Services
begin

text \<open>
  The runtime half of the \<open>exec\<close> actor, \<^verbatim>\<open>actor_type/exec/runtime.rs\<close>: a state machine whose running
  mode owns a child process. The shell splitter (\<open>shlex\<close>), the file system and the operating system's
  process interface as \<open>tokio::process\<close> gives it are the record \<open>exec_services\<close>; \<open>'c\<close> is a child.
\<close>

section \<open>Services\<close>

record spawn_request =
  sp_program :: path_buf
  sp_args :: "string list"
  sp_current_dir :: path_buf
  sp_env :: "(string \<times> string) list"
  sp_kill_on_drop :: bool

text \<open>\<open>es_wait_for\<close> is \<open>timeout(d, child.wait())\<close>: \<open>None\<close> when the time is up first.\<close>

record ('c, 'w) exec_services =
  es_split :: "string \<Rightarrow> string list option"
  es_is_dir :: "path_buf \<Rightarrow> 'w \<Rightarrow> bool"
  es_spawn :: "spawn_request \<Rightarrow> 'w \<Rightarrow> (io_error + 'c) \<times> 'w"
  es_child_id :: "'c \<Rightarrow> 'w \<Rightarrow> nat option"
  es_sigterm :: "nat \<Rightarrow> 'w \<Rightarrow> 'w"
  es_wait_for :: "duration \<Rightarrow> 'c \<Rightarrow> 'w \<Rightarrow> (io_error + unit) option \<times> 'w"
  es_start_kill :: "'c \<Rightarrow> 'w \<Rightarrow> (io_error + unit) \<times> 'w"
  es_wait :: "'c \<Rightarrow> 'w \<Rightarrow> 'w"

section \<open>State\<close>

datatype 'c exec_mode = ExStopped | ExRunning 'c

record 'c exec_instance =
  ex_target :: string
  ex_source_dir :: path_buf
  ex_working_dir :: path_buf
  ex_mode :: "'c exec_mode"

definition exec_run_error :: "string \<Rightarrow> run_outcome" where
  "exec_run_error reason = RunError ''exec'' (into_dict exec_error_fields [VAtom reason])"

definition classify_spawn_error :: "io_error \<Rightarrow> string" where
  "classify_spawn_error e =
     (case io_kind e of
        IoNotFound \<Rightarrow> ''command_not_found''
      | IoPermissionDenied \<Rightarrow> ''permission_denied''
      | _ \<Rightarrow> ''spawn_failed'')"

definition teardown_grace :: duration where
  "teardown_grace = from_secs 2"

section \<open>Construction\<close>

definition resolve_cwd ::
  "('c, 'w) exec_services \<Rightarrow> string \<Rightarrow> path_buf \<Rightarrow> 'w \<Rightarrow> runtime_error + path_buf" where
  "resolve_cwd sv cwd source_dir w =
     (if cwd = [] then Inl (RConstruct ''exec `cwd` must not be empty'')
      else
        let resolved = (if path_is_absolute cwd then cwd else path_join source_dir cwd)
        in if \<not> es_is_dir sv resolved w then
             Inl (RConstruct (''exec `cwd` does not exist or is not a directory: '' @ resolved))
           else Inr resolved)"

definition exec_construct ::
  "('c, 'w) exec_services \<Rightarrow> construct_args \<Rightarrow> 'w \<Rightarrow> runtime_error + 'c exec_instance" where
  "exec_construct sv args w =
     (case ca_kw args ''command'' of
        None \<Rightarrow> Inl (RMissingKwarg ''command'')
      | Some (VString target) \<Rightarrow>
          (let working_dir =
             (case ca_kw args ''cwd'' of
                None \<Rightarrow> Inr (ca_source_dir args)
              | Some (VString s) \<Rightarrow> resolve_cwd sv s (ca_source_dir args) w
              | Some other \<Rightarrow> Inl (RTypeMismatch ''string'' (type_name other) ''exec `cwd`''))
           in case working_dir of
                Inl e \<Rightarrow> Inl e
              | Inr dir \<Rightarrow>
                  Inr \<lparr>ex_target = target, ex_source_dir = ca_source_dir args, ex_working_dir = dir,
                       ex_mode = ExStopped\<rparr>)
      | Some other \<Rightarrow> Inl (RTypeMismatch ''string'' (type_name other) ''exec `command`''))"

section \<open>Commands\<close>

definition resolve_program :: "string \<Rightarrow> path_buf \<Rightarrow> path_buf" where
  "resolve_program program source_dir =
     (if path_is_absolute program then program
      else if CHR ''/'' \<notin> set program \<and> CHR 0x5C \<notin> set program then program
      else path_join source_dir program)"

definition stopped_run ::
  "('c, 'w) exec_services \<Rightarrow> string \<Rightarrow> path_buf \<Rightarrow> path_buf \<Rightarrow> val option \<Rightarrow> 'w
     \<Rightarrow> 'c exec_mode \<times> run_outcome \<times> 'w" where
  "stopped_run sv target source_dir working_dir env w =
     (case es_split sv target of
        Some (program # rest) \<Rightarrow>
          (case (case env of None \<Rightarrow> Inr [] | Some v \<Rightarrow> apply_env v) of
             Inl _ \<Rightarrow> (ExStopped, exec_run_error ''bad_env'', w)
           | Inr vars \<Rightarrow>
               (case es_spawn sv
                       \<lparr>sp_program = resolve_program program source_dir, sp_args = rest,
                        sp_current_dir = working_dir, sp_env = vars, sp_kill_on_drop = True\<rparr> w of
                  (Inl e, w1) \<Rightarrow> (ExStopped, exec_run_error (classify_spawn_error e), w1)
                | (Inr child, w1) \<Rightarrow>
                    (let pid = (case es_child_id sv child w1 of Some p \<Rightarrow> p | None \<Rightarrow> 0)
                     in (ExRunning child, RunOk (into_dict exec_run_ok_fields [VNumber (int pid)]), w1))))
      | _ \<Rightarrow> (ExStopped, exec_run_error ''invalid_command'', w))"

definition stopped_execute ::
  "('c, 'w) exec_services \<Rightarrow> string \<Rightarrow> path_buf \<Rightarrow> path_buf \<Rightarrow> string \<Rightarrow> command_args \<Rightarrow> 'w
     \<Rightarrow> 'c exec_mode \<times> run_outcome \<times> 'w" where
  "stopped_execute sv target source_dir working_dir cmd args w =
     (if cmd = ''run'' then stopped_run sv target source_dir working_dir (args_kw args ''env'') w
      else (ExStopped, RunNotImplemented ''exec'' cmd, w))"

definition running_execute :: "'c \<Rightarrow> string \<Rightarrow> 'c exec_mode \<times> run_outcome" where
  "running_execute child cmd =
     (if cmd = ''run'' then (ExRunning child, exec_run_error ''already_running'')
      else (ExRunning child, RunNotImplemented ''exec'' cmd))"

text \<open>SIGTERM, a grace period, then SIGKILL (the branch for Unix).\<close>

definition running_stop ::
  "('c, 'w) exec_services \<Rightarrow> 'c \<Rightarrow> 'w \<Rightarrow> 'c exec_mode \<times> teardown_outcome \<times> 'w" where
  "running_stop sv child w =
     (let w1 = (case es_child_id sv child w of Some pid \<Rightarrow> es_sigterm sv pid w | None \<Rightarrow> w)
      in case es_wait_for sv teardown_grace child w1 of
           (Some (Inr _), w2) \<Rightarrow> (ExStopped, teardown_ok, w2)
         | (Some (Inl e), w2) \<Rightarrow> (ExStopped, teardown_failed (''wait failed: '' @ io_display e), w2)
         | (None, w2) \<Rightarrow>
             (let (killed, w3) = es_start_kill sv child w2;
                  outcome = (case killed of
                               Inr _ \<Rightarrow> teardown_ok
                             | Inl e \<Rightarrow> teardown_failed (''kill failed: '' @ io_display e))
              in (ExStopped, outcome, es_wait sv child w3)))"

section \<open>Instance\<close>

definition exec_execute ::
  "('c, 'w) exec_services \<Rightarrow> 'c exec_instance \<Rightarrow> string \<Rightarrow> command_args \<Rightarrow> 'w
     \<Rightarrow> run_outcome \<times> 'c exec_instance \<times> 'w" where
  "exec_execute sv inst cmd args w =
     (let (next_mode, outcome, w') =
        (case ex_mode inst of
           ExStopped \<Rightarrow>
             stopped_execute sv (ex_target inst) (ex_source_dir inst) (ex_working_dir inst) cmd args w
         | ExRunning child \<Rightarrow> (let (m, out) = running_execute child cmd in (m, out, w)))
      in (outcome, inst\<lparr>ex_mode := next_mode\<rparr>, w'))"

definition exec_teardown ::
  "('c, 'w) exec_services \<Rightarrow> 'c exec_instance \<Rightarrow> 'w \<Rightarrow> teardown_outcome \<times> 'c exec_instance \<times> 'w" where
  "exec_teardown sv inst w =
     (let (next_mode, outcome, w') =
        (case ex_mode inst of
           ExStopped \<Rightarrow> (ExStopped, teardown_ok, w)
         | ExRunning child \<Rightarrow> running_stop sv child w)
      in (outcome, inst\<lparr>ex_mode := next_mode\<rparr>, w'))"

definition exec_mode_of :: "'c exec_instance \<Rightarrow> mode" where
  "exec_mode_of inst = (case ex_mode inst of ExStopped \<Rightarrow> ExecStopped | ExRunning _ \<Rightarrow> ExecRunning)"

section \<open>Facts\<close>

lemma exec_command_iff: "find_command exec c = Some cd \<longleftrightarrow> c = ''run'' \<and> cd = exec_run"
  by (auto simp: find_command_def ill_simps split: if_splits)

lemma exec_error_declared: "declared_error exec_run ''exec'' (into_dict exec_error_fields [VAtom r])"
  by (simp add: declared_error_def outcome_ok_def into_dict_def ill_simps)

lemma exec_ok_declared: "outcome_ok exec_run_ok_fields (into_dict exec_run_ok_fields [VNumber n])"
  by (simp add: outcome_ok_def into_dict_def ill_simps)

text \<open>What \<open>run\<close> answers from the stopped mode, on every branch.\<close>

lemma stopped_run_cases:
  obtains (started) child n w' where
      "stopped_run sv target sd wd env w =
         (ExRunning child, RunOk (into_dict exec_run_ok_fields [VNumber n]), w')"
  | (failed) reason w' where "stopped_run sv target sd wd env w = (ExStopped, exec_run_error reason, w')"
proof -
  have "(\<exists>child n w'. stopped_run sv target sd wd env w =
         (ExRunning child, RunOk (into_dict exec_run_ok_fields [VNumber n]), w')) \<or>
      (\<exists>reason w'. stopped_run sv target sd wd env w = (ExStopped, exec_run_error reason, w'))"
    unfolding stopped_run_def Let_def
    by (simp split: option.split list.split sum.split prod.split) blast
  then show ?thesis using that by blast
qed

interpretation exec_actor: service_actor exec "exec_execute sv" exec_mode_of "\<lambda>_. True" "\<lambda>_ _. True"
  for sv :: "('c, 'w) exec_services"
proof
  fix c cd args out and i i' :: "'c exec_instance" and w w' :: 'w
  assume cd: "find_command exec c = Some cd" and mode: "exec_mode_of i \<in> set (cd_valid_in_modes cd)"
    and run: "exec_execute sv i c args w = (out, i', w')"
  from cd mode have stopped: "ex_mode i = ExStopped" and c: "c = ''run''" "cd = exec_run"
    by (auto simp: exec_command_iff exec_mode_of_def exec_run_def split: exec_mode.splits)
  show "conforms cd True (\<lambda>_. True) (exec_mode_of i) out (exec_mode_of i')"
  proof (cases rule: stopped_run_cases
      [of sv "ex_target i" "ex_source_dir i" "ex_working_dir i" "args_kw args ''env''" w])
    case (started child n w1)
    with run have "i' = i\<lparr>ex_mode := ExRunning child\<rparr>"
      "out = RunOk (into_dict exec_run_ok_fields [VNumber n])"
      by (auto simp: exec_execute_def stopped_execute_def stopped c)
    then show ?thesis
      by (auto simp: conforms_def c mode_after_def exec_mode_of_def exec_ok_declared exec_run_def)
  next
    case (failed reason w1)
    with run have "i' = i\<lparr>ex_mode := ExStopped\<rparr>" "out = exec_run_error reason"
      by (auto simp: exec_execute_def stopped_execute_def stopped c)
    then show ?thesis
      by (simp add: conforms_def c exec_mode_of_def exec_run_error_def exec_error_declared stopped)
  qed
qed

text \<open>After a teardown the instance holds no child, and a second teardown does nothing.\<close>

lemma exec_teardown_stopped: "ex_mode (fst (snd (exec_teardown sv inst w))) = ExStopped"
  by (auto simp: exec_teardown_def running_stop_def Let_def split: exec_mode.splits prod.splits
      option.splits sum.splits)

lemma exec_teardown_idle: "ex_mode inst = ExStopped \<Longrightarrow> exec_teardown sv inst w = (teardown_ok, inst, w)"
  by (simp add: exec_teardown_def)

lemma exec_teardown_twice:
  "exec_teardown sv (fst (snd (exec_teardown sv inst w))) w' = (teardown_ok, fst (snd (exec_teardown sv inst w)), w')"
  by (rule exec_teardown_idle [OF exec_teardown_stopped])

end
