(* ===== verification/Ill_Container.thy ===== *)
theory Ill_Container
  imports Ill_Services "HOL-Library.Sublist"
begin

text \<open>
  The runtime half of the \<open>container\<close> actor, \<^verbatim>\<open>actor_type/container/runtime.rs\<close>. The docker client
  (\<open>testcontainers\<close>), the file system and the unspecified \<open>DefaultHasher\<close> are the record
  \<open>docker_services\<close>; \<open>'c\<close> is a live container. A request is the record of what the builder calls
  put into it.
\<close>

section \<open>Services\<close>

record container_request =
  cr_image :: string
  cr_tag :: string
  cr_mapped_ports :: "(u16 \<times> u16) list"
  cr_labels :: "(string \<times> string) list"
  cr_env :: "(string \<times> string) list"
  cr_startup_timeout :: "duration option"

text \<open>\<open>TestcontainersError\<close>: whether it is the start-up time-out, and its display.\<close>

record docker_error =
  de_startup_timeout :: bool
  de_display :: string

record ('c, 'w) docker_services =
  ds_pull :: "string \<Rightarrow> string \<Rightarrow> 'w \<Rightarrow> (docker_error + unit) \<times> 'w"
  ds_build :: "string \<Rightarrow> string \<Rightarrow> path_buf \<Rightarrow> 'w \<Rightarrow> (docker_error + unit) \<times> 'w"
  ds_start :: "container_request \<Rightarrow> 'w \<Rightarrow> (docker_error + 'c) \<times> 'w"
  ds_id :: "'c \<Rightarrow> string"
  ds_rm :: "duration \<Rightarrow> 'c \<Rightarrow> 'w \<Rightarrow> (docker_error + unit) option \<times> 'w"
  ds_is_file :: "path_buf \<Rightarrow> 'w \<Rightarrow> bool"
  ds_hash :: "path_buf \<Rightarrow> 64 word"

section \<open>State\<close>

datatype 'c container_mode = CtStopped | CtRunning 'c

record 'c container_instance =
  ct_image_name :: string
  ct_image_tag :: string
  ct_internal_port :: "u16 option"
  ct_mode :: "'c container_mode"
  ct_members :: members

definition container_run_error :: "string \<Rightarrow> run_outcome" where
  "container_run_error reason = RunError ''container'' (into_dict container_error_fields [VAtom reason])"

definition classify_run_error :: "docker_error \<Rightarrow> string" where
  "classify_run_error e =
     (if de_startup_timeout e then ''timeout''
      else if sublist ''port is already allocated'' (de_display e)
            \<or> sublist ''address already in use'' (de_display e) then ''port_in_use''
      else ''docker_unavailable'')"

definition default_startup_timeout :: duration where
  "default_startup_timeout = from_secs 60"

definition teardown_timeout :: duration where
  "teardown_timeout = from_secs 15"

section \<open>Construction\<close>

text \<open>Split at the last colon, when what follows is a tag.\<close>

definition split_image_ref :: "string \<Rightarrow> string \<times> string" where
  "split_image_ref r =
     (case split_once (CHR '':'') (rev r) of
        Some (rtag, rname) \<Rightarrow>
          if CHR ''/'' \<notin> set rtag \<and> rtag \<noteq> [] then (rev rname, rev rtag) else (r, ''latest'')
      | None \<Rightarrow> (r, ''latest''))"

definition hex_digit :: "nat \<Rightarrow> char" where
  "hex_digit n = (if n < 10 then char_of (48 + n) else char_of (87 + n))"

text \<open>\<open>{:016x}\<close> of a \<open>u64\<close>.\<close>

definition hex16 :: "64 word \<Rightarrow> string" where
  "hex16 x = map (\<lambda>k. hex_digit (unat x div 16 ^ k mod 16)) (rev [0..<16])"

definition synthesize_image_name :: "('c, 'w) docker_services \<Rightarrow> path_buf \<Rightarrow> string" where
  "synthesize_image_name sv path = ''ill-build-'' @ hex16 (ds_hash sv path)"

definition prepare_from_image ::
  "('c, 'w) docker_services \<Rightarrow> string \<Rightarrow> u16 option \<Rightarrow> members \<Rightarrow> 'w
     \<Rightarrow> (runtime_error + 'c container_instance) \<times> 'w" where
  "prepare_from_image sv image_ref internal_port members w =
     (let (name, tag) = split_image_ref image_ref
      in case ds_pull sv name tag w of
           (Inl e, w1) \<Rightarrow>
             (Inl (RConstruct (''pulling `'' @ name @ '':'' @ tag @ ''`: '' @ de_display e)), w1)
         | (Inr _, w1) \<Rightarrow>
             (Inr \<lparr>ct_image_name = name, ct_image_tag = tag, ct_internal_port = internal_port,
                   ct_mode = CtStopped, ct_members = members\<rparr>, w1))"

definition prepare_from_dockerfile ::
  "('c, 'w) docker_services \<Rightarrow> string \<Rightarrow> path_buf \<Rightarrow> u16 option \<Rightarrow> members \<Rightarrow> 'w
     \<Rightarrow> (runtime_error + 'c container_instance) \<times> 'w" where
  "prepare_from_dockerfile sv dockerfile source_dir internal_port members w =
     (let resolved = path_join source_dir dockerfile
      in if \<not> ds_is_file sv resolved w then
           (Inl (RConstruct (''dockerfile not found: '' @ resolved)), w)
         else
           let tag = ''latest''; name = synthesize_image_name sv resolved
           in case ds_build sv name tag resolved w of
                (Inl e, w1) \<Rightarrow>
                  (Inl (RConstruct (''building `'' @ resolved @ ''`: '' @ de_display e)), w1)
              | (Inr _, w1) \<Rightarrow>
                  (Inr \<lparr>ct_image_name = name, ct_image_tag = tag, ct_internal_port = internal_port,
                        ct_mode = CtStopped, ct_members = members\<rparr>, w1))"

definition u16_of_int :: "int \<Rightarrow> u16 option" where
  "u16_of_int n = (if 0 \<le> n \<and> n \<le> 65535 then Some (word_of_int n) else None)"

definition internal_port_kw :: "val option \<Rightarrow> runtime_error + u16 option" where
  "internal_port_kw v =
     (case v of
        None \<Rightarrow> Inr None
      | Some (VNumber n) \<Rightarrow>
          (case u16_of_int n of
             Some p \<Rightarrow> Inr (Some p)
           | None \<Rightarrow>
               Inl (RConstruct (''container `internal_port` '' @ show_int n @ '' is out of range for a u16'')))
      | Some other \<Rightarrow> Inl (RTypeMismatch ''number'' (type_name other) ''container `internal_port`''))"

definition container_construct ::
  "('c, 'w) docker_services \<Rightarrow> construct_args \<Rightarrow> 'w \<Rightarrow> (runtime_error + 'c container_instance) \<times> 'w" where
  "container_construct sv args w =
     (case internal_port_kw (ca_kw args ''internal_port'') of
        Inl e \<Rightarrow> (Inl e, w)
      | Inr internal_port \<Rightarrow>
          (let members = members_from_declarations (ca_vars args)
           in case (ca_kw args ''image'', ca_kw args ''dockerfile'') of
                (Some _, Some _) \<Rightarrow>
                  (Inl (RConstruct
                     ''container requires exactly one of `image:` or `dockerfile:`, not both''), w)
              | (None, None) \<Rightarrow>
                  (Inl (RConstruct ''container requires either `image:` or `dockerfile:`''), w)
              | (Some (VString image_ref), None) \<Rightarrow> prepare_from_image sv image_ref internal_port members w
              | (Some other, None) \<Rightarrow>
                  (Inl (RTypeMismatch ''string'' (type_name other) ''container `image`''), w)
              | (None, Some (VString path_ref)) \<Rightarrow>
                  prepare_from_dockerfile sv path_ref (ca_source_dir args) internal_port members w
              | (None, Some other) \<Rightarrow>
                  (Inl (RTypeMismatch ''string'' (type_name other) ''container `dockerfile`''), w)))"

section \<open>Commands\<close>

definition value_as_u16 :: "val \<Rightarrow> u16 option" where
  "value_as_u16 v = (case v of VNumber n \<Rightarrow> u16_of_int n | _ \<Rightarrow> None)"

definition container_apply_env :: "container_request \<Rightarrow> val \<Rightarrow> string + container_request" where
  "container_apply_env req env = map_sum id (\<lambda>vars. req\<lparr>cr_env := cr_env req @ vars\<rparr>) (apply_env env)"

text \<open>The request that \<open>run\<close> builds before it starts the container, or the reason it does not.\<close>

definition container_build_request ::
  "string \<Rightarrow> string \<Rightarrow> u16 option \<Rightarrow> val option \<Rightarrow> val option \<Rightarrow> val option \<Rightarrow> string + container_request" where
  "container_build_request image_name image_tag internal_port external_port_kw env_kw timeout_kw =
     (case map_option value_as_u16 external_port_kw of
        Some None \<Rightarrow> Inl ''bad_port''
      | supplied \<Rightarrow>
          (let external_port = Option.bind supplied id
           in if external_port \<noteq> None \<and> internal_port = None then Inl ''bad_port''
              else
                let req = \<lparr>cr_image = image_name, cr_tag = image_tag,
                           cr_mapped_ports = (case (external_port, internal_port) of
                              (Some host, Some inner) \<Rightarrow> [(host, inner)] | _ \<Rightarrow> []),
                           cr_labels = [(''ill.test'', ''1'')], cr_env = [],
                           cr_startup_timeout = None\<rparr>
                in case (case env_kw of None \<Rightarrow> Inr req | Some env \<Rightarrow> container_apply_env req env) of
                     Inl _ \<Rightarrow> Inl ''bad_env''
                   | Inr req1 \<Rightarrow>
                       Inr (req1\<lparr>cr_startup_timeout :=
                              Some (millis_or timeout_kw default_startup_timeout)\<rparr>)))"

definition container_stopped_run ::
  "('c, 'w) docker_services \<Rightarrow> string \<Rightarrow> string \<Rightarrow> u16 option \<Rightarrow> val option \<Rightarrow> val option \<Rightarrow> val option \<Rightarrow> 'w
     \<Rightarrow> 'c container_mode \<times> run_outcome \<times> 'w" where
  "container_stopped_run sv image_name image_tag internal_port external_port_kw env_kw timeout_kw w =
     (case container_build_request image_name image_tag internal_port external_port_kw env_kw timeout_kw of
        Inl reason \<Rightarrow> (CtStopped, container_run_error reason, w)
      | Inr req \<Rightarrow>
          (case ds_start sv req w of
             (Inr c, w1) \<Rightarrow>
               (CtRunning c, RunOk (into_dict container_run_ok_fields [VString (ds_id sv c)]), w1)
           | (Inl e, w1) \<Rightarrow> (CtStopped, container_run_error (classify_run_error e), w1)))"

definition container_running_teardown ::
  "('c, 'w) docker_services \<Rightarrow> 'c \<Rightarrow> 'w \<Rightarrow> 'c container_mode \<times> teardown_outcome \<times> 'w" where
  "container_running_teardown sv c w =
     (case ds_rm sv teardown_timeout c w of
        (Some (Inr _), w1) \<Rightarrow> (CtStopped, teardown_ok, w1)
      | (Some (Inl e), w1) \<Rightarrow> (CtStopped, teardown_failed (''rm failed: '' @ de_display e), w1)
      | (None, w1) \<Rightarrow> (CtStopped, teardown_failed ''rm timed out after 15s'', w1))"

definition container_running_stop ::
  "('c, 'w) docker_services \<Rightarrow> 'c \<Rightarrow> 'w \<Rightarrow> 'c container_mode \<times> run_outcome \<times> 'w" where
  "container_running_stop sv c w =
     (case ds_rm sv teardown_timeout c w of
        (Some (Inr _), w1) \<Rightarrow> (CtStopped, RunOk [], w1)
      | (Some (Inl _), w1) \<Rightarrow> (CtStopped, container_run_error ''docker_unavailable'', w1)
      | (None, w1) \<Rightarrow> (CtStopped, container_run_error ''timeout'', w1))"

section \<open>Instance\<close>

definition container_execute ::
  "('c, 'w) docker_services \<Rightarrow> 'c container_instance \<Rightarrow> string \<Rightarrow> command_args \<Rightarrow> 'w
     \<Rightarrow> run_outcome \<times> 'c container_instance \<times> 'w" where
  "container_execute sv inst cmd args w =
     (let (next_mode, outcome, w') =
        (case ct_mode inst of
           CtStopped \<Rightarrow>
             if cmd = ''run'' then
               container_stopped_run sv (ct_image_name inst) (ct_image_tag inst) (ct_internal_port inst)
                 (args_kw args ''external_port'') (args_kw args ''env'') (args_kw args ''timeout'') w
             else if cmd = ''stop'' then (CtStopped, container_run_error ''not_running'', w)
             else (CtStopped, RunNotImplemented ''container'' cmd, w)
         | CtRunning c \<Rightarrow>
             if cmd = ''run'' then (CtRunning c, container_run_error ''already_running'', w)
             else if cmd = ''stop'' then container_running_stop sv c w
             else (CtRunning c, RunNotImplemented ''container'' cmd, w))
      in (outcome, inst\<lparr>ct_mode := next_mode\<rparr>, w'))"

definition container_teardown ::
  "('c, 'w) docker_services \<Rightarrow> 'c container_instance \<Rightarrow> 'w
     \<Rightarrow> teardown_outcome \<times> 'c container_instance \<times> 'w" where
  "container_teardown sv inst w =
     (let (next_mode, outcome, w') =
        (case ct_mode inst of
           CtStopped \<Rightarrow> (CtStopped, teardown_ok, w)
         | CtRunning c \<Rightarrow> container_running_teardown sv c w)
      in (outcome, inst\<lparr>ct_mode := next_mode\<rparr>, w'))"

definition container_self_view :: "'c container_instance \<Rightarrow> dict option" where
  "container_self_view inst = Some (assigned_view (ct_members inst))"

definition container_mode_of :: "'c container_instance \<Rightarrow> mode" where
  "container_mode_of inst =
     (case ct_mode inst of CtStopped \<Rightarrow> ContainerStopped | CtRunning _ \<Rightarrow> ContainerRunning)"

section \<open>Facts\<close>

lemma container_command_iff:
  "find_command container c = Some cd \<longleftrightarrow>
     c = ''run'' \<and> cd = container_run \<or> c = ''stop'' \<and> cd = container_stop"
  by (auto simp: find_command_def ill_simps split: if_splits)

lemma container_error_declared:
  "declared_error container_run ''container'' (into_dict container_error_fields [VAtom r])"
  "declared_error container_stop ''container'' (into_dict container_error_fields [VAtom r])"
  by (simp_all add: declared_error_def outcome_ok_def into_dict_def ill_simps)

lemma container_ok_declared:
  "outcome_ok container_run_ok_fields (into_dict container_run_ok_fields [VString s])"
  by (simp add: outcome_ok_def into_dict_def ill_simps)

lemma container_run_cases:
  obtains (started) c w' where
      "container_stopped_run sv nm tag ip ep env to w =
         (CtRunning c, RunOk (into_dict container_run_ok_fields [VString (ds_id sv c)]), w')"
  | (failed) reason w' where
      "container_stopped_run sv nm tag ip ep env to w = (CtStopped, container_run_error reason, w')"
proof -
  have "(\<exists>c w'. container_stopped_run sv nm tag ip ep env to w =
         (CtRunning c, RunOk (into_dict container_run_ok_fields [VString (ds_id sv c)]), w')) \<or>
      (\<exists>reason w'. container_stopped_run sv nm tag ip ep env to w = (CtStopped, container_run_error reason, w'))"
    unfolding container_stopped_run_def by (simp split: sum.split prod.split) blast
  then show ?thesis using that by blast
qed

lemma container_stop_cases:
  obtains (removed) w' where "container_running_stop sv c w = (CtStopped, RunOk [], w')"
  | (failed) reason w' where "container_running_stop sv c w = (CtStopped, container_run_error reason, w')"
proof -
  have "(\<exists>w'. container_running_stop sv c w = (CtStopped, RunOk [], w')) \<or>
      (\<exists>reason w'. container_running_stop sv c w = (CtStopped, container_run_error reason, w'))"
    unfolding container_running_stop_def by (simp split: sum.split prod.split option.split) blast
  then show ?thesis using that by blast
qed

text \<open>
  A failed \<open>stop\<close> does not keep the mode: the instance is stopped whatever the daemon answered.
\<close>

interpretation container_actor: service_actor container "container_execute sv" container_mode_of
  "\<lambda>c. c \<noteq> ''stop''" "\<lambda>_ _. True"
  for sv :: "('c, 'w) docker_services"
proof
  fix c cd args out and i i' :: "'c container_instance" and w w' :: 'w
  assume cd: "find_command container c = Some cd" and mode: "container_mode_of i \<in> set (cd_valid_in_modes cd)"
    and run: "container_execute sv i c args w = (out, i', w')"
  from cd consider (run) "c = ''run''" "cd = container_run" | (stop) "c = ''stop''" "cd = container_stop"
    by (auto simp: container_command_iff)
  then show "conforms cd (c \<noteq> ''stop'') (\<lambda>_. True) (container_mode_of i) out (container_mode_of i')"
  proof cases
    case run
    with mode have m: "ct_mode i = CtStopped"
      by (auto simp: container_mode_of_def container_run_def split: container_mode.splits)
    show ?thesis
    proof (cases rule: container_run_cases [of sv "ct_image_name i" "ct_image_tag i" "ct_internal_port i"
          "args_kw args ''external_port''" "args_kw args ''env''" "args_kw args ''timeout''" w])
      case (started k w1)
      with \<open>container_execute sv i c args w = _\<close> run m show ?thesis
        by (auto simp: container_execute_def conforms_def mode_after_def container_mode_of_def
            container_ok_declared container_run_def)
    next
      case (failed reason w1)
      with \<open>container_execute sv i c args w = _\<close> run m show ?thesis
        by (auto simp: container_execute_def conforms_def container_mode_of_def container_run_error_def
            container_error_declared)
    qed
  next
    case stop
    with mode obtain k where m: "ct_mode i = CtRunning k"
      by (auto simp: container_mode_of_def container_stop_def split: container_mode.splits)
    show ?thesis
    proof (cases rule: container_stop_cases [of sv k w])
      case (removed w1)
      with \<open>container_execute sv i c args w = _\<close> stop m show ?thesis
        by (auto simp: container_execute_def conforms_def mode_after_def container_mode_of_def
            outcome_ok_def container_stop_def)
    next
      case (failed reason w1)
      with \<open>container_execute sv i c args w = _\<close> stop m show ?thesis
        by (auto simp: container_execute_def conforms_def container_mode_of_def container_run_error_def
            container_error_declared)
    qed
  qed
qed

lemma container_teardown_stopped: "ct_mode (fst (snd (container_teardown sv inst w))) = CtStopped"
  by (auto simp: container_teardown_def container_running_teardown_def
      split: container_mode.splits prod.splits option.splits sum.splits)

lemma container_teardown_twice:
  "container_teardown sv (fst (snd (container_teardown sv inst w))) w' =
     (teardown_ok, fst (snd (container_teardown sv inst w)), w')"
  using container_teardown_stopped [of sv inst w] by (simp add: container_teardown_def)

lemma container_stop_stops: "ct_mode inst = CtRunning c \<Longrightarrow>
   ct_mode (fst (snd (container_execute sv inst ''stop'' args w))) = CtStopped"
  by (auto simp: container_execute_def container_running_stop_def
      split: prod.splits option.splits sum.splits)

section \<open>Image references\<close>

lemma split_image_ref_tagged:
  assumes "CHR '':'' \<notin> set tag" and "CHR ''/'' \<notin> set tag" and "tag \<noteq> []"
  shows "split_image_ref (name @ '':'' @ tag) = (name, tag)"
proof -
  have "rev (name @ '':'' @ tag) = rev tag @ CHR '':'' # rev name" by simp
  then have "split_once (CHR '':'') (rev (name @ '':'' @ tag)) = Some (rev tag, rev name)"
    using split_once_append [of "CHR '':''" "rev tag" "rev name"] assms(1) by (simp only: set_rev not_False_eq_True)
  with assms(2,3) show ?thesis by (simp add: split_image_ref_def)
qed

lemma split_image_ref_cases:
  assumes "split_image_ref r = (name, tag)"
  shows "tag \<noteq> [] \<and> CHR ''/'' \<notin> set tag \<and> (r = name @ '':'' @ tag \<or> r = name \<and> tag = ''latest'')"
proof (cases "split_once (CHR '':'') (rev r)")
  case None
  with assms show ?thesis by (auto simp: split_image_ref_def)
next
  case (Some p)
  obtain a b where p: "p = (a, b)" by (cases p)
  from split_once_SomeD [OF Some [unfolded p]] have "rev r = a @ CHR '':'' # b" by simp
  then have "r = rev b @ '':'' @ rev a" by (metis append_Cons append_Nil append_assoc rev.simps(2) rev_append rev_swap)
  with assms Some p show ?thesis by (auto simp: split_image_ref_def split: if_splits)
qed

lemma length_hex16: "length (hex16 x) = 16"
  by (simp add: hex16_def)

text \<open>The rendering of a hash loses nothing.\<close>

lemma hex_digit_inj: "a < 16 \<Longrightarrow> b < 16 \<Longrightarrow> hex_digit a = hex_digit b \<Longrightarrow> a = b"
  by (auto simp: hex_digit_def char_of_eq_iff take_bit_nat_eq_self split: if_splits)

section \<open>The request\<close>

lemma u16_of_int_Some: "u16_of_int n = Some p \<longleftrightarrow> 0 \<le> n \<and> n \<le> 65535 \<and> p = word_of_int n"
  by (auto simp: u16_of_int_def)

lemma u16_of_int_value: "u16_of_int n = Some p \<Longrightarrow> uint p = n"
  by (auto simp: u16_of_int_Some uint_word_of_int)

text \<open>What \<open>run\<close> accepts, and the request it builds then.\<close>

definition port_kw_ok :: "val option \<Rightarrow> u16 option \<Rightarrow> bool" where
  "port_kw_ok external_port internal_port \<longleftrightarrow>
     (case external_port of
        None \<Rightarrow> True
      | Some v \<Rightarrow> value_as_u16 v \<noteq> None \<and> internal_port \<noteq> None)"

lemma container_apply_env_ok:
  "container_apply_env req v = Inl e \<Longrightarrow> \<not> env_ok v" "container_apply_env req v = Inr r \<Longrightarrow> env_ok v"
  using apply_env_Inr_iff [of v] by (cases "apply_env v"; simp add: container_apply_env_def)+

lemma build_request_Inr_iff:
  "(\<exists>req. container_build_request nm tag ip ep env to = Inr req) \<longleftrightarrow>
     port_kw_ok ep ip \<and> (case env of None \<Rightarrow> True | Some v \<Rightarrow> env_ok v)"
  by (auto simp: container_build_request_def port_kw_ok_def Let_def split: option.splits sum.splits
      dest: container_apply_env_ok)

lemma build_request_sel:
  assumes "container_build_request nm tag ip ep env to = Inr req"
  shows "cr_image req = nm" "cr_tag req = tag" "cr_labels req = [(''ill.test'', ''1'')]"
    "cr_startup_timeout req = Some (millis_or to default_startup_timeout)"
    "cr_mapped_ports req = (case (Option.bind ep value_as_u16, ip) of (Some h, Some p) \<Rightarrow> [(h, p)] | _ \<Rightarrow> [])"
  using assms
  by (auto simp: container_build_request_def container_apply_env_def map_sum_id_Inr Let_def
      split: option.splits sum.splits if_splits)

end
