(* ===== verification/Ill_Pg.thy ===== *)
theory Ill_Pg
  imports Ill_Services Ill_Eval "HOL-Library.Sublist"
begin

text \<open>
  The runtime half of the \<open>pg_client\<close> actor, \<^verbatim>\<open>actor_type/pg_client/runtime.rs\<close> and
  \<^verbatim>\<open>actor_type/pg_client/convert.rs\<close>. The wire client (\<open>tokio_postgres\<close>) and the clock are the record
  \<open>pg_services\<close>; \<open>'c\<close> is a live connection, the client with the task that drives it.
\<close>

section \<open>Results of a query\<close>

datatype pg_type =
    PgBool | PgChar | PgInt2 | PgInt4 | PgInt8 | PgFloat4 | PgFloat8
  | PgText | PgVarchar | PgBpchar | PgName | PgUnknown | PgBytea | PgOther string

record pg_column =
  col_name :: string
  col_type :: pg_type

text \<open>
  A row is known through \<open>try_get\<close>, one accessor per Rust type it is called at: \<open>Err\<close>, or an
  optional value. All rows of a result share the columns of their statement.
\<close>

record pg_row =
  get_bool :: "nat \<Rightarrow> unit + bool option"
  get_i8 :: "nat \<Rightarrow> unit + 8 word option"
  get_i16 :: "nat \<Rightarrow> unit + 16 word option"
  get_i32 :: "nat \<Rightarrow> unit + 32 word option"
  get_i64 :: "nat \<Rightarrow> unit + 64 word option"
  get_f32 :: "nat \<Rightarrow> unit + 32 word option"
  get_f64 :: "nat \<Rightarrow> unit + f64 option"
  get_string :: "nat \<Rightarrow> unit + string option"
  get_bytes :: "nat \<Rightarrow> unit + u8 list option"

type_synonym pg_result = "pg_column list \<times> pg_row list"

text \<open>\<open>b as char\<close> of a byte, as UTF-8.\<close>

definition latin1 :: "8 word \<Rightarrow> string" where
  "latin1 b =
     from_bytes (if b < 0x80 then [b] else [0xC0 OR drop_bit 6 b, 0x80 OR (b AND 0x3F)])"

text \<open>
  \<open>x as f64\<close> of an \<open>f32\<close>, on the bit patterns: exact for every number. A subnormal is normalised by
  the distance of its leading bit from the implicit one. The payload of a NaN is moved along.
\<close>

fun leading_gap :: "nat \<Rightarrow> nat \<Rightarrow> nat" where
  "leading_gap 0 m = 0"
| "leading_gap (Suc k) m = (if 2 ^ k \<le> m then 23 - k else leading_gap k m)"

definition f32_to_f64 :: "32 word \<Rightarrow> f64" where
  "f32_to_f64 x =
     (let sign = unat (drop_bit 31 x); e = unat (drop_bit 23 x AND 0xFF); m = unat (x AND 0x7FFFFF);
          pack = (\<lambda>e' m'. (of_nat (sign * 2 ^ 63 + e' * 2 ^ 52 + m' * 2 ^ 29) :: f64))
      in if e = 255 then pack 2047 m
         else if e = 0 then
           (if m = 0 then pack 0 0
            else let s = leading_gap 23 m in pack (897 - s) (m * 2 ^ s - 2 ^ 23))
         else pack (e + 896) m)"

definition cell_or_null :: "('a \<Rightarrow> val) \<Rightarrow> unit + 'a option \<Rightarrow> val" where
  "cell_or_null f r = (case r of Inr (Some x) \<Rightarrow> f x | _ \<Rightarrow> VNull)"

definition cell_to_value :: "pg_column \<Rightarrow> pg_row \<Rightarrow> nat \<Rightarrow> val" where
  "cell_to_value column row i =
     (case col_type column of
        PgBool \<Rightarrow> cell_or_null VBool (get_bool row i)
      | PgChar \<Rightarrow> cell_or_null (\<lambda>n. VString (latin1 n)) (get_i8 row i)
      | PgInt2 \<Rightarrow> cell_or_null (\<lambda>n. VNumber (sint n)) (get_i16 row i)
      | PgInt4 \<Rightarrow> cell_or_null (\<lambda>n. VNumber (sint n)) (get_i32 row i)
      | PgInt8 \<Rightarrow> cell_or_null (\<lambda>n. VNumber (sint n)) (get_i64 row i)
      | PgFloat4 \<Rightarrow> cell_or_null (\<lambda>x. VFloat (f32_to_f64 x)) (get_f32 row i)
      | PgFloat8 \<Rightarrow> cell_or_null VFloat (get_f64 row i)
      | PgBytea \<Rightarrow> cell_or_null VBytes (get_bytes row i)
      | PgOther name \<Rightarrow>
          (case get_string row i of
             Inr (Some s) \<Rightarrow> VString s
           | Inr None \<Rightarrow> VNull
           | Inl _ \<Rightarrow> VString (''<unsupported pg type '' @ name @ ''>''))
      | _ \<Rightarrow> cell_or_null VString (get_string row i))"

text \<open>The single pass that fills the rows and the column buckets.\<close>

definition fill_row ::
  "pg_column list \<Rightarrow> pg_row \<Rightarrow> val list \<times> val list list \<Rightarrow> val list \<times> val list list" where
  "fill_row columns row = (\<lambda>(row_values, col_buckets).
     let cells = map (\<lambda>i. cell_to_value (columns ! i) row i) [0..<length columns]
     in (row_values @ [VArray cells], map2 (\<lambda>bucket v. bucket @ [v]) col_buckets cells))"

definition build_result_dict :: "pg_result \<Rightarrow> dict" where
  "build_result_dict result =
     (let rows = snd result;
          columns = (if rows = [] then [] else fst result);
          col_count = length columns;
          (row_values, col_buckets) = fold (fill_row columns) rows ([], replicate col_count []);
          col_dict = fold (\<lambda>(column, bucket). index_insert (col_name column) (VArray bucket))
                       (zip columns col_buckets) [];
          out0 = index_insert ''row'' (VArray row_values) [];
          out1 = index_insert ''col'' (VDict col_dict) out0;
          out2 = index_insert ''row_count'' (VNumber (int (length rows))) out1
      in index_insert ''col_count'' (VNumber (int col_count)) out2)"

section \<open>Services\<close>

text \<open>
  A \<open>tokio_postgres::Error\<close>: the code and message of a server error, the chain of \<open>source()\<close> links
  starting with the error itself (\<open>Some\<close> where the link is an \<open>io::Error\<close>), \<open>is_closed\<close> and its display.
\<close>

record pg_error =
  pe_db :: "(string \<times> string) option"
  pe_chain :: "io_error option list"
  pe_is_closed :: bool
  pe_display :: string

record pg_config =
  cfg_host :: string
  cfg_port :: u16
  cfg_user :: string
  cfg_password :: "string option"
  cfg_dbname :: string
  cfg_application_name :: "string option"
  cfg_connect_timeout :: duration

record ('c, 'w) pg_services =
  ps_clock :: "'w clock"
  ps_connect :: "pg_config \<Rightarrow> duration \<Rightarrow> 'w \<Rightarrow> (pg_error + 'c) option \<times> 'w"
  ps_query :: "'c \<Rightarrow> string \<Rightarrow> 'w \<Rightarrow> (pg_error + pg_result) \<times> 'w"
  ps_query_within :: "duration \<Rightarrow> 'c \<Rightarrow> string \<Rightarrow> 'w \<Rightarrow> (pg_error + pg_result) option \<times> 'w"
  ps_drop :: "'c \<Rightarrow> 'w \<Rightarrow> 'w"

section \<open>State\<close>

datatype 'c pg_mode = PmDisconnected | PmConnected 'c

record 'c pg_instance =
  pg_mode :: "'c pg_mode"

definition pg_network_error :: "string \<Rightarrow> run_outcome" where
  "pg_network_error reason = RunError ''network'' (into_dict pg_network_error_fields [VAtom reason])"

definition pg_connect_error :: "string \<Rightarrow> run_outcome" where
  "pg_connect_error reason = RunError ''connect'' (into_dict pg_connect_error_fields [VAtom reason])"

definition pg_query_error :: "string \<Rightarrow> string \<Rightarrow> string \<Rightarrow> run_outcome" where
  "pg_query_error reason sqlstate message =
     RunError ''query'' (into_dict pg_query_error_fields [VAtom reason, VString sqlstate, VString message])"

definition pg_construct :: "construct_args \<Rightarrow> runtime_error + 'c pg_instance" where
  "pg_construct args = Inr \<lparr>pg_mode = PmDisconnected\<rparr>"

section \<open>Errors\<close>

fun find_io_error :: "io_error option list \<Rightarrow> io_error option" where
  "find_io_error [] = None"
| "find_io_error (Some io # chain) = Some io"
| "find_io_error (None # chain) = find_io_error chain"

text \<open>\<open>to_lowercase\<close> as far as a search for an ASCII word can see it.\<close>

definition ascii_lower :: "string \<Rightarrow> string" where
  "ascii_lower s =
     map (\<lambda>c. let n = (of_char c :: nat) in if 65 \<le> n \<and> n \<le> 90 then char_of (n + 32) else c) s"

text \<open>The codes are those of \<open>SqlState\<close>: \<open>INVALID_PASSWORD\<close>, \<open>INVALID_AUTHORIZATION_SPECIFICATION\<close>,
  \<open>INVALID_CATALOG_NAME\<close>.\<close>

definition pg_classify_connect_error :: "pg_error \<Rightarrow> run_outcome" where
  "pg_classify_connect_error e =
     (case pe_db e of
        Some (code, _) \<Rightarrow>
          if code = ''28P01'' \<or> code = ''28000'' then pg_connect_error ''authentication_failed''
          else if code = ''3D000'' then pg_connect_error ''bad_database''
          else pg_connect_error ''other''
      | None \<Rightarrow>
          (case find_io_error (pe_chain e) of
             Some io \<Rightarrow>
               (case io_kind io of
                  IoConnectionRefused \<Rightarrow> pg_network_error ''connection_refused''
                | IoTimedOut \<Rightarrow> pg_network_error ''timeout''
                | _ \<Rightarrow> pg_network_error ''host_unreachable'')
           | None \<Rightarrow>
               if sublist ''tls'' (ascii_lower (pe_display e)) then pg_network_error ''tls''
               else pg_network_error ''other''))"

text \<open>\<open>SYNTAX_ERROR\<close>, \<open>UNDEFINED_COLUMN\<close>, \<open>UNDEFINED_TABLE\<close>, \<open>UNDEFINED_FUNCTION\<close>, \<open>UNDEFINED_OBJECT\<close>,
  and the class 23 of integrity constraints.\<close>

definition classify_query_error :: "pg_error \<Rightarrow> run_outcome" where
  "classify_query_error e =
     (case pe_db e of
        Some (code, message) \<Rightarrow>
          (let reason = (if code \<in> {''42601'', ''42703'', ''42P01'', ''42883'', ''42704''} then ''syntax_error''
                         else if take 2 code = ''23'' then ''constraint_violation''
                         else ''other'')
           in pg_query_error reason code message)
      | None \<Rightarrow>
          if find_io_error (pe_chain e) \<noteq> None \<or> pe_is_closed e then pg_network_error ''connection_lost''
          else pg_query_error ''other'' [] (pe_display e))"

section \<open>Commands\<close>

definition port_in_range :: "val option \<Rightarrow> u16 \<Rightarrow> u16 option" where
  "port_in_range v dflt =
     (case v of
        Some (VNumber n) \<Rightarrow> if 0 < n \<and> n \<le> 65535 then Some (word_of_int n) else None
      | None \<Rightarrow> Some dflt
      | Some _ \<Rightarrow> None)"

definition build_config :: "dict \<Rightarrow> (pg_config \<times> duration) option" where
  "build_config kw =
     (case (case map_of kw ''host'' of
              Some (VString s) \<Rightarrow> Some s | None \<Rightarrow> Some ''127.0.0.1'' | Some _ \<Rightarrow> None) of
        None \<Rightarrow> None
      | Some host \<Rightarrow>
          (case port_in_range (map_of kw ''port'') 5432 of
             None \<Rightarrow> None
           | Some port \<Rightarrow>
               (case map_of kw ''user'' of
                  Some (VString user) \<Rightarrow>
                    (case map_of kw ''database'' of
                       Some (VString dbname) \<Rightarrow>
                         (let timeout = millis_or (map_of kw ''timeout'') (from_secs 10)
                          in Some (\<lparr>cfg_host = host, cfg_port = port, cfg_user = user,
                               cfg_password = (case map_of kw ''password'' of Some (VString s) \<Rightarrow> Some s | _ \<Rightarrow> None),
                               cfg_dbname = dbname,
                               cfg_application_name =
                                 (case map_of kw ''application_name'' of Some (VString s) \<Rightarrow> Some s | _ \<Rightarrow> None),
                               cfg_connect_timeout = timeout\<rparr>, timeout))
                     | _ \<Rightarrow> None)
                | _ \<Rightarrow> None)))"

definition pg_attempt :: "('c, 'w) pg_services \<Rightarrow> pg_config \<Rightarrow> ('c, 'w) attempt" where
  "pg_attempt sv cfg remaining w =
     (case ps_connect sv cfg remaining w of
        (None, w1) \<Rightarrow> (None, w1)
      | (Some (Inr c), w1) \<Rightarrow> (Some (Inr c), w1)
      | (Some (Inl e), w1) \<Rightarrow> (Some (Inl (pg_classify_connect_error e)), w1))"

definition disconnected_connect ::
  "('c, 'w) pg_services \<Rightarrow> dict \<Rightarrow> 'w \<Rightarrow> 'c pg_mode \<times> run_outcome \<times> 'w" where
  "disconnected_connect sv kw w =
     (case build_config kw of
        None \<Rightarrow> (PmDisconnected, pg_connect_error ''other'', w)
      | Some (cfg, timeout) \<Rightarrow>
          (case connect_within (ps_clock sv) (pg_attempt sv cfg) (pg_network_error ''timeout'') timeout w of
             (Inr c, w1) \<Rightarrow> (PmConnected c, RunOk (into_dict pg_connect_ok_fields []), w1)
           | (Inl outcome, w1) \<Rightarrow> (PmDisconnected, outcome, w1)))"

definition connected_query ::
  "('c, 'w) pg_services \<Rightarrow> 'c \<Rightarrow> string \<Rightarrow> val option \<Rightarrow> 'w \<Rightarrow> 'c pg_mode \<times> run_outcome \<times> 'w" where
  "connected_query sv c sql timeout_kw w =
     (let (result, w1) =
        (case timeout_kw of
           Some (VNumber n) \<Rightarrow>
             if 0 < n then ps_query_within sv (from_millis (nat n)) c sql w
             else (let (r, w1) = ps_query sv c sql w in (Some r, w1))
         | _ \<Rightarrow> (let (r, w1) = ps_query sv c sql w in (Some r, w1)))
      in case result of
           None \<Rightarrow> (PmConnected c, pg_query_error ''timeout'' [] ''query timeout'', w1)
         | Some (Inr rows) \<Rightarrow> (PmConnected c, RunOk (build_result_dict rows), w1)
         | Some (Inl e) \<Rightarrow> (PmConnected c, classify_query_error e, w1))"

text \<open>Dropping \<open>Connected\<close> aborts the task that drives the connection.\<close>

definition connected_disconnect ::
  "('c, 'w) pg_services \<Rightarrow> 'c \<Rightarrow> 'w \<Rightarrow> 'c pg_mode \<times> run_outcome \<times> 'w" where
  "connected_disconnect sv c w = (PmDisconnected, RunOk [], ps_drop sv c w)"

definition connected_teardown ::
  "('c, 'w) pg_services \<Rightarrow> 'c \<Rightarrow> 'w \<Rightarrow> 'c pg_mode \<times> teardown_outcome \<times> 'w" where
  "connected_teardown sv c w = (PmDisconnected, teardown_ok, ps_drop sv c w)"

section \<open>Instance\<close>

definition pg_execute ::
  "('c, 'w) pg_services \<Rightarrow> 'c pg_instance \<Rightarrow> string \<Rightarrow> command_args \<Rightarrow> 'w
     \<Rightarrow> run_outcome \<times> 'c pg_instance \<times> 'w" where
  "pg_execute sv inst cmd args w =
     (let (next_mode, outcome, w') =
        (case pg_mode inst of
           PmDisconnected \<Rightarrow>
             if cmd = ''connect'' then disconnected_connect sv (args_keyword args) w
             else (PmDisconnected, RunNotImplemented ''pg_client'' cmd, w)
         | PmConnected c \<Rightarrow>
             if cmd = ''query'' then
               (case args_positional args of
                  VString sql # _ \<Rightarrow> connected_query sv c sql (args_kw args ''timeout'') w
                | _ \<Rightarrow> (PmConnected c, pg_query_error ''other'' [] ''missing sql argument'', w))
             else if cmd = ''disconnect'' then connected_disconnect sv c w
             else (PmConnected c, RunNotImplemented ''pg_client'' cmd, w))
      in (outcome, inst\<lparr>pg_mode := next_mode\<rparr>, w'))"

definition pg_teardown ::
  "('c, 'w) pg_services \<Rightarrow> 'c pg_instance \<Rightarrow> 'w \<Rightarrow> teardown_outcome \<times> 'c pg_instance \<times> 'w" where
  "pg_teardown sv inst w =
     (let (next_mode, outcome, w') =
        (case pg_mode inst of
           PmDisconnected \<Rightarrow> (PmDisconnected, teardown_ok, w)
         | PmConnected c \<Rightarrow> connected_teardown sv c w)
      in (outcome, inst\<lparr>pg_mode := next_mode\<rparr>, w'))"

definition pg_mode_of :: "'c pg_instance \<Rightarrow> mode" where
  "pg_mode_of inst = (case pg_mode inst of PmDisconnected \<Rightarrow> PgDisconnected | PmConnected _ \<Rightarrow> PgConnected)"

section \<open>The runtime agrees with the schema\<close>

lemma pg_command_iff:
  "find_command pg_client c = Some cd \<longleftrightarrow>
     c = ''connect'' \<and> cd = pg_connect \<or> c = ''query'' \<and> cd = pg_query \<or>
     c = ''disconnect'' \<and> cd = pg_disconnect"
  by (auto simp: find_command_def ill_simps split: if_splits)

lemma pg_errors_declared:
  "declared_error pg_connect ''network'' (into_dict pg_network_error_fields [VAtom r])"
  "declared_error pg_connect ''connect'' (into_dict pg_connect_error_fields [VAtom r])"
  "declared_error pg_query ''network'' (into_dict pg_network_error_fields [VAtom r])"
  "declared_error pg_query ''query'' (into_dict pg_query_error_fields [VAtom r, VString a, VString b])"
  by (simp_all add: declared_error_def outcome_ok_def into_dict_def ill_simps)

text \<open>An outcome that is an error a command declares.\<close>

definition error_outcome :: "command_def \<Rightarrow> run_outcome \<Rightarrow> bool" where
  "error_outcome cd out \<longleftrightarrow> (case out of RunError v d \<Rightarrow> declared_error cd v d | _ \<Rightarrow> False)"

lemma pg_error_outcomes [simp]:
  "error_outcome pg_connect (pg_network_error r)" "error_outcome pg_connect (pg_connect_error r)"
  "error_outcome pg_query (pg_network_error r)" "error_outcome pg_query (pg_query_error r a b)"
  by (simp_all add: error_outcome_def pg_network_error_def pg_connect_error_def pg_query_error_def
      pg_errors_declared)

lemma error_outcome_classified:
  "error_outcome pg_connect (pg_classify_connect_error e)" "error_outcome pg_query (classify_query_error e)"
  by (simp_all add: pg_classify_connect_error_def classify_query_error_def Let_def
      split: option.split io_error_kind.split prod.split)

lemma error_outcome_conforms:
  "error_outcome cd out \<Longrightarrow> conforms cd True (\<lambda>_. True) m out m"
  by (auto simp: error_outcome_def conforms_def split: run_outcome.splits)

lemma build_result_dict_keys:
  "\<exists>rows cols. build_result_dict result =
     [(''row'', VArray rows), (''col'', VDict cols), (''row_count'', VNumber (int (length (snd result)))),
      (''col_count'', VNumber (int (if snd result = [] then 0 else length (fst result))))]"
  by (simp add: build_result_dict_def Let_def split: prod.split)

lemma build_result_dict_ok: "outcome_ok (cd_ok_fields pg_query) (build_result_dict result)"
  using build_result_dict_keys [of result] by (auto simp: outcome_ok_def pg_query_def pg_query_ok_fields_def)

lemma disconnected_connect_cases:
  obtains (up) c w' where "disconnected_connect sv kw w = (PmConnected c, RunOk [], w')"
  | (down) out w' where "disconnected_connect sv kw w = (PmDisconnected, out, w')" "error_outcome pg_connect out"
proof (cases "build_config kw")
  case None
  then show ?thesis
    by (intro down [of "pg_connect_error ''other''" w]) (simp_all add: disconnected_connect_def)
next
  case (Some p)
  obtain cfg timeout where p: "p = (cfg, timeout)" by (cases p)
  let ?tried = "connect_within (ps_clock sv) (pg_attempt sv cfg) (pg_network_error ''timeout'') timeout w"
  obtain r w1 where r: "?tried = (r, w1)" by (cases ?tried)
  have "case r of Inl out \<Rightarrow> error_outcome pg_connect out | Inr _ \<Rightarrow> True"
    by (rule connect_within_from_attempt [OF r])
      (auto simp: pg_attempt_def error_outcome_classified split: prod.splits option.splits sum.splits)
  with Some p r show ?thesis
    by (cases r) (auto simp: disconnected_connect_def into_dict_def pg_connect_ok_fields_def intro: up down)
qed

lemma connected_query_cases:
  obtains (rows) res w' where "connected_query sv c sql to w = (PmConnected c, RunOk (build_result_dict res), w')"
  | (failed) out w' where "connected_query sv c sql to w = (PmConnected c, out, w')" "error_outcome pg_query out"
proof -
  obtain result w1 where split:
    "(case to of
        Some (VNumber n) \<Rightarrow>
          if 0 < n then ps_query_within sv (from_millis (nat n)) c sql w
          else (let (r, w1) = ps_query sv c sql w in (Some r, w1))
      | _ \<Rightarrow> (let (r, w1) = ps_query sv c sql w in (Some r, w1))) = (result, w1)"
    by fastforce
  show ?thesis
  proof (cases result)
    case None
    with split show ?thesis
      by (intro failed [of "pg_query_error ''timeout'' [] ''query timeout''" w1])
        (simp_all add: connected_query_def)
  next
    case (Some r)
    with split show ?thesis
      by (cases r) (auto simp: connected_query_def error_outcome_classified intro: rows failed)
  qed
qed

interpretation pg_actor: service_actor pg_client "pg_execute sv" pg_mode_of "\<lambda>_. True" "\<lambda>_ _. True"
  for sv :: "('c, 'w) pg_services"
proof
  fix c cd args out and i i' :: "'c pg_instance" and w w' :: 'w
  assume cd: "find_command pg_client c = Some cd" and mode: "pg_mode_of i \<in> set (cd_valid_in_modes cd)"
    and ex: "pg_execute sv i c args w = (out, i', w')"
  have stay: "conforms cd True (\<lambda>_. True) (pg_mode_of i) out (pg_mode_of i')"
    if "pg_mode i' = pg_mode i" "error_outcome cd out"
    using that error_outcome_conforms by (simp add: pg_mode_of_def)
  from cd consider (connect) "c = ''connect''" "cd = pg_connect" | (query) "c = ''query''" "cd = pg_query"
    | (disconnect) "c = ''disconnect''" "cd = pg_disconnect"
    by (auto simp: pg_command_iff)
  then show "conforms cd True (\<lambda>_. True) (pg_mode_of i) out (pg_mode_of i')"
  proof cases
    case connect
    with mode have m: "pg_mode i = PmDisconnected"
      by (auto simp: pg_mode_of_def pg_connect_def split: pg_mode.splits)
    show ?thesis
    proof (cases rule: disconnected_connect_cases [of sv "args_keyword args" w])
      case (up k w1)
      with ex connect m show ?thesis
        by (auto simp: pg_execute_def conforms_def mode_after_def pg_mode_of_def outcome_ok_def
            pg_connect_def pg_connect_ok_fields_def)
    next
      case (down out' w1)
      with ex connect m stay show ?thesis by (auto simp: pg_execute_def)
    qed
  next
    case query
    with mode obtain k where m: "pg_mode i = PmConnected k"
      by (auto simp: pg_mode_of_def pg_query_def split: pg_mode.splits)
    show ?thesis
    proof (cases "\<exists>sql rest. args_positional args = VString sql # rest")
      case False
      then have "out = pg_query_error ''other'' [] ''missing sql argument''" "pg_mode i' = pg_mode i"
        using ex m query by (auto simp: pg_execute_def split: list.splits val.splits)
      with stay query show ?thesis by simp
    next
      case True
      then obtain sql rest where pos: "args_positional args = VString sql # rest" by auto
      show ?thesis
      proof (cases rule: connected_query_cases [of sv k sql "args_kw args ''timeout''" w])
        case (rows res w1)
        with ex query m pos show ?thesis
          by (auto simp: pg_execute_def conforms_def mode_after_def pg_mode_of_def build_result_dict_ok)
            (simp add: pg_query_def)
      next
        case (failed out' w1)
        with ex query m pos stay show ?thesis by (auto simp: pg_execute_def)
      qed
    qed
  next
    case disconnect
    with mode obtain k where m: "pg_mode i = PmConnected k"
      by (auto simp: pg_mode_of_def pg_disconnect_def split: pg_mode.splits)
    with ex disconnect show ?thesis
      by (auto simp: pg_execute_def connected_disconnect_def conforms_def mode_after_def pg_mode_of_def
          outcome_ok_def pg_disconnect_def)
  qed
qed

lemma pg_teardown_disconnected: "pg_mode (fst (snd (pg_teardown sv inst w))) = PmDisconnected"
  by (auto simp: pg_teardown_def connected_teardown_def split: pg_mode.splits)

lemma pg_teardown_twice:
  "pg_teardown sv (fst (snd (pg_teardown sv inst w))) w' = (teardown_ok, fst (snd (pg_teardown sv inst w)), w')"
  using pg_teardown_disconnected [of sv inst w] by (simp add: pg_teardown_def)

section \<open>The result dict\<close>

lemma fill_rows:
  "fold (fill_row columns) rows (vals, buckets) =
     (vals @ map (\<lambda>row. VArray (map (\<lambda>i. cell_to_value (columns ! i) row i) [0..<length columns])) rows,
      map (\<lambda>j. buckets ! j @ map (\<lambda>row. cell_to_value (columns ! j) row j) rows) [0..<length columns])"
  if "length buckets = length columns"
  using that
proof (induction rows arbitrary: vals buckets)
  case Nil
  then show ?case using map_nth [of buckets] by simp
next
  case (Cons row rows)
  let ?cells = "map (\<lambda>i. cell_to_value (columns ! i) row i) [0..<length columns]"
  have "fill_row columns row (vals, buckets) =
      (vals @ [VArray ?cells], map2 (\<lambda>bucket v. bucket @ [v]) buckets ?cells)"
    by (simp add: fill_row_def Let_def)
  with Cons.IH [of "map2 (\<lambda>bucket v. bucket @ [v]) buckets ?cells" "vals @ [VArray ?cells]"] Cons.prems
  show ?case by simp
qed

lemma fill_rows_init:
  "fold (fill_row columns) rows ([], replicate (length columns) []) =
     (map (\<lambda>row. VArray (map (\<lambda>i. cell_to_value (columns ! i) row i) [0..<length columns])) rows,
      map (\<lambda>j. map (\<lambda>row. cell_to_value (columns ! j) row j) rows) [0..<length columns])"
proof -
  have "map (\<lambda>j. replicate (length columns) [] ! j @ map (\<lambda>row. cell_to_value (columns ! j) row j) rows)
      [0..<length columns] = map (\<lambda>j. map (\<lambda>row. cell_to_value (columns ! j) row j) rows) [0..<length columns]"
    by (rule map_cong) simp_all
  with fill_rows [of "replicate (length columns) []" columns rows "[]"] show ?thesis
    by (simp only: length_replicate append_Nil)
qed

lemma build_result_dict_eq:
  assumes "rows \<noteq> []" and "distinct (map col_name columns)"
  defines "cell \<equiv> \<lambda>row j. cell_to_value (columns ! j) row j"
  shows "build_result_dict (columns, rows) =
    [(''row'', VArray (map (\<lambda>row. VArray (map (cell row) [0..<length columns])) rows)),
     (''col'', VDict (zip (map col_name columns)
        (map (\<lambda>j. VArray (map (\<lambda>row. cell row j) rows)) [0..<length columns]))),
     (''row_count'', VNumber (int (length rows))), (''col_count'', VNumber (int (length columns)))]"
proof -
  let ?buckets = "map (\<lambda>j. map (\<lambda>row. cell row j) rows) [0..<length columns]"
  have "fold (\<lambda>(column, bucket). index_insert (col_name column) (VArray bucket)) (zip columns bs) d =
      fold (\<lambda>(k, v). index_insert k v) (zip (map col_name columns) (map VArray bs)) d" for bs d
    by (induction columns bs arbitrary: d rule: list_induct2') auto
  then have "fold (\<lambda>(column, bucket). index_insert (col_name column) (VArray bucket)) (zip columns ?buckets) [] =
      zip (map col_name columns) (map VArray ?buckets)"
    using index_build_distinct [of "[]" "zip (map col_name columns) (map VArray ?buckets)"] assms(2) by simp
  with assms(1) show ?thesis
    by (simp add: build_result_dict_def fill_rows_init Let_def cell_def comp_def)
qed

end
