(* ===== verification/Ill_Mqtt.thy ===== *)
theory Ill_Mqtt
  imports Ill_Services
begin

text \<open>
  The runtime half of the \<open>mqtt_client\<close> actor, \<^verbatim>\<open>actor_type/mqtt_client/runtime.rs\<close>. The client and
  its event loop (\<open>rumqttc\<close>) and the clock are the record \<open>mqtt_services\<close>; \<open>'c\<close> is an \<open>AsyncClient\<close>.
  What \<open>eventloop.poll()\<close> yields while a command awaits is supplied by the services as a list, and the
  event-loop task handles that list in order before the command goes on.
\<close>

section \<open>Packets\<close>

datatype qos = AtMostOnce | AtLeastOnce | ExactlyOnce

definition qos_to_byte :: "qos \<Rightarrow> int" where
  "qos_to_byte q = (case q of AtMostOnce \<Rightarrow> 0 | AtLeastOnce \<Rightarrow> 1 | ExactlyOnce \<Rightarrow> 2)"

datatype connect_return_code =
    CrcSuccess | CrcUnspecifiedError | CrcMalformedPacket | CrcProtocolError
  | CrcImplementationSpecificError | CrcUnsupportedProtocolVersion | CrcRefusedProtocolVersion
  | CrcClientIdentifierNotValid | CrcBadClientId | CrcBadUserNamePassword | CrcNotAuthorized
  | CrcServerUnavailable | CrcServiceUnavailable | CrcServerBusy | CrcBanned
  | CrcBadAuthenticationMethod | CrcTopicNameInvalid | CrcPacketTooLarge | CrcQuotaExceeded
  | CrcPayloadFormatInvalid | CrcRetainNotSupported | CrcQoSNotSupported | CrcUseAnotherServer
  | CrcServerMoved | CrcConnectionRateExceeded

datatype subscribe_reason =
    SrcSuccess qos | SrcFailure | SrcUnspecified | SrcImplementationSpecific | SrcNotAuthorized
  | SrcTopicFilterInvalid | SrcPkidInUse | SrcQuotaExceeded | SrcSharedSubscriptionsNotSupported
  | SrcSubscriptionIdNotSupported | SrcWildcardSubscriptionsNotSupported

datatype puback_reason =
    ParSuccess | ParNoMatchingSubscribers | ParUnspecifiedError | ParImplementationSpecificError
  | ParNotAuthorized | ParTopicNameInvalid | ParPacketIdentifierInUse | ParQuotaExceeded
  | ParPayloadFormatInvalid

type_synonym user_properties = "(string \<times> string) list"

record conn_ack =
  ack_session_present :: bool
  ack_code :: connect_return_code
  ack_properties :: "(string option \<times> user_properties) option"

record publish_packet =
  pub_topic :: "u8 list"
  pub_payload :: "u8 list"
  pub_qos :: qos
  pub_properties :: "user_properties option"

record disconnect_packet =
  dis_reason_code :: int
  dis_properties :: "user_properties option"

datatype mqtt_event =
    EvConnAck conn_ack
  | EvPublish publish_packet
  | EvDisconnect disconnect_packet
  | EvSubAck "subscribe_reason list"
  | EvPubAck puback_reason
  | EvPubComp
  | EvOther

datatype connection_error =
    CeConnectionRefused connect_return_code
  | CeIo io_error_kind
  | CeTimeout
  | CeNotConnAck
  | CeServerDisconnect int
  | CeOther

type_synonym poll_result = "connection_error + mqtt_event"

section \<open>Outcomes\<close>

definition mqtt_network_error :: "string \<Rightarrow> run_outcome" where
  "mqtt_network_error reason = RunError ''network'' (into_dict mqtt_network_error_fields [VAtom reason])"

definition mqtt_error :: "string \<Rightarrow> int \<Rightarrow> run_outcome" where
  "mqtt_error reason code = RunError ''mqtt'' (into_dict mqtt_error_fields [VAtom reason, VNumber code])"

definition timeout_error :: run_outcome where
  "timeout_error = RunError ''timeout'' (into_dict mqtt_timeout_error_fields [])"

definition connection_lost :: run_outcome where
  "connection_lost = mqtt_network_error ''connection_lost''"

text \<open>The reason code of an error that did not come from the broker.\<close>

definition client_side_reason_code :: int where
  "client_side_reason_code = -1"

definition connack_failure_atom :: "connect_return_code \<Rightarrow> string \<times> int" where
  "connack_failure_atom code =
     (case code of
        CrcSuccess \<Rightarrow> (''other'', 0)
      | CrcUnspecifiedError \<Rightarrow> (''unspecified_error'', 0x80)
      | CrcMalformedPacket \<Rightarrow> (''malformed_packet'', 0x81)
      | CrcProtocolError \<Rightarrow> (''protocol_error'', 0x82)
      | CrcImplementationSpecificError \<Rightarrow> (''implementation_specific_error'', 0x83)
      | CrcUnsupportedProtocolVersion \<Rightarrow> (''unsupported_protocol_version'', 0x84)
      | CrcRefusedProtocolVersion \<Rightarrow> (''unsupported_protocol_version'', 0x84)
      | CrcClientIdentifierNotValid \<Rightarrow> (''client_identifier_not_valid'', 0x85)
      | CrcBadClientId \<Rightarrow> (''client_identifier_not_valid'', 0x85)
      | CrcBadUserNamePassword \<Rightarrow> (''bad_user_name_or_password'', 0x86)
      | CrcNotAuthorized \<Rightarrow> (''not_authorized'', 0x87)
      | CrcServerUnavailable \<Rightarrow> (''server_unavailable'', 0x88)
      | CrcServiceUnavailable \<Rightarrow> (''server_unavailable'', 0x88)
      | CrcServerBusy \<Rightarrow> (''server_busy'', 0x89)
      | CrcBanned \<Rightarrow> (''banned'', 0x8A)
      | CrcBadAuthenticationMethod \<Rightarrow> (''bad_authentication_method'', 0x8C)
      | CrcTopicNameInvalid \<Rightarrow> (''topic_name_invalid'', 0x90)
      | CrcPacketTooLarge \<Rightarrow> (''packet_too_large'', 0x95)
      | CrcQuotaExceeded \<Rightarrow> (''quota_exceeded'', 0x97)
      | CrcPayloadFormatInvalid \<Rightarrow> (''payload_format_invalid'', 0x99)
      | CrcRetainNotSupported \<Rightarrow> (''retain_not_supported'', 0x9A)
      | CrcQoSNotSupported \<Rightarrow> (''qos_not_supported'', 0x9B)
      | CrcUseAnotherServer \<Rightarrow> (''use_another_server'', 0x9C)
      | CrcServerMoved \<Rightarrow> (''server_moved'', 0x9D)
      | CrcConnectionRateExceeded \<Rightarrow> (''connection_rate_exceeded'', 0x9F))"

definition suback_failure_atom :: "subscribe_reason \<Rightarrow> (string \<times> int) option" where
  "suback_failure_atom code =
     (case code of
        SrcSuccess _ \<Rightarrow> None
      | SrcFailure \<Rightarrow> Some (''unspecified_error'', 0x80)
      | SrcUnspecified \<Rightarrow> Some (''unspecified_error'', 0x80)
      | SrcImplementationSpecific \<Rightarrow> Some (''implementation_specific_error'', 0x83)
      | SrcNotAuthorized \<Rightarrow> Some (''not_authorized'', 0x87)
      | SrcTopicFilterInvalid \<Rightarrow> Some (''topic_filter_invalid'', 0x8F)
      | SrcPkidInUse \<Rightarrow> Some (''packet_identifier_in_use'', 0x91)
      | SrcQuotaExceeded \<Rightarrow> Some (''quota_exceeded'', 0x97)
      | SrcSharedSubscriptionsNotSupported \<Rightarrow> Some (''shared_subscriptions_not_supported'', 0x9E)
      | SrcSubscriptionIdNotSupported \<Rightarrow> Some (''subscription_identifiers_not_supported'', 0xA1)
      | SrcWildcardSubscriptionsNotSupported \<Rightarrow> Some (''wildcard_subscriptions_not_supported'', 0xA2))"

definition puback_failure_atom :: "puback_reason \<Rightarrow> (string \<times> int) option" where
  "puback_failure_atom reason =
     (case reason of
        ParSuccess \<Rightarrow> None
      | ParNoMatchingSubscribers \<Rightarrow> None
      | ParUnspecifiedError \<Rightarrow> Some (''unspecified_error'', 0x80)
      | ParImplementationSpecificError \<Rightarrow> Some (''implementation_specific_error'', 0x83)
      | ParNotAuthorized \<Rightarrow> Some (''not_authorized'', 0x87)
      | ParTopicNameInvalid \<Rightarrow> Some (''topic_name_invalid'', 0x90)
      | ParPacketIdentifierInUse \<Rightarrow> Some (''packet_identifier_in_use'', 0x91)
      | ParQuotaExceeded \<Rightarrow> Some (''quota_exceeded'', 0x97)
      | ParPayloadFormatInvalid \<Rightarrow> Some (''payload_format_invalid'', 0x99))"

text \<open>The first failing code of a SUBACK is the error.\<close>

fun suback_outcome :: "subscribe_reason list \<Rightarrow> run_outcome + unit" where
  "suback_outcome [] = Inr ()"
| "suback_outcome (code # codes) =
     (case suback_failure_atom code of
        Some (atom, byte) \<Rightarrow> Inl (mqtt_error atom byte)
      | None \<Rightarrow> suback_outcome codes)"

definition puback_outcome :: "puback_reason \<Rightarrow> run_outcome + unit" where
  "puback_outcome reason =
     (case puback_failure_atom reason of
        Some (atom, byte) \<Rightarrow> Inl (mqtt_error atom byte)
      | None \<Rightarrow> Inr ())"

definition pubcomp_outcome :: "run_outcome + unit" where
  "pubcomp_outcome = Inr ()"

section \<open>User properties\<close>

definition user_properties_to_dict :: "user_properties \<Rightarrow> dict" where
  "user_properties_to_dict props = fold (\<lambda>(k, v). index_insert k (VString v)) props []"

definition dict_to_user_properties :: "val option \<Rightarrow> unit + user_properties option" where
  "dict_to_user_properties v =
     (case v of
        None \<Rightarrow> Inr None
      | Some (VDict d) \<Rightarrow>
          map_sum id Some
            (try_map (\<lambda>(k, x). case x of VString s \<Rightarrow> Inr (k, s) | _ \<Rightarrow> Inl ()) d)
      | Some _ \<Rightarrow> Inl ())"

section \<open>Connections\<close>

text \<open>
  A waiter is the number of its oneshot channel. \<open>cn_sent\<close> holds what was sent on the channel whose
  receiver is still awaited. The publish inbox is a bounded channel: when it is full the task waits in
  \<open>send\<close> with the packet \<open>cn_blocked\<close>, and the polls that follow stay in \<open>cn_backlog\<close>.
\<close>

datatype ack_kind = AckSub | AckQos1 | AckQos2

record waiters =
  wq_sub :: "nat list"
  wq_qos1 :: "nat list"
  wq_qos2 :: "nat list"

record 'c mq_connected =
  cn_client :: 'c
  cn_running :: bool
  cn_publish_inbox :: "publish_packet list"
  cn_blocked :: "publish_packet option"
  cn_backlog :: "poll_result list"
  cn_disconnect_inbox :: "disconnect_packet list"
  cn_waiters :: waiters
  cn_fresh :: nat
  cn_sent :: "(nat \<times> (run_outcome + unit)) list"

definition inbox_cap :: nat where
  "inbox_cap = 64"

definition waiters_new :: waiters where
  "waiters_new = \<lparr>wq_sub = [], wq_qos1 = [], wq_qos2 = []\<rparr>"

definition waiter_queue :: "ack_kind \<Rightarrow> waiters \<Rightarrow> nat list" where
  "waiter_queue k ws = (case k of AckSub \<Rightarrow> wq_sub ws | AckQos1 \<Rightarrow> wq_qos1 ws | AckQos2 \<Rightarrow> wq_qos2 ws)"

definition set_waiter_queue :: "ack_kind \<Rightarrow> nat list \<Rightarrow> waiters \<Rightarrow> waiters" where
  "set_waiter_queue k q ws =
     (case k of
        AckSub \<Rightarrow> ws\<lparr>wq_sub := q\<rparr> | AckQos1 \<Rightarrow> ws\<lparr>wq_qos1 := q\<rparr> | AckQos2 \<Rightarrow> ws\<lparr>wq_qos2 := q\<rparr>)"

definition push_waiter :: "ack_kind \<Rightarrow> 'c mq_connected \<Rightarrow> nat \<times> 'c mq_connected" where
  "push_waiter k c =
     (let wid = cn_fresh c; ws = cn_waiters c
      in (wid, c\<lparr>cn_waiters := set_waiter_queue k (waiter_queue k ws @ [wid]) ws,
                cn_fresh := wid + 1, cn_sent := []\<rparr>))"

definition pop_waiter :: "ack_kind \<Rightarrow> 'c mq_connected \<Rightarrow> nat option \<times> 'c mq_connected" where
  "pop_waiter k c =
     (case waiter_queue k (cn_waiters c) of
        [] \<Rightarrow> (None, c)
      | wid # rest \<Rightarrow> (Some wid, c\<lparr>cn_waiters := set_waiter_queue k rest (cn_waiters c)\<rparr>))"

definition send_waiter :: "nat \<Rightarrow> run_outcome + unit \<Rightarrow> 'c mq_connected \<Rightarrow> 'c mq_connected" where
  "send_waiter wid r c = c\<lparr>cn_sent := (wid, r) # cn_sent c\<rparr>"

definition drain_waiters_with_error :: "ack_kind \<Rightarrow> run_outcome \<Rightarrow> 'c mq_connected \<Rightarrow> 'c mq_connected" where
  "drain_waiters_with_error k err c =
     fold (\<lambda>wid. send_waiter wid (Inl err)) (waiter_queue k (cn_waiters c))
       (c\<lparr>cn_waiters := set_waiter_queue k [] (cn_waiters c)\<rparr>)"

definition fail_all_with :: "run_outcome \<Rightarrow> 'c mq_connected \<Rightarrow> 'c mq_connected" where
  "fail_all_with err c =
     drain_waiters_with_error AckQos2 err
       (drain_waiters_with_error AckQos1 err (drain_waiters_with_error AckSub err c))"

section \<open>The event-loop task\<close>

definition ack_waiter :: "ack_kind \<Rightarrow> run_outcome + unit \<Rightarrow> 'c mq_connected \<Rightarrow> 'c mq_connected" where
  "ack_waiter k r c =
     (case pop_waiter k c of (Some wid, c1) \<Rightarrow> send_waiter wid r c1 | (None, c1) \<Rightarrow> c1)"

definition loop_exit :: "'c mq_connected \<Rightarrow> 'c mq_connected" where
  "loop_exit c = (fail_all_with connection_lost c)\<lparr>cn_running := False\<rparr>"

definition push_disconnect :: "disconnect_packet \<Rightarrow> 'c mq_connected \<Rightarrow> 'c mq_connected" where
  "push_disconnect d c = c\<lparr>cn_disconnect_inbox := cn_disconnect_inbox c @ [d]\<rparr>"

text \<open>One iteration of \<open>run_event_loop\<close>.\<close>

fun loop_event :: "poll_result \<Rightarrow> 'c mq_connected \<Rightarrow> 'c mq_connected" where
  "loop_event (Inl (CeServerDisconnect code)) c =
     loop_exit (push_disconnect \<lparr>dis_reason_code = code, dis_properties = None\<rparr> c)"
| "loop_event (Inl _) c = loop_exit c"
| "loop_event (Inr (EvPublish p)) c =
     (if length (cn_publish_inbox c) < inbox_cap
      then c\<lparr>cn_publish_inbox := cn_publish_inbox c @ [p]\<rparr>
      else c\<lparr>cn_blocked := Some p\<rparr>)"
| "loop_event (Inr (EvDisconnect d)) c = loop_exit (push_disconnect d c)"
| "loop_event (Inr (EvSubAck codes)) c = ack_waiter AckSub (suback_outcome codes) c"
| "loop_event (Inr (EvPubAck reason)) c = ack_waiter AckQos1 (puback_outcome reason) c"
| "loop_event (Inr EvPubComp) c = ack_waiter AckQos2 pubcomp_outcome c"
| "loop_event (Inr _) c = c"

fun run_event_loop :: "poll_result list \<Rightarrow> 'c mq_connected \<Rightarrow> 'c mq_connected" where
  "run_event_loop [] c = c"
| "run_event_loop (e # es) c =
     (if \<not> cn_running c then c
      else if cn_blocked c \<noteq> None then c\<lparr>cn_backlog := e # es\<rparr>
      else run_event_loop es (loop_event e c))"

text \<open>New polls come after the ones a full inbox held back.\<close>

definition drive :: "poll_result list \<Rightarrow> 'c mq_connected \<Rightarrow> 'c mq_connected" where
  "drive events c = run_event_loop (cn_backlog c @ events) (c\<lparr>cn_backlog := []\<rparr>)"

text \<open>\<open>publish_inbox.recv()\<close> of a queued packet; a blocked \<open>send\<close> then completes.\<close>

definition recv_publish :: "'c mq_connected \<Rightarrow> (publish_packet \<times> 'c mq_connected) option" where
  "recv_publish c =
     (case cn_publish_inbox c of
        [] \<Rightarrow> None
      | p # rest \<Rightarrow>
          Some (p, case cn_blocked c of
                     None \<Rightarrow> c\<lparr>cn_publish_inbox := rest\<rparr>
                   | Some b \<Rightarrow> drive [] (c\<lparr>cn_publish_inbox := rest @ [b], cn_blocked := None\<rparr>)))"

section \<open>Services\<close>

record mqtt_options =
  mo_client_id :: string
  mo_host :: string
  mo_port :: u16
  mo_request_capacity :: nat
  mo_clean_start :: "bool option"
  mo_keep_alive :: "duration option"
  mo_credentials :: "(string \<times> string) option"
  mo_user_properties :: "user_properties option"

record ('c, 'w) mqtt_services =
  ms_clock :: "'w clock"
  ms_handshake :: "mqtt_options \<Rightarrow> duration \<Rightarrow> 'w \<Rightarrow> ('c \<times> poll_result list) \<times> 'w"
  ms_subscribe :: "'c \<Rightarrow> string \<Rightarrow> qos \<Rightarrow> user_properties option \<Rightarrow> 'w \<Rightarrow> bool \<times> 'w"
  ms_publish :: "'c \<Rightarrow> string \<Rightarrow> qos \<Rightarrow> u8 list \<Rightarrow> user_properties option \<Rightarrow> 'w \<Rightarrow> bool \<times> 'w"
  ms_disconnect :: "'c \<Rightarrow> 'w \<Rightarrow> 'w"
  ms_await_ack :: "'c \<Rightarrow> 'w \<Rightarrow> poll_result list \<times> 'w"
  ms_await_recv :: "duration \<Rightarrow> 'c \<Rightarrow> 'w \<Rightarrow> poll_result list \<times> 'w"
  ms_abort :: "'c \<Rightarrow> 'w \<Rightarrow> 'w"

section \<open>Connecting\<close>

definition mqtt_port :: "val option \<Rightarrow> u16 option" where
  "mqtt_port v =
     (case v of
        Some (VNumber n) \<Rightarrow> if 0 < n \<and> n \<le> 65535 then Some (word_of_int n) else None
      | None \<Rightarrow> Some 1883
      | Some _ \<Rightarrow> None)"

definition string_kw :: "val option \<Rightarrow> string \<Rightarrow> string option" where
  "string_kw v dflt = (case v of Some (VString s) \<Rightarrow> Some s | None \<Rightarrow> Some dflt | Some _ \<Rightarrow> None)"

definition credentials_kw :: "val option \<Rightarrow> val option \<Rightarrow> unit + (string \<times> string) option" where
  "credentials_kw username password =
     (case (username, password) of
        (Some (VString u), Some (VString p)) \<Rightarrow> Inr (Some (u, p))
      | (Some (VString u), None) \<Rightarrow> Inr (Some (u, []))
      | (None, _) \<Rightarrow> Inr None
      | _ \<Rightarrow> Inl ())"

definition build_connect_config :: "dict \<Rightarrow> (mqtt_options \<times> duration) option" where
  "build_connect_config kw =
     (case string_kw (map_of kw ''host'') ''127.0.0.1'' of
        None \<Rightarrow> None
      | Some host \<Rightarrow>
          (case mqtt_port (map_of kw ''port'') of
             None \<Rightarrow> None
           | Some port \<Rightarrow>
               (case string_kw (map_of kw ''client_id'') [] of
                  None \<Rightarrow> None
                | Some client_id \<Rightarrow>
                    (case credentials_kw (map_of kw ''username'') (map_of kw ''password'') of
                       Inl _ \<Rightarrow> None
                     | Inr credentials \<Rightarrow>
                         (case dict_to_user_properties (map_of kw ''user_properties'') of
                            Inl _ \<Rightarrow> None
                          | Inr props \<Rightarrow>
                              Some (\<lparr>mo_client_id = client_id, mo_host = host, mo_port = port,
                                     mo_request_capacity = 10,
                                     mo_clean_start =
                                       (case map_of kw ''clean_start'' of Some (VBool b) \<Rightarrow> Some b | _ \<Rightarrow> None),
                                     mo_keep_alive =
                                       (case map_of kw ''keep_alive'' of
                                          Some (VNumber secs) \<Rightarrow>
                                            if 0 < secs then Some (from_secs (nat secs)) else None
                                        | _ \<Rightarrow> Some (from_secs 60)),
                                     mo_credentials = credentials,
                                     mo_user_properties = props\<rparr>,
                                    millis_or (map_of kw ''timeout'') (from_secs 10)))))))"

definition connack_to_ok :: "conn_ack \<Rightarrow> dict" where
  "connack_to_ok ack =
     (let (assigned, props) =
        (case ack_properties ack of
           Some (client_id, up) \<Rightarrow>
             (case client_id of Some s \<Rightarrow> s | None \<Rightarrow> [], user_properties_to_dict up)
         | None \<Rightarrow> ([], []))
      in into_dict mqtt_connect_ok_fields
           [VBool (ack_session_present ack), VString assigned, VDict props])"

definition mqtt_classify_connect_error :: "connection_error \<Rightarrow> run_outcome" where
  "mqtt_classify_connect_error e =
     (case e of
        CeConnectionRefused code \<Rightarrow> (let (atom, byte) = connack_failure_atom code in mqtt_error atom byte)
      | CeIo kind \<Rightarrow>
          (case kind of
             IoConnectionRefused \<Rightarrow> mqtt_network_error ''connection_refused''
           | IoTimedOut \<Rightarrow> mqtt_network_error ''timeout''
           | IoConnectionReset \<Rightarrow> mqtt_network_error ''connection_lost''
           | IoConnectionAborted \<Rightarrow> mqtt_network_error ''connection_lost''
           | IoBrokenPipe \<Rightarrow> mqtt_network_error ''connection_lost''
           | _ \<Rightarrow> mqtt_network_error ''host_unreachable'')
      | CeTimeout \<Rightarrow> mqtt_network_error ''timeout''
      | CeNotConnAck \<Rightarrow> mqtt_error ''protocol_error'' client_side_reason_code
      | _ \<Rightarrow> mqtt_network_error ''other'')"

definition spawn_connected :: "'c \<Rightarrow> 'c mq_connected" where
  "spawn_connected client =
     \<lparr>cn_client = client, cn_running = True, cn_publish_inbox = [], cn_blocked = None, cn_backlog = [],
      cn_disconnect_inbox = [], cn_waiters = waiters_new, cn_fresh = 0, cn_sent = []\<rparr>"

text \<open>
  The polls of one handshake, up to the one that ends it; \<open>None\<close> when the budget expired before.
\<close>

fun attempt_connect :: "'c \<Rightarrow> poll_result list \<Rightarrow> (run_outcome + 'c mq_connected \<times> run_outcome) option" where
  "attempt_connect client [] = None"
| "attempt_connect client (Inr (EvConnAck ack) # polls) =
     Some (if ack_code ack = CrcSuccess then Inr (spawn_connected client, RunOk (connack_to_ok ack))
           else let (atom, code) = connack_failure_atom (ack_code ack) in Inl (mqtt_error atom code))"
| "attempt_connect client (Inl e # polls) = Some (Inl (mqtt_classify_connect_error e))"
| "attempt_connect client (Inr _ # polls) = attempt_connect client polls"

datatype 'c mqtt_mode = MmDisconnected | MmConnected "'c mq_connected"

record 'c mqtt_instance =
  mq_mode :: "'c mqtt_mode"

definition mqtt_construct :: "construct_args \<Rightarrow> runtime_error + 'c mqtt_instance" where
  "mqtt_construct args = Inr \<lparr>mq_mode = MmDisconnected\<rparr>"

definition mqtt_attempt ::
  "('c, 'w) mqtt_services \<Rightarrow> mqtt_options \<Rightarrow> ('c mq_connected \<times> run_outcome, 'w) attempt" where
  "mqtt_attempt sv options remaining w =
     (let ((client, polls), w1) = ms_handshake sv options remaining w in (attempt_connect client polls, w1))"

definition mqtt_disconnected_connect ::
  "('c, 'w) mqtt_services \<Rightarrow> dict \<Rightarrow> 'w \<Rightarrow> 'c mqtt_mode \<times> run_outcome \<times> 'w" where
  "mqtt_disconnected_connect sv kw w =
     (case build_connect_config kw of
        None \<Rightarrow> (MmDisconnected, mqtt_error ''other'' client_side_reason_code, w)
      | Some (options, timeout) \<Rightarrow>
          (case connect_within (ms_clock sv) (mqtt_attempt sv options) (mqtt_network_error ''timeout'')
                  timeout w of
             (Inr (conn, outcome), w1) \<Rightarrow> (MmConnected conn, outcome, w1)
           | (Inl outcome, w1) \<Rightarrow> (MmDisconnected, outcome, w1)))"

section \<open>Disconnecting\<close>

text \<open>The keyword arguments are accepted and not used; dropping \<open>Connected\<close> aborts the task.\<close>

definition mqtt_connected_disconnect ::
  "('c, 'w) mqtt_services \<Rightarrow> 'c mq_connected \<Rightarrow> 'w \<Rightarrow> 'c mqtt_mode \<times> run_outcome \<times> 'w" where
  "mqtt_connected_disconnect sv conn w =
     (MmDisconnected, RunOk [], ms_abort sv (cn_client conn) (ms_disconnect sv (cn_client conn) w))"

definition mqtt_connected_teardown ::
  "('c, 'w) mqtt_services \<Rightarrow> 'c mq_connected \<Rightarrow> 'w \<Rightarrow> 'c mqtt_mode \<times> teardown_outcome \<times> 'w" where
  "mqtt_connected_teardown sv conn w =
     (MmDisconnected, teardown_ok, ms_abort sv (cn_client conn) (ms_disconnect sv (cn_client conn) w))"

section \<open>Subscribing and publishing\<close>

text \<open>
  \<open>rx.await\<close> on the channel \<open>wid\<close>, once the task has handled what arrives: the result that was sent; the
  end of a channel whose sender was dropped with the task; and \<open>None\<close>, no end of the wait, while the
  task lives and has sent nothing, be it that no answer arrives or that it is blocked on a full inbox.
\<close>

definition rx_await :: "nat \<Rightarrow> 'c mq_connected \<Rightarrow> run_outcome option" where
  "rx_await wid conn =
     (case map_of (cn_sent conn) wid of
        Some (Inr _) \<Rightarrow> Some (RunOk [])
      | Some (Inl outcome) \<Rightarrow> Some outcome
      | None \<Rightarrow> if cn_running conn then None else Some connection_lost)"

text \<open>
  The commands are total functions. For a wait without end, which the program never comes back from, this
  one answers \<open>connection_lost\<close>; \<open>rx_await\<close> tells the two apart, and \<open>Ill_Mqtt_Race\<close> treats such waits.
\<close>

definition await_waiter ::
  "('c, 'w) mqtt_services \<Rightarrow> nat \<Rightarrow> 'c mq_connected \<Rightarrow> 'w \<Rightarrow> run_outcome \<times> 'c mq_connected \<times> 'w" where
  "await_waiter sv wid conn w =
     (let (events, w1) = ms_await_ack sv (cn_client conn) w; conn1 = drive events conn
      in (case rx_await wid conn1 of Some outcome \<Rightarrow> outcome | None \<Rightarrow> connection_lost, conn1, w1))"

definition mqtt_subscribe ::
  "('c, 'w) mqtt_services \<Rightarrow> qos \<Rightarrow> command_args \<Rightarrow> 'c mq_connected \<Rightarrow> 'w
     \<Rightarrow> run_outcome \<times> 'c mq_connected \<times> 'w" where
  "mqtt_subscribe sv q args conn w =
     (case args_positional args of
        VString topic # _ \<Rightarrow>
          (case dict_to_user_properties (args_kw args ''user_properties'') of
             Inl _ \<Rightarrow> (mqtt_error ''other'' client_side_reason_code, conn, w)
           | Inr props \<Rightarrow>
               (let (wid, conn1) = push_waiter AckSub conn;
                    (sent, w1) = ms_subscribe sv (cn_client conn1) topic q props w
                in if \<not> sent then (connection_lost, snd (pop_waiter AckSub conn1), w1)
                   else await_waiter sv wid conn1 w1))
      | _ \<Rightarrow> (mqtt_error ''topic_filter_invalid'' client_side_reason_code, conn, w))"

definition payload_of :: "val list \<Rightarrow> u8 list option" where
  "payload_of positional =
     (case positional of
        _ # VBytes b # _ \<Rightarrow> Some b
      | _ # VString s # _ \<Rightarrow> Some (as_bytes s)
      | _ \<Rightarrow> None)"

definition mqtt_publish ::
  "('c, 'w) mqtt_services \<Rightarrow> qos \<Rightarrow> command_args \<Rightarrow> 'c mq_connected \<Rightarrow> 'w
     \<Rightarrow> run_outcome \<times> 'c mq_connected \<times> 'w" where
  "mqtt_publish sv q args conn w =
     (case args_positional args of
        VString topic # _ \<Rightarrow>
          if topic = [] then (mqtt_error ''invalid_topic'' client_side_reason_code, conn, w)
          else
            (case payload_of (args_positional args) of
               None \<Rightarrow> (mqtt_error ''payload_format_invalid'' client_side_reason_code, conn, w)
             | Some payload \<Rightarrow>
                 (case dict_to_user_properties (args_kw args ''user_properties'') of
                    Inl _ \<Rightarrow> (mqtt_error ''other'' client_side_reason_code, conn, w)
                  | Inr props \<Rightarrow>
                      if q = AtMostOnce then
                        (let (sent, w1) = ms_publish sv (cn_client conn) topic q payload props w
                         in (if sent then RunOk [] else connection_lost, conn, w1))
                      else
                        (let kind = (if q = AtLeastOnce then AckQos1 else AckQos2);
                             (wid, conn1) = push_waiter kind conn;
                             (sent, w1) = ms_publish sv (cn_client conn1) topic q payload props w
                         in if \<not> sent then (connection_lost, snd (pop_waiter kind conn1), w1)
                            else await_waiter sv wid conn1 w1)))
      | _ \<Rightarrow> (mqtt_error ''topic_name_invalid'' client_side_reason_code, conn, w))"

section \<open>Receiving\<close>

definition receive_timeout :: "command_args \<Rightarrow> duration" where
  "receive_timeout args =
     (case args_kw args ''timeout'' of
        Some (VNumber n) \<Rightarrow> if 0 < n then from_secs (nat n) else from_secs 5
      | _ \<Rightarrow> from_secs 5)"

definition publish_to_ok :: "publish_packet \<Rightarrow> dict" where
  "publish_to_ok p =
     into_dict mqtt_receive_publish_ok_fields
       [VString (from_bytes (utf8_lossy (pub_topic p))), VBytes (pub_payload p),
        VNumber (qos_to_byte (pub_qos p)),
        VDict (case pub_properties p of Some props \<Rightarrow> user_properties_to_dict props | None \<Rightarrow> [])]"

text \<open>
  \<open>timeout(d, inbox.recv())\<close>: a queued packet first, then the end of a task that has exited, else
  the time is up.
\<close>

definition receive_publish ::
  "('c, 'w) mqtt_services \<Rightarrow> command_args \<Rightarrow> 'c mq_connected \<Rightarrow> 'w \<Rightarrow> run_outcome \<times> 'c mq_connected \<times> 'w" where
  "receive_publish sv args conn w =
     (let (events, w1) = ms_await_recv sv (receive_timeout args) (cn_client conn) w;
          conn1 = drive events conn
      in case recv_publish conn1 of
           Some (p, conn2) \<Rightarrow> (RunOk (publish_to_ok p), conn2, w1)
         | None \<Rightarrow> (if cn_running conn1 then timeout_error else connection_lost, conn1, w1))"

definition receive_disconnect ::
  "('c, 'w) mqtt_services \<Rightarrow> command_args \<Rightarrow> 'c mq_connected \<Rightarrow> 'w \<Rightarrow> 'c mqtt_mode \<times> run_outcome \<times> 'w" where
  "receive_disconnect sv args conn w =
     (let (events, w1) = ms_await_recv sv (receive_timeout args) (cn_client conn) w;
          conn1 = drive events conn
      in case cn_disconnect_inbox conn1 of
           d # _ \<Rightarrow>
             (MmDisconnected,
              RunOk (into_dict mqtt_receive_disconnect_ok_fields
                [VNumber (dis_reason_code d),
                 VDict (case dis_properties d of Some props \<Rightarrow> user_properties_to_dict props | None \<Rightarrow> [])]),
              ms_abort sv (cn_client conn) w1)
         | [] \<Rightarrow>
             if cn_running conn1 then (MmConnected conn1, timeout_error, w1)
             else (MmDisconnected, connection_lost, ms_abort sv (cn_client conn) w1))"

section \<open>Instance\<close>

definition keep_connected ::
  "run_outcome \<times> 'c mq_connected \<times> 'w \<Rightarrow> 'c mqtt_mode \<times> run_outcome \<times> 'w" where
  "keep_connected r = (case r of (outcome, conn, w) \<Rightarrow> (MmConnected conn, outcome, w))"

definition mqtt_execute ::
  "('c, 'w) mqtt_services \<Rightarrow> 'c mqtt_instance \<Rightarrow> string \<Rightarrow> command_args \<Rightarrow> 'w
     \<Rightarrow> run_outcome \<times> 'c mqtt_instance \<times> 'w" where
  "mqtt_execute sv inst cmd args w =
     (let (next_mode, outcome, w') =
        (case mq_mode inst of
           MmDisconnected \<Rightarrow>
             if cmd = ''connect'' then mqtt_disconnected_connect sv (args_keyword args) w
             else (MmDisconnected, RunNotImplemented ''mqtt_client'' cmd, w)
         | MmConnected conn \<Rightarrow>
             if cmd = ''disconnect'' then mqtt_connected_disconnect sv conn w
             else if cmd = ''subscribe_0'' then keep_connected (mqtt_subscribe sv AtMostOnce args conn w)
             else if cmd = ''subscribe_1'' then keep_connected (mqtt_subscribe sv AtLeastOnce args conn w)
             else if cmd = ''subscribe_2'' then keep_connected (mqtt_subscribe sv ExactlyOnce args conn w)
             else if cmd = ''publish_0'' then keep_connected (mqtt_publish sv AtMostOnce args conn w)
             else if cmd = ''publish_1'' then keep_connected (mqtt_publish sv AtLeastOnce args conn w)
             else if cmd = ''publish_2'' then keep_connected (mqtt_publish sv ExactlyOnce args conn w)
             else if cmd = ''receive_publish'' then keep_connected (receive_publish sv args conn w)
             else if cmd = ''receive_disconnect'' then receive_disconnect sv args conn w
             else (MmConnected conn, RunNotImplemented ''mqtt_client'' cmd, w))
      in (outcome, inst\<lparr>mq_mode := next_mode\<rparr>, w'))"

definition mqtt_teardown ::
  "('c, 'w) mqtt_services \<Rightarrow> 'c mqtt_instance \<Rightarrow> 'w \<Rightarrow> teardown_outcome \<times> 'c mqtt_instance \<times> 'w" where
  "mqtt_teardown sv inst w =
     (let (next_mode, outcome, w') =
        (case mq_mode inst of
           MmDisconnected \<Rightarrow> (MmDisconnected, teardown_ok, w)
         | MmConnected conn \<Rightarrow> mqtt_connected_teardown sv conn w)
      in (outcome, inst\<lparr>mq_mode := next_mode\<rparr>, w'))"

definition mqtt_mode_of :: "'c mqtt_instance \<Rightarrow> mode" where
  "mqtt_mode_of inst = (case mq_mode inst of MmDisconnected \<Rightarrow> MqttDisconnected | MmConnected _ \<Rightarrow> MqttConnected)"

end
