(* ===== verification/Ill_Mqtt_Facts.thy ===== *)
theory Ill_Mqtt_Facts
  imports Ill_Mqtt
begin

text \<open>
  Facts about the \<open>mqtt_client\<close> runtime: its answers are the ones its schema declares, up to the
  \<open>network\<close> error of three commands; the waiter queues match acknowledgements to requests; the bounded
  inbox keeps every packet in order.
\<close>

section \<open>Queues\<close>

lemma waiter_queue_set [simp]:
  "waiter_queue k (set_waiter_queue k' q ws) = (if k = k' then q else waiter_queue k ws)"
  by (cases k; cases k') (simp_all add: waiter_queue_def set_waiter_queue_def)

definition idle :: "'c mq_connected \<Rightarrow> bool" where
  "idle c \<longleftrightarrow> (\<forall>k. waiter_queue k (cn_waiters c) = [])"

lemma idle_spawn: "idle (spawn_connected client)"
  by (simp add: idle_def spawn_connected_def waiters_new_def waiter_queue_def split: ack_kind.split)

lemma mqtt_teardown_twice:
  "mqtt_teardown sv (fst (snd (mqtt_teardown sv inst w))) w' = (teardown_ok, fst (snd (mqtt_teardown sv inst w)), w')"
  by (auto simp: mqtt_teardown_def mqtt_connected_teardown_def split: mqtt_mode.splits prod.splits)

lemma fold_send_waiter:
  "fold (\<lambda>wid. send_waiter wid r) ids c = c\<lparr>cn_sent := rev (map (\<lambda>i. (i, r)) ids) @ cn_sent c\<rparr>"
  by (induction ids arbitrary: c) (simp_all add: send_waiter_def)

lemma drain_sel [simp]:
  "cn_waiters (drain_waiters_with_error k err c) = set_waiter_queue k [] (cn_waiters c)"
  "cn_sent (drain_waiters_with_error k err c) =
     rev (map (\<lambda>i. (i, Inl err)) (waiter_queue k (cn_waiters c))) @ cn_sent c"
  "cn_client (drain_waiters_with_error k err c) = cn_client c"
  "cn_running (drain_waiters_with_error k err c) = cn_running c"
  "cn_publish_inbox (drain_waiters_with_error k err c) = cn_publish_inbox c"
  "cn_blocked (drain_waiters_with_error k err c) = cn_blocked c"
  "cn_backlog (drain_waiters_with_error k err c) = cn_backlog c"
  "cn_disconnect_inbox (drain_waiters_with_error k err c) = cn_disconnect_inbox c"
  by (simp_all add: drain_waiters_with_error_def fold_send_waiter)

lemma loop_exit_sel [simp]:
  "waiter_queue k (cn_waiters (loop_exit c)) = []"
  "cn_running (loop_exit c) = False"
  "cn_client (loop_exit c) = cn_client c"
  "cn_publish_inbox (loop_exit c) = cn_publish_inbox c"
  "cn_blocked (loop_exit c) = cn_blocked c"
  "cn_backlog (loop_exit c) = cn_backlog c"
  "cn_disconnect_inbox (loop_exit c) = cn_disconnect_inbox c"
  by (cases k; simp add: loop_exit_def fail_all_with_def)+

lemma cn_sent_loop_exit:
  "cn_sent (loop_exit c) =
     map (\<lambda>i. (i, Inl connection_lost))
       (rev (waiter_queue AckQos2 (cn_waiters c)) @ rev (waiter_queue AckQos1 (cn_waiters c)) @
        rev (waiter_queue AckSub (cn_waiters c))) @ cn_sent c"
  by (simp add: loop_exit_def fail_all_with_def rev_map)

lemma ack_waiter_eq:
  "ack_waiter k r c =
     (case waiter_queue k (cn_waiters c) of
        [] \<Rightarrow> c
      | i # rest \<Rightarrow> c\<lparr>cn_waiters := set_waiter_queue k rest (cn_waiters c), cn_sent := (i, r) # cn_sent c\<rparr>)"
  by (simp add: ack_waiter_def pop_waiter_def send_waiter_def split: list.split)

lemma ack_waiter_sel [simp]:
  "cn_running (ack_waiter k r c) = cn_running c"
  "cn_client (ack_waiter k r c) = cn_client c"
  "cn_publish_inbox (ack_waiter k r c) = cn_publish_inbox c"
  "cn_blocked (ack_waiter k r c) = cn_blocked c"
  "cn_backlog (ack_waiter k r c) = cn_backlog c"
  by (simp_all add: ack_waiter_eq split: list.split)

lemma push_disconnect_sel [simp]:
  "cn_waiters (push_disconnect d c) = cn_waiters c" "cn_sent (push_disconnect d c) = cn_sent c"
  "cn_running (push_disconnect d c) = cn_running c" "cn_client (push_disconnect d c) = cn_client c"
  "cn_publish_inbox (push_disconnect d c) = cn_publish_inbox c"
  "cn_blocked (push_disconnect d c) = cn_blocked c" "cn_backlog (push_disconnect d c) = cn_backlog c"
  by (simp_all add: push_disconnect_def)

lemma cn_client_loop_event [simp]: "cn_client (loop_event e c) = cn_client c"
  by (cases "(e, c)" rule: loop_event.cases) simp_all

section \<open>The answers follow the schema\<close>

text \<open>The errors a waiter can carry.\<close>

definition broker_error :: "run_outcome \<Rightarrow> bool" where
  "broker_error out \<longleftrightarrow> (\<exists>a n. out = mqtt_error a n) \<or> (\<exists>r. out = mqtt_network_error r)"

definition ack_ok :: "run_outcome + unit \<Rightarrow> bool" where
  "ack_ok r \<longleftrightarrow> (case r of Inr _ \<Rightarrow> True | Inl out \<Rightarrow> broker_error out)"

lemma broker_error_simps [simp]:
  "broker_error (mqtt_error a n)" "broker_error (mqtt_network_error r)" "broker_error connection_lost"
  by (auto simp: broker_error_def connection_lost_def)

lemma ack_ok_outcomes [simp]:
  "ack_ok (suback_outcome codes)" "ack_ok (puback_outcome reason)" "ack_ok pubcomp_outcome"
proof -
  show "ack_ok (suback_outcome codes)"
    by (induction codes) (simp_all add: ack_ok_def split: option.split prod.split)
qed (simp_all add: ack_ok_def puback_outcome_def pubcomp_outcome_def split: option.split prod.split)

definition sent_ok :: "'c mq_connected \<Rightarrow> bool" where
  "sent_ok c \<longleftrightarrow> (\<forall>(i, r) \<in> set (cn_sent c). ack_ok r)"

lemma sent_ok_update [simp]:
  "sent_ok (c\<lparr>cn_publish_inbox := ps\<rparr>) = sent_ok c" "sent_ok (c\<lparr>cn_blocked := b\<rparr>) = sent_ok c"
  "sent_ok (c\<lparr>cn_backlog := es\<rparr>) = sent_ok c" "sent_ok (push_disconnect d c) = sent_ok c"
  by (simp_all add: sent_ok_def)

lemma sent_ok_loop_exit: "sent_ok c \<Longrightarrow> sent_ok (loop_exit c)"
  by (auto simp: sent_ok_def cn_sent_loop_exit ack_ok_def)

lemma sent_ok_ack: "sent_ok c \<Longrightarrow> ack_ok r \<Longrightarrow> sent_ok (ack_waiter k r c)"
  by (auto simp: sent_ok_def ack_waiter_eq split: list.split)

lemma sent_ok_loop_event: "sent_ok c \<Longrightarrow> sent_ok (loop_event e c)"
  by (cases "(e, c)" rule: loop_event.cases) (simp_all add: sent_ok_loop_exit sent_ok_ack)

lemma sent_ok_run: "sent_ok c \<Longrightarrow> sent_ok (run_event_loop es c)"
  by (induction es c rule: run_event_loop.induct) (simp_all add: sent_ok_loop_event)

lemma sent_ok_drive: "sent_ok c \<Longrightarrow> sent_ok (drive es c)"
  unfolding drive_def by (rule sent_ok_run) simp

lemma await_waiter_answer:
  assumes "sent_ok conn" and "await_waiter sv i conn w = (out, conn', w')"
  shows "out = RunOk [] \<or> broker_error out"
proof -
  obtain events w1 where ev: "ms_await_ack sv (cn_client conn) w = (events, w1)"
    by (cases "ms_await_ack sv (cn_client conn) w")
  have "ack_ok r" if "map_of (cn_sent (drive events conn)) i = Some r" for r
    using sent_ok_drive [OF assms(1), of events] map_of_SomeD [OF that] by (auto simp: sent_ok_def)
  with assms(2) ev show ?thesis
    by (auto simp: await_waiter_def rx_await_def Let_def ack_ok_def split: option.splits sum.splits if_splits)
qed

lemma sent_ok_push: "sent_ok (snd (push_waiter k c))"
  by (simp add: sent_ok_def push_waiter_def Let_def)

lemma mqtt_subscribe_answer:
  assumes "mqtt_subscribe sv q args conn w = (out, conn', w')"
  shows "out = RunOk [] \<or> broker_error out"
  using assms sent_ok_push [of AckSub conn]
  by (auto simp: mqtt_subscribe_def Let_def split: list.splits val.splits sum.splits prod.splits if_splits
      dest: await_waiter_answer)

lemma mqtt_publish_answer:
  assumes "mqtt_publish sv q args conn w = (out, conn', w')"
  shows "out = RunOk [] \<or> broker_error out"
  using assms sent_ok_push [of AckQos1 conn] sent_ok_push [of AckQos2 conn]
  by (auto simp: mqtt_publish_def Let_def split: list.splits val.splits sum.splits prod.splits if_splits
      option.splits dest: await_waiter_answer)

text \<open>
  The three commands whose schema has no \<open>network\<close> error, although the runtime answers with one
  when the event loop has ended.
\<close>

definition mqtt_covers :: "string \<Rightarrow> string \<Rightarrow> bool" where
  "mqtt_covers c variant \<longleftrightarrow>
     variant \<noteq> ''network'' \<or> c \<notin> {''publish_0'', ''receive_publish'', ''receive_disconnect''}"

lemma mqtt_command_sel:
  "cd_name mqtt_connect = ''connect''" "cd_name mqtt_disconnect = ''disconnect''"
  "cd_name (subscribe_cmd n) = n" "cd_name (publish_cmd n es) = n"
  "cd_name mqtt_receive_publish = ''receive_publish''"
  "cd_name mqtt_receive_disconnect = ''receive_disconnect''"
  "cd_valid_in_modes mqtt_connect = [MqttDisconnected]" "cd_valid_in_modes mqtt_disconnect = [MqttConnected]"
  "cd_valid_in_modes (subscribe_cmd n) = [MqttConnected]" "cd_valid_in_modes (publish_cmd n es) = [MqttConnected]"
  "cd_valid_in_modes mqtt_receive_publish = [MqttConnected]"
  "cd_valid_in_modes mqtt_receive_disconnect = [MqttConnected]"
  by (simp_all add: mqtt_schema)

lemma mqtt_commandD:
  assumes "find_command mqtt_client c = Some cd"
  shows "c = ''connect'' \<and> cd = mqtt_connect \<or> c = ''disconnect'' \<and> cd = mqtt_disconnect \<or>
     c \<in> {''subscribe_0'', ''subscribe_1'', ''subscribe_2''} \<and> cd = subscribe_cmd c \<or>
     c = ''publish_0'' \<and> cd = publish_cmd c mqtt_publish_qos0_error_types \<or>
     c \<in> {''publish_1'', ''publish_2''} \<and> cd = publish_cmd c mqtt_network_and_mqtt_error_types \<or>
     c = ''receive_publish'' \<and> cd = mqtt_receive_publish \<or>
     c = ''receive_disconnect'' \<and> cd = mqtt_receive_disconnect"
proof -
  have "cd \<in> set mqtt_commands" "cd_name cd = c"
    using find_command_SomeD [OF assms] by (simp_all add: mqtt_client_def)
  then show ?thesis unfolding mqtt_commands_def list.set insert_iff empty_iff
    by (elim disjE) (simp_all add: mqtt_command_sel)
qed

lemma mqtt_errors_declared:
  "cd_error_types cd = mqtt_network_and_mqtt_error_types \<Longrightarrow>
     declared_error cd ''network'' (into_dict mqtt_network_error_fields [VAtom r])"
  "cd_error_types cd \<in> {mqtt_network_and_mqtt_error_types, mqtt_publish_qos0_error_types, mqtt_receive_error_types} \<Longrightarrow>
     declared_error cd ''mqtt'' (into_dict mqtt_error_fields [VAtom r, VNumber n])"
  "cd_error_types cd = mqtt_receive_error_types \<Longrightarrow> declared_error cd ''timeout'' (into_dict mqtt_timeout_error_fields [])"
  by (auto simp: declared_error_def outcome_ok_def into_dict_def mqtt_schema)

lemma broker_error_conforms:
  assumes "broker_error out"
    and "cd_error_types cd = mqtt_network_and_mqtt_error_types \<or>
         cd_error_types cd \<in> {mqtt_publish_qos0_error_types, mqtt_receive_error_types} \<and> \<not> covered ''network''"
  shows "conforms cd kept covered m out m"
  using assms
  by (auto simp: broker_error_def conforms_def mqtt_error_def mqtt_network_error_def mqtt_errors_declared)

lemma answer_conforms:
  assumes "out = RunOk [] \<or> broker_error out" and "cd_transitions_to cd = None" and "cd_ok_fields cd = []"
    and "cd_error_types cd = mqtt_network_and_mqtt_error_types \<or>
         cd_error_types cd \<in> {mqtt_publish_qos0_error_types, mqtt_receive_error_types} \<and> \<not> covered ''network''"
  shows "conforms cd kept covered m out m"
  using assms(1)
proof
  assume "out = RunOk []"
  with assms(2,3) show ?thesis by (simp add: conforms_def mode_after_def outcome_ok_def)
next
  assume "broker_error out"
  then show ?thesis using broker_error_conforms [of out cd covered] assms(4) by blast
qed

lemma outcome_ok_user_dicts:
  "outcome_ok mqtt_connect_ok_fields (into_dict mqtt_connect_ok_fields [VBool b, VString s, VDict d])"
  "outcome_ok mqtt_receive_publish_ok_fields
     (into_dict mqtt_receive_publish_ok_fields [VString t, VBytes p, VNumber n, VDict d])"
  "outcome_ok mqtt_receive_disconnect_ok_fields (into_dict mqtt_receive_disconnect_ok_fields [VNumber n, VDict d])"
  by (simp_all add: outcome_ok_def into_dict_def mqtt_schema)

lemma attempt_connect_answer:
  "attempt_connect client polls = Some r \<Longrightarrow>
   (case r of
      Inl out \<Rightarrow> broker_error out
    | Inr (conn, out) \<Rightarrow> conn = spawn_connected client \<and> (\<exists>ack. out = RunOk (connack_to_ok ack)))"
  by (induction client polls rule: attempt_connect.induct)
    (auto simp: mqtt_classify_connect_error_def Let_def split: prod.splits connection_error.split
      io_error_kind.split if_splits)

lemma mqtt_connect_answer:
  assumes "mqtt_disconnected_connect sv kw w = (m, out, w')"
  shows "m = MmDisconnected \<and> broker_error out \<or>
    (\<exists>client ack. m = MmConnected (spawn_connected client) \<and> out = RunOk (connack_to_ok ack))"
proof (cases "build_connect_config kw")
  case None
  with assms show ?thesis by (auto simp: mqtt_disconnected_connect_def)
next
  case (Some p)
  obtain options timeout where p: "p = (options, timeout)" by (cases p)
  let ?tried = "connect_within (ms_clock sv) (mqtt_attempt sv options) (mqtt_network_error ''timeout'') timeout w"
  obtain r w1 where r: "?tried = (r, w1)" by (cases ?tried)
  have "case r of
      Inl out \<Rightarrow> broker_error out
    | Inr (conn, out) \<Rightarrow> (\<exists>client ack. conn = spawn_connected client \<and> out = RunOk (connack_to_ok ack))"
    by (rule connect_within_from_attempt [OF r])
      (auto simp: mqtt_attempt_def Let_def split: prod.splits sum.splits dest!: attempt_connect_answer)
  with Some p r assms show ?thesis
    by (auto simp: mqtt_disconnected_connect_def split: sum.splits prod.splits)
qed

lemma connack_to_ok_fields: "outcome_ok mqtt_connect_ok_fields (connack_to_ok ack)"
  by (simp add: connack_to_ok_def outcome_ok_user_dicts Let_def split: prod.split)

lemma receive_publish_answer:
  assumes "receive_publish sv args conn w = (out, conn', w')"
  shows "(\<exists>p. out = RunOk (publish_to_ok p)) \<or> out = timeout_error \<or> out = connection_lost"
  using assms by (auto simp: receive_publish_def Let_def split: prod.splits option.splits if_splits)

lemma receive_disconnect_answer:
  assumes "receive_disconnect sv args conn w = (m, out, w')"
  shows "m = MmDisconnected \<and>
      (\<exists>n d. out = RunOk (into_dict mqtt_receive_disconnect_ok_fields [VNumber n, VDict d])) \<or>
    m = MmDisconnected \<and> out = connection_lost \<or> (\<exists>c. m = MmConnected c) \<and> out = timeout_error"
  using assms by (auto simp: receive_disconnect_def Let_def split: prod.splits list.splits if_splits)

lemma receive_error_conforms:
  assumes "out = timeout_error \<or> out = connection_lost" and "cd_error_types cd = mqtt_receive_error_types"
    and "\<not> covered ''network''" and "kept \<longrightarrow> m' = m"
  shows "conforms cd kept covered m out m'"
  using assms
  by (auto simp: conforms_def timeout_error_def connection_lost_def mqtt_network_error_def mqtt_errors_declared)

lemma mqtt_conforms_idle:
  assumes "c = ''connect''" and "cd = mqtt_connect" and "mq_mode i = MmDisconnected"
    and "mqtt_execute sv i c args w = (out, i', w')"
  shows "conforms cd kept (mqtt_covers c) (mqtt_mode_of i) out (mqtt_mode_of i')"
proof -
  obtain m out' w1 where ex: "mqtt_disconnected_connect sv (args_keyword args) w = (m, out', w1)"
    by (cases "mqtt_disconnected_connect sv (args_keyword args) w")
  with assms have i': "out' = out" "i' = i\<lparr>mq_mode := m\<rparr>" by (auto simp: mqtt_execute_def)
  from mqtt_connect_answer [OF ex] show ?thesis
  proof
    assume "m = MmDisconnected \<and> broker_error out'"
    then show ?thesis
      using assms(2,3) i' broker_error_conforms [of out mqtt_connect "mqtt_covers c" kept MqttDisconnected]
      by (simp add: mqtt_mode_of_def mqtt_connect_def)
  next
    assume "\<exists>client ack. m = MmConnected (spawn_connected client) \<and> out' = RunOk (connack_to_ok ack)"
    then show ?thesis
      using assms(2,3) i' connack_to_ok_fields
      by (auto simp: mqtt_mode_of_def conforms_def mode_after_def mqtt_connect_def)
  qed
qed

interpretation mqtt_actor: service_actor mqtt_client "mqtt_execute sv" mqtt_mode_of
  "\<lambda>c. c \<noteq> ''receive_disconnect''" mqtt_covers
  for sv :: "('c, 'w) mqtt_services"
proof
  fix c cd args out and i i' :: "'c mqtt_instance" and w w' :: 'w
  assume cd: "find_command mqtt_client c = Some cd" and mode: "mqtt_mode_of i \<in> set (cd_valid_in_modes cd)"
    and ex: "mqtt_execute sv i c args w = (out, i', w')"
  let ?goal = "conforms cd (c \<noteq> ''receive_disconnect'') (mqtt_covers c) (mqtt_mode_of i) out (mqtt_mode_of i')"
  show ?goal
  proof (cases "mq_mode i")
    case MmDisconnected
    with mqtt_commandD [OF cd] mode have "c = ''connect''" "cd = mqtt_connect"
      by (auto simp: mqtt_mode_of_def mqtt_command_sel)
    from mqtt_conforms_idle [OF this MmDisconnected ex] show ?thesis .
  next
    case (MmConnected conn)
    have stays: "mqtt_mode_of i = MqttConnected"
      "\<And>c2. i' = i\<lparr>mq_mode := MmConnected c2\<rparr> \<Longrightarrow> mqtt_mode_of i' = MqttConnected"
      by (simp_all add: mqtt_mode_of_def MmConnected)
    from mqtt_commandD [OF cd] mode MmConnected consider
        (disconnect) "c = ''disconnect''" "cd = mqtt_disconnect"
      | (subscribe) q where "keep_connected (mqtt_subscribe sv q args conn w) = (mq_mode i', out, w')"
          "cd = subscribe_cmd c"
      | (publish0) "c = ''publish_0''" "cd = publish_cmd c mqtt_publish_qos0_error_types"
      | (publish) q where "keep_connected (mqtt_publish sv q args conn w) = (mq_mode i', out, w')"
          "cd = publish_cmd c mqtt_network_and_mqtt_error_types"
      | (receive) "c = ''receive_publish''" "cd = mqtt_receive_publish"
      | (receive_disc) "c = ''receive_disconnect''" "cd = mqtt_receive_disconnect"
      using ex by (elim disjE) (auto simp: mqtt_mode_of_def mqtt_execute_def mqtt_command_sel
          split: prod.splits)
    then show ?goal
    proof cases
      case disconnect
      with ex MmConnected show ?thesis
        by (auto simp: mqtt_execute_def mqtt_connected_disconnect_def conforms_def mode_after_def
            mqtt_mode_of_def outcome_ok_def mqtt_disconnect_def)
    next
      case (subscribe q)
      then obtain conn' where sub: "mqtt_subscribe sv q args conn w = (out, conn', w')"
        "mq_mode i' = MmConnected conn'" by (auto simp: keep_connected_def split: prod.splits)
      then show ?thesis
        using answer_conforms [OF mqtt_subscribe_answer [OF sub(1)], of cd] subscribe(2) stays(1)
        by (simp add: mqtt_mode_of_def subscribe_cmd_def)
    next
      case publish0
      then obtain conn' where pub: "mqtt_publish sv AtMostOnce args conn w = (out, conn', w')"
        "mq_mode i' = MmConnected conn'"
        using ex MmConnected by (auto simp: mqtt_execute_def keep_connected_def split: prod.splits)
      then show ?thesis
        using answer_conforms [OF mqtt_publish_answer [OF pub(1)], of cd "mqtt_covers c"] publish0 stays(1)
        by (simp add: mqtt_mode_of_def publish_cmd_def mqtt_covers_def)
    next
      case (publish q)
      then obtain conn' where pub: "mqtt_publish sv q args conn w = (out, conn', w')"
        "mq_mode i' = MmConnected conn'" by (auto simp: keep_connected_def split: prod.splits)
      then show ?thesis
        using answer_conforms [OF mqtt_publish_answer [OF pub(1)], of cd] publish(2) stays(1)
        by (simp add: mqtt_mode_of_def publish_cmd_def)
    next
      case receive
      then obtain conn' where rec: "receive_publish sv args conn w = (out, conn', w')"
        "mq_mode i' = MmConnected conn'"
        using ex MmConnected by (auto simp: mqtt_execute_def keep_connected_def split: prod.splits)
      from receive_publish_answer [OF rec(1)] show ?thesis
      proof (elim disjE exE)
        fix p assume "out = RunOk (publish_to_ok p)"
        then show ?thesis
          using receive(2) rec(2) stays(1) outcome_ok_user_dicts(2)
          by (simp add: conforms_def mode_after_def mqtt_mode_of_def publish_to_ok_def mqtt_receive_publish_def)
      qed (use receive rec(2) stays(1) receive_error_conforms [of out cd] in
        \<open>simp_all add: mqtt_mode_of_def mqtt_covers_def mqtt_receive_publish_def\<close>)
    next
      case receive_disc
      then obtain m where rec: "receive_disconnect sv args conn w = (m, out, w')" "i' = i\<lparr>mq_mode := m\<rparr>"
        using ex MmConnected by (auto simp: mqtt_execute_def split: prod.splits)
      from receive_disconnect_answer [OF rec(1)] show ?thesis
      proof (elim disjE conjE exE)
        fix n d assume "m = MmDisconnected"
          "out = RunOk (into_dict mqtt_receive_disconnect_ok_fields [VNumber n, VDict d])"
        then show ?thesis
          using receive_disc(2) rec(2) outcome_ok_user_dicts(3)
          by (simp add: conforms_def mode_after_def mqtt_mode_of_def mqtt_receive_disconnect_def)
      qed (use receive_disc rec(2) receive_error_conforms [of out cd] in
        \<open>simp_all add: mqtt_covers_def mqtt_receive_disconnect_def\<close>)
    qed
  qed
qed

section \<open>The publish inbox\<close>

text \<open>
  The packets a list of polls delivers before the task exits, and the packets a connection still owes
  its receiver: the inbox, the packet the task is blocked on, and what the held-back polls deliver.
\<close>

fun polled_publishes :: "poll_result list \<Rightarrow> publish_packet list" where
  "polled_publishes [] = []"
| "polled_publishes (Inr (EvPublish p) # es) = p # polled_publishes es"
| "polled_publishes (Inl _ # es) = []"
| "polled_publishes (Inr (EvDisconnect d) # es) = []"
| "polled_publishes (Inr _ # es) = polled_publishes es"

definition pending :: "'c mq_connected \<Rightarrow> publish_packet list" where
  "pending c =
     cn_publish_inbox c @ (case cn_blocked c of None \<Rightarrow> [] | Some b \<Rightarrow> [b]) @
     (if cn_running c then polled_publishes (cn_backlog c) else [])"

text \<open>The channel is within its capacity, and the task holds polls back only while it is blocked.\<close>

definition inbox_wf :: "'c mq_connected \<Rightarrow> bool" where
  "inbox_wf c \<longleftrightarrow>
     length (cn_publish_inbox c) \<le> inbox_cap \<and>
     (cn_blocked c \<noteq> None \<longrightarrow> length (cn_publish_inbox c) = inbox_cap \<and> cn_running c) \<and>
     (cn_backlog c \<noteq> [] \<longrightarrow> cn_blocked c \<noteq> None)"

lemma inbox_wf_spawn: "inbox_wf (spawn_connected client)"
  by (simp add: inbox_wf_def spawn_connected_def)

lemma inbox_wf_loop_event:
  "inbox_wf c \<Longrightarrow> cn_blocked c = None \<Longrightarrow> cn_running c \<Longrightarrow> inbox_wf (loop_event e c)"
  by (cases "(e, c)" rule: loop_event.cases) (auto simp: inbox_wf_def)

lemma inbox_wf_run:
  "inbox_wf c \<Longrightarrow> cn_backlog c = [] \<Longrightarrow> inbox_wf (run_event_loop es c)"
proof (induction es arbitrary: c)
  case (Cons e es)
  have "cn_backlog (loop_event e c) = cn_backlog c"
    by (cases "(e, c)" rule: loop_event.cases) simp_all
  with Cons show ?case
    by (auto simp: inbox_wf_loop_event) (simp add: inbox_wf_def)
qed simp

lemma inbox_wf_drive: "inbox_wf c \<Longrightarrow> inbox_wf (drive es c)"
  unfolding drive_def by (rule inbox_wf_run) (auto simp: inbox_wf_def)

lemma pending_loop_event:
  assumes "cn_running c" and "cn_blocked c = None" and "cn_backlog c = []"
  shows "pending (loop_event e c) @ (if cn_running (loop_event e c) then polled_publishes es else []) =
    pending c @ polled_publishes (e # es)"
  using assms by (cases "(e, c)" rule: loop_event.cases) (auto simp: pending_def)

lemma pending_run:
  "cn_backlog c = [] \<Longrightarrow>
   pending (run_event_loop es c) = pending c @ (if cn_running c then polled_publishes es else [])"
proof (induction es arbitrary: c)
  case (Cons e es)
  have "cn_backlog (loop_event e c) = []"
    using Cons.prems by (cases "(e, c)" rule: loop_event.cases) simp_all
  from Cons.IH [OF this] Cons.prems pending_loop_event [of c e es] show ?case
    by (auto simp: pending_def split: option.split)
qed simp

lemma pending_drive:
  "pending (drive es c) =
     cn_publish_inbox c @ (case cn_blocked c of None \<Rightarrow> [] | Some b \<Rightarrow> [b]) @
     (if cn_running c then polled_publishes (cn_backlog c @ es) else [])"
  unfolding drive_def by (subst pending_run) (auto simp: pending_def split: option.split)

text \<open>Receiving takes the oldest packet that is owed; nothing is lost or reordered.\<close>

lemma recv_publish_pending:
  assumes "recv_publish c = Some (p, c')" and "inbox_wf c"
  shows "pending c = p # pending c' \<and> inbox_wf c'"
proof (cases "cn_blocked c")
  case None
  with assms show ?thesis
    by (auto simp: recv_publish_def pending_def inbox_wf_def split: list.splits)
next
  case (Some b)
  obtain rest where inbox: "cn_publish_inbox c = p # rest"
    "c' = drive [] (c\<lparr>cn_publish_inbox := rest @ [b], cn_blocked := None\<rparr>)"
    using assms(1) Some by (auto simp: recv_publish_def split: list.splits)
  have "inbox_wf (run_event_loop (cn_backlog c) (c\<lparr>cn_publish_inbox := rest @ [b], cn_blocked := None, cn_backlog := []\<rparr>))"
    by (rule inbox_wf_run) (use assms(2) Some inbox(1) in \<open>auto simp: inbox_wf_def\<close>)
  with inbox Some show ?thesis
    by (simp add: pending_drive) (simp add: pending_def drive_def)
qed

lemma recv_publish_None: "inbox_wf c \<Longrightarrow> recv_publish c = None \<longleftrightarrow> pending c = []"
  by (auto simp: recv_publish_def pending_def inbox_wf_def inbox_cap_def split: list.splits option.splits)

section \<open>Acknowledgements\<close>

text \<open>Polls before the first acknowledgement of a kind that leave the task running.\<close>

fun ack_kind_of :: "poll_result \<Rightarrow> ack_kind option" where
  "ack_kind_of (Inr (EvSubAck _)) = Some AckSub"
| "ack_kind_of (Inr (EvPubAck _)) = Some AckQos1"
| "ack_kind_of (Inr EvPubComp) = Some AckQos2"
| "ack_kind_of _ = None"

fun ack_result :: "poll_result \<Rightarrow> run_outcome + unit" where
  "ack_result (Inr (EvSubAck codes)) = suback_outcome codes"
| "ack_result (Inr (EvPubAck reason)) = puback_outcome reason"
| "ack_result _ = pubcomp_outcome"

fun ends_loop :: "poll_result \<Rightarrow> bool" where
  "ends_loop (Inl _) = True"
| "ends_loop (Inr (EvDisconnect _)) = True"
| "ends_loop _ = False"

text \<open>
  A connection with one request in flight: its waiter is alone in the queues and has no result yet.
\<close>

definition awaiting :: "ack_kind \<Rightarrow> nat \<Rightarrow> 'c mq_connected \<Rightarrow> bool" where
  "awaiting k i c \<longleftrightarrow>
     (\<forall>k'. waiter_queue k' (cn_waiters c) = (if k' = k then [i] else [])) \<and> map_of (cn_sent c) i = None"

lemma awaiting_push: "idle c \<Longrightarrow> push_waiter k c = (i, c') \<Longrightarrow> awaiting k i c'"
  by (auto simp: idle_def awaiting_def push_waiter_def Let_def)

lemma idle_pop: "awaiting k i c \<Longrightarrow> idle (snd (pop_waiter k c))"
  by (simp add: awaiting_def idle_def pop_waiter_def)

text \<open>Once the waiter has its result, the queues stay empty and the result stays.\<close>

definition resolved :: "nat \<Rightarrow> run_outcome + unit \<Rightarrow> 'c mq_connected \<Rightarrow> bool" where
  "resolved i r c \<longleftrightarrow> idle c \<and> map_of (cn_sent c) i = Some r"

lemma resolved_loop_event: "resolved i r c \<Longrightarrow> resolved i r (loop_event e c)"
  by (cases "(e, c)" rule: loop_event.cases)
    (auto simp: resolved_def idle_def cn_sent_loop_exit ack_waiter_eq)

lemma resolved_run: "resolved i r c \<Longrightarrow> resolved i r (run_event_loop es c)"
  by (induction es c rule: run_event_loop.induct)
    (simp_all add: resolved_loop_event, simp add: resolved_def idle_def)

lemma awaiting_loop_event:
  assumes "awaiting k i c"
  shows "ack_kind_of e = Some k \<Longrightarrow> resolved i (ack_result e) (loop_event e c)"
    and "ends_loop e \<Longrightarrow> resolved i (Inl connection_lost) (loop_event e c)"
    and "ack_kind_of e \<noteq> Some k \<Longrightarrow> \<not> ends_loop e \<Longrightarrow>
         awaiting k i (loop_event e c) \<and> cn_running (loop_event e c) = cn_running c"
proof -
  have exit: "resolved i (Inl connection_lost) (loop_exit d)"
    if "cn_waiters d = cn_waiters c" for d :: "'a mq_connected"
    using assms that by (cases k) (simp_all add: awaiting_def resolved_def idle_def cn_sent_loop_exit)
  show "ends_loop e \<Longrightarrow> resolved i (Inl connection_lost) (loop_event e c)"
    by (cases "(e, c)" rule: loop_event.cases) (simp_all add: exit)
  show "ack_kind_of e = Some k \<Longrightarrow> resolved i (ack_result e) (loop_event e c)"
    using assms by (cases "(e, c)" rule: loop_event.cases)
      (auto simp: awaiting_def resolved_def idle_def ack_waiter_eq)
  show "ack_kind_of e \<noteq> Some k \<Longrightarrow> \<not> ends_loop e \<Longrightarrow>
      awaiting k i (loop_event e c) \<and> cn_running (loop_event e c) = cn_running c"
    using assms by (cases "(e, c)" rule: loop_event.cases) (auto simp: awaiting_def ack_waiter_eq)
qed

text \<open>The first poll that acknowledges the kind, or ends the task, decides the result.\<close>

fun first_answer :: "ack_kind \<Rightarrow> poll_result list \<Rightarrow> (run_outcome + unit) option" where
  "first_answer k [] = None"
| "first_answer k (e # es) =
     (if ack_kind_of e = Some k then Some (ack_result e)
      else if ends_loop e then Some (Inl connection_lost)
      else first_answer k es)"

lemma awaiting_run:
  assumes "awaiting k i c" and "cn_running c" and "cn_blocked (run_event_loop es c) = None"
    and "first_answer k es = Some r"
  shows "resolved i r (run_event_loop es c)"
  using assms
proof (induction es arbitrary: c)
  case (Cons e es)
  then have free: "cn_blocked c = None" by (auto split: if_splits)
  note step = awaiting_loop_event [OF Cons.prems(1)]
  consider (ack) "ack_kind_of e = Some k" | (ends) "ack_kind_of e \<noteq> Some k" "ends_loop e"
    | (skip) "ack_kind_of e \<noteq> Some k" "\<not> ends_loop e" by blast
  then show ?case
  proof cases
    case ack
    with Cons.prems free step(1) show ?thesis by (auto intro: resolved_run)
  next
    case ends
    with Cons.prems free step(2) show ?thesis by (auto intro: resolved_run)
  next
    case skip
    with Cons.prems free step(3) Cons.IH [of "loop_event e c"] show ?thesis by auto
  qed
qed simp

end
