(* ===== verification/Ill_Mqtt_Race.thy ===== *)
theory Ill_Mqtt_Race
  imports Ill_Mqtt_Facts
begin

text \<open>
  The event-loop task and a command run on different threads and meet in the waiter queues and the
  request channel. This theory interleaves one request with the task, step by step: the command pushes
  its waiter, hands the request to the channel and awaits the result; the task acknowledges, queues an
  incoming message, or drains the queues and, as a later step, returns, which drops the event loop and
  with it the channel's receiving end. A message that meets a full inbox blocks the task in its \<open>send\<close>;
  the command in flight holds the receiver and does not read it, so the task is blocked for as long as the
  command is.
\<close>

datatype loop_pc = Polling | Drained | Returned

datatype cmd_pc = Ready | Pushed nat | Awaiting nat | Answered run_outcome

type_synonym 'c race = "loop_pc \<times> cmd_pc \<times> 'c mq_connected"

inductive mqtt_step :: "ack_kind \<Rightarrow> 'c race \<Rightarrow> 'c race \<Rightarrow> bool" for k where
  push:
    "push_waiter k c = (i, c') \<Longrightarrow> mqtt_step k (l, Ready, c) (l, Pushed i, c')"
| send:
    "l \<noteq> Returned \<Longrightarrow> mqtt_step k (l, Pushed i, c) (l, Awaiting i, c)"
| send_fails:
    "mqtt_step k (Returned, Pushed i, c) (Returned, Answered connection_lost, snd (pop_waiter k c))"
| wakes:
    "map_of (cn_sent c) i = Some r \<Longrightarrow>
     mqtt_step k (l, Awaiting i, c) (l, Answered (case r of Inr _ \<Rightarrow> RunOk [] | Inl out \<Rightarrow> out), c)"
| acks:
    "cn_blocked c = None \<Longrightarrow> ack_kind_of e = Some k \<Longrightarrow> mqtt_step k (Polling, p, c) (Polling, p, loop_event e c)"
| publishes:
    "cn_blocked c = None \<Longrightarrow> mqtt_step k (Polling, p, c) (Polling, p, loop_event (Inr (EvPublish m)) c)"
| drains:
    "cn_blocked c = None \<Longrightarrow> c' = c \<or> c' = push_disconnect d c \<Longrightarrow>
     mqtt_step k (Polling, p, c) (Drained, p, fail_all_with connection_lost c')"
| returns:
    "mqtt_step k (Drained, p, c) (Returned, p, c\<lparr>cn_running := False\<rparr>)"

inductive_simps answered_step: "mqtt_step k (l, Answered out, c) s"
inductive_simps awaiting_returned_step: "mqtt_step k (Returned, Awaiting i, c) s"

inductive mqtt_reachable :: "ack_kind \<Rightarrow> 'c race \<Rightarrow> bool" for k where
  start: "idle c \<Longrightarrow> cn_running c \<Longrightarrow> mqtt_reachable k (Polling, Ready, c)"
| step: "mqtt_reachable k s \<Longrightarrow> mqtt_step k s s' \<Longrightarrow> mqtt_reachable k s'"

section \<open>Single flight\<close>

text \<open>
  At most one waiter is queued, it belongs to the command that is in flight, and a waiter that has its
  result is not queued any more.
\<close>

fun race_inv :: "ack_kind \<Rightarrow> 'c race \<Rightarrow> bool" where
  "race_inv k (l, Ready, c) = idle c"
| "race_inv k (l, Pushed i, c) = (awaiting k i c \<or> (\<exists>r. resolved i r c))"
| "race_inv k (l, Awaiting i, c) = (awaiting k i c \<or> (\<exists>r. resolved i r c))"
| "race_inv k (l, Answered out, c) = idle c"

lemma resolved_idle: "resolved i r c \<Longrightarrow> idle c"
  by (simp add: resolved_def)

lemma idle_update [simp]: "idle (c\<lparr>cn_running := b\<rparr>) = idle c"
  by (simp add: idle_def)

lemma awaiting_update [simp]: "awaiting k i (c\<lparr>cn_running := b\<rparr>) = awaiting k i c"
  by (simp add: awaiting_def)

lemma resolved_update [simp]: "resolved i r (c\<lparr>cn_running := b\<rparr>) = resolved i r c"
  by (simp add: resolved_def)

lemma idle_ack: "idle c \<Longrightarrow> ack_kind_of e = Some k \<Longrightarrow> idle (loop_event e c)"
  by (cases "(e, c)" rule: loop_event.cases) (auto simp: idle_def ack_waiter_eq)

lemma fail_all_idle: "idle c \<Longrightarrow> idle (fail_all_with err c)"
  by (simp add: idle_def fail_all_with_def)

lemma fail_all_resolves:
  "awaiting k i c \<Longrightarrow> resolved i (Inl err) (fail_all_with err c)"
  "resolved i r c \<Longrightarrow> resolved i r (fail_all_with err c)"
  by (cases k; simp add: awaiting_def resolved_def idle_def fail_all_with_def)+

lemma idle_pop_idle: "idle c \<Longrightarrow> idle (snd (pop_waiter k c))"
  by (simp add: idle_def pop_waiter_def)

lemma push_disconnect_waits [simp]:
  "idle (push_disconnect d c) = idle c" "awaiting k i (push_disconnect d c) = awaiting k i c"
  "resolved i r (push_disconnect d c) = resolved i r c"
  by (simp_all add: idle_def awaiting_def resolved_def)

lemma fail_all_after_disconnect:
  "idle c \<Longrightarrow> idle (fail_all_with err (push_disconnect d c))"
  "awaiting k i c \<Longrightarrow> resolved i (Inl err) (fail_all_with err (push_disconnect d c))"
  "resolved i r c \<Longrightarrow> resolved i r (fail_all_with err (push_disconnect d c))"
  by (rule fail_all_idle fail_all_resolves(1) [where k = k] fail_all_resolves(2), simp)+

lemma publish_waits:
  "idle c \<Longrightarrow> idle (loop_event (Inr (EvPublish m)) c)"
  "awaiting k i c \<Longrightarrow> awaiting k i (loop_event (Inr (EvPublish m)) c)"
  by (simp_all add: idle_def awaiting_def)

lemma race_inv_step: "mqtt_step k s s' \<Longrightarrow> race_inv k s \<Longrightarrow> race_inv k s'"
proof (induction rule: mqtt_step.induct)
  case (wakes c i r l)
  then show ?case by (auto simp: awaiting_def resolved_def)
next
  case (acks c e p)
  then show ?case
    by (cases p) (auto dest: idle_ack awaiting_loop_event(1) resolved_loop_event)
next
  case (publishes c p m)
  then show ?case
    by (cases p) (auto dest: publish_waits [where m = m] resolved_loop_event simp del: loop_event.simps)
next
  case (drains c c' d p)
  then show ?case
    by (cases p) (auto dest: fail_all_idle fail_all_resolves(1) [where err = connection_lost] fail_all_resolves(2)
        fail_all_after_disconnect(1) fail_all_after_disconnect(2) [where err = connection_lost] fail_all_after_disconnect(3))
next
  case (returns p c)
  then show ?case by (cases p) auto
qed (auto dest: awaiting_push idle_pop resolved_idle idle_pop_idle)

lemma reachable_inv: "mqtt_reachable k s \<Longrightarrow> race_inv k s"
  by (induction rule: mqtt_reachable.induct) (auto dest: race_inv_step)

section \<open>A request can be left without an answer\<close>

text \<open>
  Once the task has drained the queues nothing takes a waiter out any more. A waiter pushed between
  the drain and the return, whose request the channel still accepts, stays for ever.
\<close>

definition stuck :: "ack_kind \<Rightarrow> 'c race \<Rightarrow> bool" where
  "stuck k s \<longleftrightarrow> (\<exists>i c. s = (Returned, Awaiting i, c) \<and> awaiting k i c)"

lemma stuck_no_step: "stuck k s \<Longrightarrow> \<not> mqtt_step k s s'"
  by (auto simp: stuck_def awaiting_returned_step awaiting_def)

lemma lost_waiter_reachable:
  fixes c :: "'c mq_connected"
  assumes "idle c" and "cn_running c" and "cn_blocked c = None"
  shows "\<exists>s :: 'c race. mqtt_reachable k s \<and> stuck k s"
proof -
  let ?c1 = "fail_all_with connection_lost c"
  obtain i c2 where push: "push_waiter k ?c1 = (i, c2)" by (cases "push_waiter k ?c1")
  have s0: "mqtt_reachable k (Polling, Ready, c)" using assms(1,2) by (rule start)
  from step [OF s0 drains [OF assms(3) disjI1 [OF refl]]] have s1: "mqtt_reachable k (Drained, Ready, ?c1)" .
  from step [OF s1 mqtt_step.push [OF push]] have s2: "mqtt_reachable k (Drained, Pushed i, c2)" .
  have "mqtt_step k (Drained, Pushed i, c2) (Drained, Awaiting i, c2)" by (rule send) simp
  from step [OF s2 this] have s3: "mqtt_reachable k (Drained, Awaiting i, c2)" .
  from step [OF s3 returns] have "mqtt_reachable k (Returned, Awaiting i, c2\<lparr>cn_running := False\<rparr>)" .
  moreover have "awaiting k i c2" using fail_all_idle [OF assms(1)] push by (rule awaiting_push)
  then have "stuck k (Returned, Awaiting i, c2\<lparr>cn_running := False\<rparr>)" by (simp add: stuck_def)
  ultimately show ?thesis by blast
qed

section \<open>The other request that no answer can reach\<close>

text \<open>
  A request whose waiter was pushed while the task was polling cannot meet the drained queues. It is past all
  answers exactly when the task is blocked on a full inbox before the waiter has its result.
\<close>

inductive early_reachable :: "ack_kind \<Rightarrow> 'c race \<Rightarrow> bool" for k where
  early_start: "idle c \<Longrightarrow> cn_running c \<Longrightarrow> push_waiter k c = (i, c') \<Longrightarrow> early_reachable k (Polling, Pushed i, c')"
| early_step: "early_reachable k s \<Longrightarrow> mqtt_step k s s' \<Longrightarrow> early_reachable k s'"

fun early_inv :: "ack_kind \<Rightarrow> 'c race \<Rightarrow> bool" where
  "early_inv k (l, Ready, c) = False"
| "early_inv k (l, Answered out, c) = True"
| "early_inv k (l, Pushed i, c) = (if l = Polling then awaiting k i c \<or> (\<exists>r. resolved i r c) else \<exists>r. resolved i r c)"
| "early_inv k (l, Awaiting i, c) = (if l = Polling then awaiting k i c \<or> (\<exists>r. resolved i r c) else \<exists>r. resolved i r c)"

lemma early_inv_step: "mqtt_step k s s' \<Longrightarrow> early_inv k s \<Longrightarrow> early_inv k s'"
proof (induction rule: mqtt_step.induct)
  case (acks c e p)
  then show ?case
    by (cases p) (auto dest: awaiting_loop_event(1) resolved_loop_event)
next
  case (publishes c p m)
  then show ?case
    by (cases p) (auto dest: publish_waits [where m = m] resolved_loop_event simp del: loop_event.simps)
next
  case (drains c c' d p)
  then show ?case
    by (cases p) (auto dest: fail_all_resolves(1) [where err = connection_lost] fail_all_resolves(2)
        fail_all_after_disconnect(2) [where err = connection_lost] fail_all_after_disconnect(3))
next
  case (returns p c)
  then show ?case by (cases p) auto
qed auto

lemma early_reachable_inv: "early_reachable k s \<Longrightarrow> early_inv k s"
  by (induction rule: early_reachable.induct) (auto dest: awaiting_push early_inv_step)

definition answerable :: "ack_kind \<Rightarrow> 'c race \<Rightarrow> bool" where
  "answerable k s \<longleftrightarrow> (\<exists>l out c. (mqtt_step k)\<^sup>*\<^sup>* s (l, Answered out, c))"

lemma answerable_step: "mqtt_step k s s' \<Longrightarrow> answerable k s' \<Longrightarrow> answerable k s"
  unfolding answerable_def by (meson converse_rtranclp_into_rtranclp)

lemma resolved_answerable: "resolved i r c \<Longrightarrow> answerable k (l, Awaiting i, c)"
  unfolding answerable_def by (blast intro: wakes dest: resolved_def [THEN iffD1])

lemma awaiting_answerable: "awaiting k i c \<Longrightarrow> cn_blocked c = None \<Longrightarrow> answerable k (Polling, Awaiting i, c)"
  by (rule answerable_step [OF drains [OF _ disjI1 [OF refl]] resolved_answerable [OF fail_all_resolves(1)]])

text \<open>The task is blocked in its \<open>send\<close>, and the waiter of the request is still queued.\<close>

definition wedged :: "ack_kind \<Rightarrow> 'c race \<Rightarrow> bool" where
  "wedged k s \<longleftrightarrow> (\<exists>i c. (s = (Polling, Pushed i, c) \<or> s = (Polling, Awaiting i, c)) \<and>
     awaiting k i c \<and> cn_blocked c \<noteq> None)"

lemma early_inv_answerable:
  assumes "early_inv k s" and "\<not> wedged k s"
  shows "answerable k s"
proof (cases "(k, s)" rule: early_inv.cases)
  case (3 k' l i c)
  from 3 assms have "l \<noteq> Returned \<Longrightarrow> answerable k (l, Awaiting i, c)"
    by (auto simp: wedged_def intro: awaiting_answerable resolved_answerable split: if_splits)
  moreover have "answerable k (Returned, Pushed i, c)"
    by (rule answerable_step [OF send_fails]) (auto simp: answerable_def)
  ultimately show ?thesis using 3 by (cases "l = Returned") (auto intro: answerable_step [OF send])
next
  case (4 k' l i c)
  with assms show ?thesis
    by (auto simp: wedged_def intro: awaiting_answerable resolved_answerable split: if_splits)
qed (use assms in \<open>auto simp: answerable_def\<close>)

lemma wedged_step: "mqtt_step k s s' \<Longrightarrow> wedged k s \<Longrightarrow> wedged k s'"
  by (induction rule: mqtt_step.induct) (auto simp: wedged_def awaiting_def)

lemma wedged_not_answerable: "wedged k s \<Longrightarrow> \<not> answerable k s"
proof -
  assume w: "wedged k s"
  have "wedged k s'" if "(mqtt_step k)\<^sup>*\<^sup>* s s'" for s'
    using that w by (induction rule: rtranclp_induct) (auto intro: wedged_step)
  then show ?thesis unfolding answerable_def by (fastforce simp: wedged_def)
qed

text \<open>One message more than the inbox has room for, and the request is wedged.\<close>

lemma wedged_reachable:
  fixes c :: "'c mq_connected"
  assumes "early_reachable k (Polling, Pushed i, c)" and "awaiting k i c"
  shows "\<exists>c' :: 'c mq_connected. early_reachable k (Polling, Pushed i, c') \<and> wedged k (Polling, Pushed i, c')"
  using assms
proof (induction "inbox_cap - length (cn_publish_inbox c)" arbitrary: c rule: less_induct)
  case less
  show ?case
  proof (cases "cn_blocked c")
    case (Some m)
    with less.prems have "wedged k (Polling, Pushed i, c)" by (simp add: wedged_def)
    with less.prems(1) show ?thesis by blast
  next
    case None
    let ?c = "loop_event (Inr (EvPublish undefined)) c"
    have r: "early_reachable k (Polling, Pushed i, ?c)"
      by (rule early_step [OF less.prems(1) publishes [OF None]])
    have a: "awaiting k i ?c" by (rule publish_waits(2) [OF less.prems(2)])
    show ?thesis
    proof (cases "length (cn_publish_inbox c) < inbox_cap")
      case True
      then show ?thesis by (intro less.hyps [OF _ r a]) simp
    next
      case False
      with a r show ?thesis by (intro exI [of _ ?c]) (simp add: wedged_def)
    qed
  qed
qed

end
