(* ===== verification/Ill_Builtin.thy ===== *)
theory Ill_Builtin
  imports Ill_Simulation Ill_Args_Actor Ill_Exec Ill_Container Ill_Pg Ill_Mqtt_Race
begin

text \<open>
  The runtimes behind the registry: an instance is one of the five that exist, and the method table
  dispatches on it, as \<open>ActorType::construct\<close> and the vtable of \<open>Box<dyn ActorInstance>\<close> do.
  \<open>http_client\<close> does not override \<open>construct\<close>, so it answers \<open>ActorNotImplemented\<close>. The contract of the
  harness, \<open>moded_runtime\<close>, is discharged here from the contracts of the single actors.
\<close>

section \<open>Dispatch\<close>

datatype ('e, 'd, 'p, 'm) inst =
    IExec "'e exec_instance"
  | IContainer "'d container_instance"
  | IPg "'p pg_instance"
  | IMqtt "'m mqtt_instance"
  | IArgs args_instance

record ('e, 'd, 'p, 'm, 'w) services =
  sv_exec :: "('e, 'w) exec_services"
  sv_docker :: "('d, 'w) docker_services"
  sv_pg :: "('p, 'w) pg_services"
  sv_mqtt :: "('m, 'w) mqtt_services"
  sv_cli_args :: cli_args

definition builtin_construct ::
  "('e, 'd, 'p, 'm, 'w) services \<Rightarrow> string \<Rightarrow> construct_args \<Rightarrow> 'w
     \<Rightarrow> (runtime_error + ('e, 'd, 'p, 'm) inst) \<times> 'w" where
  "builtin_construct sv n args w =
     (if n = ''exec'' then (map_sum id IExec (exec_construct (sv_exec sv) args w), w)
      else if n = ''container'' then
        (let (r, w1) = container_construct (sv_docker sv) args w in (map_sum id IContainer r, w1))
      else if n = ''pg_client'' then (map_sum id IPg (pg_construct args), w)
      else if n = ''mqtt_client'' then (map_sum id IMqtt (mqtt_construct args), w)
      else if n = ''args_actor'' then (map_sum id IArgs (args_construct args (sv_cli_args sv)), w)
      else (Inl (RActorNotImplemented n), w))"

fun builtin_type_name :: "('e, 'd, 'p, 'm) inst \<Rightarrow> string" where
  "builtin_type_name (IExec i) = ''exec''"
| "builtin_type_name (IContainer i) = ''container''"
| "builtin_type_name (IPg i) = ''pg_client''"
| "builtin_type_name (IMqtt i) = ''mqtt_client''"
| "builtin_type_name (IArgs i) = args_type_name i"

definition answer_map :: "('a \<Rightarrow> 'b) \<Rightarrow> 'o \<times> 'a \<times> 'w \<Rightarrow> 'o \<times> 'b \<times> 'w" where
  "answer_map f r = (case r of (out, i, w) \<Rightarrow> (out, f i, w))"

fun builtin_execute ::
  "('e, 'd, 'p, 'm, 'w) services \<Rightarrow> ('e, 'd, 'p, 'm) inst \<Rightarrow> string \<Rightarrow> command_args \<Rightarrow> 'w
     \<Rightarrow> run_outcome \<times> ('e, 'd, 'p, 'm) inst \<times> 'w" where
  "builtin_execute sv (IExec i) cmd args w = answer_map IExec (exec_execute (sv_exec sv) i cmd args w)"
| "builtin_execute sv (IContainer i) cmd args w =
     answer_map IContainer (container_execute (sv_docker sv) i cmd args w)"
| "builtin_execute sv (IPg i) cmd args w = answer_map IPg (pg_execute (sv_pg sv) i cmd args w)"
| "builtin_execute sv (IMqtt i) cmd args w = answer_map IMqtt (mqtt_execute (sv_mqtt sv) i cmd args w)"
| "builtin_execute sv (IArgs i) cmd args w =
     (let (out, i') = args_execute i cmd args in (out, IArgs i', w))"

fun builtin_teardown ::
  "('e, 'd, 'p, 'm, 'w) services \<Rightarrow> ('e, 'd, 'p, 'm) inst \<Rightarrow> 'w \<Rightarrow> join_result \<times> 'w" where
  "builtin_teardown sv (IExec i) w = (let (t, _, w') = exec_teardown (sv_exec sv) i w in (Joined t, w'))"
| "builtin_teardown sv (IContainer i) w =
     (let (t, _, w') = container_teardown (sv_docker sv) i w in (Joined t, w'))"
| "builtin_teardown sv (IPg i) w = (let (t, _, w') = pg_teardown (sv_pg sv) i w in (Joined t, w'))"
| "builtin_teardown sv (IMqtt i) w = (let (t, _, w') = mqtt_teardown (sv_mqtt sv) i w in (Joined t, w'))"
| "builtin_teardown sv (IArgs i) w = (Joined (fst (args_teardown i)), w)"

text \<open>Only \<open>container\<close> and \<open>args_actor\<close> override \<open>self_view\<close>.\<close>

fun builtin_self_view :: "('e, 'd, 'p, 'm) inst \<Rightarrow> dict option" where
  "builtin_self_view (IContainer i) = container_self_view i"
| "builtin_self_view (IArgs i) = args_self_view i"
| "builtin_self_view _ = None"

definition builtin_ops ::
  "('e, 'd, 'p, 'm, 'w) services \<Rightarrow> (('e, 'd, 'p, 'm) inst, 'w) instance_ops" where
  "builtin_ops sv =
     \<lparr>op_construct = builtin_construct sv,
      op_type_name = builtin_type_name,
      op_execute = builtin_execute sv,
      op_teardown = builtin_teardown sv,
      op_self_view = builtin_self_view\<rparr>"

fun builtin_mode_of :: "('e, 'd, 'p, 'm) inst \<Rightarrow> mode" where
  "builtin_mode_of (IExec i) = exec_mode_of i"
| "builtin_mode_of (IContainer i) = container_mode_of i"
| "builtin_mode_of (IPg i) = pg_mode_of i"
| "builtin_mode_of (IMqtt i) = mqtt_mode_of i"
| "builtin_mode_of (IArgs i) = ArgsReady"

text \<open>The two commands whose failure moves the instance to another mode.\<close>

definition builtin_keeps :: "string \<Rightarrow> bool" where
  "builtin_keeps c \<longleftrightarrow> c \<notin> {''stop'', ''receive_disconnect''}"

section \<open>The contract of the harness\<close>

interpretation args_runtime: service_actor args_actor
  "\<lambda>i cmd args (w :: 'w). let (out, i') = args_execute i cmd args in (out, i', w)"
  "\<lambda>_. ArgsReady" "\<lambda>_. True" "\<lambda>_ _. True"
  by standard
    (auto simp: find_command_def args_execute_def conforms_def mode_after_def outcome_ok_def ill_simps
      split: if_splits)

lemma registry_builtin:
  "registry_get registry_global ''exec'' = Some exec"
  "registry_get registry_global ''container'' = Some container"
  "registry_get registry_global ''pg_client'' = Some pg_client"
  "registry_get registry_global ''mqtt_client'' = Some mqtt_client"
  "registry_get registry_global ''args_actor'' = Some args_actor"
  by (simp_all add: registry_get_def ill_simps)

lemma builtin_initial_modes:
  "at_initial_mode exec = ExecStopped" "at_initial_mode container = ContainerStopped"
  "at_initial_mode pg_client = PgDisconnected" "at_initial_mode mqtt_client = MqttDisconnected"
  "at_initial_mode args_actor = ArgsReady"
  by (simp_all add: ill_simps)

text \<open>A call of a declared command in a valid mode conforms to the schema, whichever actor it is on.\<close>

definition builtin_covers :: "string \<Rightarrow> string \<Rightarrow> string \<Rightarrow> bool" where
  "builtin_covers ty c variant = (if ty = ''mqtt_client'' then mqtt_covers c variant else True)"

lemma builtin_covers_simps:
  "builtin_covers ''mqtt_client'' c = mqtt_covers c"
  "ty \<noteq> ''mqtt_client'' \<Longrightarrow> builtin_covers ty c = (\<lambda>_. True)"
  by (auto simp: builtin_covers_def)

lemma answer_mapD: "answer_map f r = (out, i', w') \<Longrightarrow> \<exists>i. r = (out, i, w') \<and> i' = f i"
  by (auto simp: answer_map_def split: prod.splits)

lemma conforms_mono: "conforms cd kept covered m out m' \<Longrightarrow> (kept' \<Longrightarrow> kept) \<Longrightarrow> conforms cd kept' covered m out m'"
  by (auto simp: conforms_def split: run_outcome.splits)

lemma builtin_conforms:
  assumes "registry_get registry_global (builtin_type_name i) = Some ty" and "find_command ty c = Some cd"
    and "builtin_mode_of i \<in> set (cd_valid_in_modes cd)" and "builtin_execute sv i c args w = (out, i', w')"
  shows "builtin_type_name i' = builtin_type_name i \<and>
    conforms cd (builtin_keeps c) (builtin_covers (builtin_type_name i) c) (builtin_mode_of i) out (builtin_mode_of i')"
proof (cases i)
  case (IExec x)
  with assms(4) obtain x' where x': "exec_execute (sv_exec sv) x c args w = (out, x', w')" "i' = IExec x'"
    by (auto dest: answer_mapD)
  with IExec assms(1-3) show ?thesis
    using exec_actor.conforms_law [OF _ _ x'(1)] by (auto simp: registry_builtin builtin_covers_simps intro: conforms_mono)
next
  case (IContainer x)
  with assms(4) obtain x' where x': "container_execute (sv_docker sv) x c args w = (out, x', w')" "i' = IContainer x'"
    by (auto dest: answer_mapD)
  with IContainer assms(1-3) show ?thesis
    using container_actor.conforms_law [OF _ _ x'(1)]
    by (auto simp: registry_builtin builtin_covers_simps builtin_keeps_def intro: conforms_mono)
next
  case (IPg x)
  with assms(4) obtain x' where x': "pg_execute (sv_pg sv) x c args w = (out, x', w')" "i' = IPg x'"
    by (auto dest: answer_mapD)
  with IPg assms(1-3) show ?thesis
    using pg_actor.conforms_law [OF _ _ x'(1)] by (auto simp: registry_builtin builtin_covers_simps intro: conforms_mono)
next
  case (IMqtt x)
  with assms(4) obtain x' where x': "mqtt_execute (sv_mqtt sv) x c args w = (out, x', w')" "i' = IMqtt x'"
    by (auto dest: answer_mapD)
  with IMqtt x' assms(1-3) show ?thesis
    using mqtt_actor.conforms_law [OF _ _ x'(1)]
    by (auto simp: registry_builtin builtin_keeps_def builtin_covers_simps intro: conforms_mono)
next
  case (IArgs x)
  with assms(4) obtain x' where x': "args_execute x c args = (out, x')" "i' = IArgs x'" "w' = w"
    by (auto simp: Let_def split: prod.splits)
  with IArgs assms(1-3) show ?thesis
    using args_runtime.conforms_law [of c cd x args w out x' w]
    by (auto simp: registry_builtin builtin_covers_simps args_type_name_def intro: conforms_mono)
qed

lemma builtin_construct_mode:
  assumes "builtin_construct sv n args w = (Inr i, w')" and "registry_get registry_global n = Some ty"
  shows "builtin_type_name i = n \<and> builtin_mode_of i = at_initial_mode ty"
proof -
  have exec: "exec_mode_of x = ExecStopped" if "exec_construct (sv_exec sv) args w = Inr x" for x
    using that by (auto simp: exec_construct_def exec_mode_of_def Let_def split: option.splits val.splits sum.splits)
  have docker: "container_mode_of x = ContainerStopped" if "container_construct (sv_docker sv) args w = (Inr x, w1)" for x w1
    using that by (auto simp: container_construct_def prepare_from_image_def prepare_from_dockerfile_def
        container_mode_of_def Let_def split: option.splits val.splits sum.splits prod.splits if_splits)
  show ?thesis
    using assms exec docker
    by (auto simp: builtin_construct_def map_sum_id_Inr registry_builtin builtin_initial_modes pg_construct_def
        mqtt_construct_def pg_mode_of_def mqtt_mode_of_def args_type_name_def Let_def
        split: if_splits prod.splits)
qed

text \<open>No constructor fails with one of the messages the harness keeps for what the validator rules out.\<close>

lemma exec_construct_error: "exec_construct es args w = Inl e \<Longrightarrow> \<not> drift_error e"
  by (auto simp: exec_construct_def resolve_cwd_def Let_def split: option.splits val.splits sum.splits if_splits)

lemma container_construct_error: "container_construct ds args w = (Inl e, w') \<Longrightarrow> \<not> drift_error e"
  by (auto simp: container_construct_def internal_port_kw_def prepare_from_image_def prepare_from_dockerfile_def
      Let_def split: option.splits val.splits sum.splits prod.splits if_splits)

lemma args_construct_error:
  assumes "args_construct args cli = Inl e"
  shows "\<not> drift_error e"
proof -
  have coerce: "\<not> drift_error e" if "coerce_to raw d n = Inl e" for raw d n
    using that by (cases d) (auto simp: coerce_to_def split: option.splits)
  then have var: "\<not> drift_error e" if "resolve_var cli x = Inl e" for x
    using that by (auto simp: resolve_var_def split: option.splits)
  then show ?thesis
    using assms by (auto simp: args_construct_def resolve_fold split: option.splits sum.splits dest!: try_map_InlD)
qed

lemma builtin_construct_error: "builtin_construct sv n args w = (Inl e, w') \<Longrightarrow> \<not> drift_error e"
  by (auto simp: builtin_construct_def map_sum_id_Inl pg_construct_def mqtt_construct_def Let_def
      dest: exec_construct_error container_construct_error args_construct_error split: if_splits prod.splits)

interpretation builtin: moded_runtime "builtin_ops sv" builtin_mode_of builtin_keeps
  for sv :: "('e, 'd, 'p, 'm, 'w) services"
proof
  fix c cd cargs n args out d variant ty and i i' :: "('e, 'd, 'p, 'm) inst" and w w' :: 'w
  show "op_construct (builtin_ops sv) n cargs w = (Inr i, w') \<Longrightarrow> registry_get registry_global n = Some ty \<Longrightarrow>
      op_type_name (builtin_ops sv) i = n \<and> builtin_mode_of i = at_initial_mode ty"
    by (simp add: builtin_ops_def builtin_construct_mode)
  show "op_construct (builtin_ops sv) n cargs w = (Inl e, w') \<Longrightarrow> \<not> drift_error e" for e
    by (simp add: builtin_ops_def builtin_construct_error)
  show "op_execute (builtin_ops sv) i c args w = (out, i', w') \<Longrightarrow>
      op_type_name (builtin_ops sv) i' = op_type_name (builtin_ops sv) i"
    by (cases i) (auto simp: builtin_ops_def args_execute_def args_type_name_def answer_map_def Let_def
        split: prod.splits)
  show "op_execute (builtin_ops sv) i c args w = (RunOk d, i', w') \<Longrightarrow>
      registry_get registry_global (op_type_name (builtin_ops sv) i) = Some ty \<Longrightarrow> find_command ty c = Some cd \<Longrightarrow>
      builtin_mode_of i \<in> set (cd_valid_in_modes cd) \<Longrightarrow>
      builtin_mode_of i' = (case cd_transitions_to cd of None \<Rightarrow> builtin_mode_of i | Some m \<Rightarrow> m)"
    using builtin_conforms [of i ty c cd sv args w "RunOk d" i' w']
    by (simp add: builtin_ops_def conforms_def mode_after_def)
  show "op_execute (builtin_ops sv) i c args w = (RunError variant d, i', w') \<Longrightarrow>
      registry_get registry_global (op_type_name (builtin_ops sv) i) = Some ty \<Longrightarrow> find_command ty c = Some cd \<Longrightarrow>
      builtin_mode_of i \<in> set (cd_valid_in_modes cd) \<Longrightarrow> builtin_keeps c \<Longrightarrow>
      builtin_mode_of i' = builtin_mode_of i"
    using builtin_conforms [of i ty c cd sv args w "RunError variant d" i' w']
    by (simp add: builtin_ops_def conforms_def)
qed

text \<open>Two predicates on the world: the flag of the monitor, and none.\<close>

interpretation monitored: watched_runtime "monitor (builtin_ops sv) builtin_mode_of" builtin_mode_of builtin_keeps snd
  for sv :: "('e, 'd, 'p, 'm, 'w) services"
  by (rule monitor_watched) (rule builtin.moded_runtime_axioms)

interpretation unwatched: watched_runtime "builtin_ops sv" builtin_mode_of builtin_keeps "\<lambda>_. True"
  for sv :: "('e, 'd, 'p, 'm, 'w) services"
  by unfold_locales simp_all

end
