(* ===== verification/Ill_Ledger.thy ===== *)
theory Ill_Ledger
  imports Ill_Builtin "HOL-Library.Multiset"
begin

text \<open>
  A ledger beside the world books every process, container, session and client the services hand out, every
  release they confirm and every release they refuse. The books are kept around the service calls, so the
  runtimes are those of the program: the lemmas \<open>*_audited\<close> say that they answer as without a ledger,
  the lemmas \<open>*_balanced\<close> that whatever they open is held by the instance, released or refused.
\<close>

section \<open>The ledger\<close>

datatype ('e, 'd, 'p, 'm) resource =
  RProcess 'e | RContainer 'd | RSession 'p | RClient 'm

record 'r ledger =
  led_open :: "'r multiset"
  led_refused :: "'r multiset"

definition ledger_new :: "'r ledger" where
  "ledger_new = \<lparr>led_open = {#}, led_refused = {#}\<rparr>"

definition acquire :: "'r \<Rightarrow> 'r ledger \<Rightarrow> 'r ledger" where
  "acquire r l = l\<lparr>led_open := add_mset r (led_open l)\<rparr>"

definition release :: "'r \<Rightarrow> 'r ledger \<Rightarrow> 'r ledger" where
  "release r l = l\<lparr>led_open := led_open l - {#r#}\<rparr>"

definition refuse :: "'r \<Rightarrow> 'r ledger \<Rightarrow> 'r ledger" where
  "refuse r l = l\<lparr>led_refused := add_mset r (led_refused l)\<rparr>"

text \<open>A service call on the world, with its answer entered in the ledger.\<close>

definition booked :: "('a \<Rightarrow> 'l \<Rightarrow> 'l) \<Rightarrow> ('w \<Rightarrow> 'a \<times> 'w) \<Rightarrow> 'w \<times> 'l \<Rightarrow> 'a \<times> 'w \<times> 'l" where
  "booked entry f = (\<lambda>(w, l). let (a, w') = f w in (a, w', entry a l))"

abbreviation unbooked :: "('w \<Rightarrow> 'a \<times> 'w) \<Rightarrow> 'w \<times> 'l \<Rightarrow> 'a \<times> 'w \<times> 'l" where
  "unbooked \<equiv> booked (\<lambda>_ l. l)"

definition audited_exec ::
  "('e, 'w) exec_services \<Rightarrow> ('e, 'w \<times> ('e, 'd, 'p, 'm) resource ledger) exec_services" where
  "audited_exec sv =
     \<lparr>es_split = es_split sv,
      es_is_dir = (\<lambda>p. es_is_dir sv p \<circ> fst),
      es_spawn = (\<lambda>req. booked (\<lambda>a. case a of Inr c \<Rightarrow> acquire (RProcess c) | Inl _ \<Rightarrow> id) (es_spawn sv req)),
      es_child_id = (\<lambda>c. es_child_id sv c \<circ> fst),
      es_sigterm = (\<lambda>pid. apfst (es_sigterm sv pid)),
      es_wait_for = (\<lambda>d c. booked (\<lambda>a. case a of
          Some (Inr _) \<Rightarrow> release (RProcess c) | Some (Inl _) \<Rightarrow> refuse (RProcess c) | None \<Rightarrow> id)
        (es_wait_for sv d c)),
      es_start_kill = (\<lambda>c. unbooked (es_start_kill sv c)),
      es_wait = (\<lambda>c. map_prod (es_wait sv c) (release (RProcess c)))\<rparr>"

definition audited_docker ::
  "('d, 'w) docker_services \<Rightarrow> ('d, 'w \<times> ('e, 'd, 'p, 'm) resource ledger) docker_services" where
  "audited_docker sv =
     \<lparr>ds_pull = (\<lambda>n t. unbooked (ds_pull sv n t)),
      ds_build = (\<lambda>n t p. unbooked (ds_build sv n t p)),
      ds_start = (\<lambda>req. booked (\<lambda>a. case a of Inr c \<Rightarrow> acquire (RContainer c) | Inl _ \<Rightarrow> id) (ds_start sv req)),
      ds_id = ds_id sv,
      ds_rm = (\<lambda>d c. booked (\<lambda>a. case a of
          Some (Inr _) \<Rightarrow> release (RContainer c) | _ \<Rightarrow> refuse (RContainer c)) (ds_rm sv d c)),
      ds_is_file = (\<lambda>p. ds_is_file sv p \<circ> fst),
      ds_hash = ds_hash sv\<rparr>"

definition audited_clock :: "'w clock \<Rightarrow> ('w \<times> 'l) clock" where
  "audited_clock clk = \<lparr>clk_now = clk_now clk \<circ> fst, clk_sleep = (\<lambda>d. apfst (clk_sleep clk d))\<rparr>"

definition audited_pg ::
  "('p, 'w) pg_services \<Rightarrow> ('p, 'w \<times> ('e, 'd, 'p, 'm) resource ledger) pg_services" where
  "audited_pg sv =
     \<lparr>ps_clock = audited_clock (ps_clock sv),
      ps_connect = (\<lambda>cfg d. booked (\<lambda>a. case a of Some (Inr c) \<Rightarrow> acquire (RSession c) | _ \<Rightarrow> id)
        (ps_connect sv cfg d)),
      ps_query = (\<lambda>c sql. unbooked (ps_query sv c sql)),
      ps_query_within = (\<lambda>d c sql. unbooked (ps_query_within sv d c sql)),
      ps_drop = (\<lambda>c. map_prod (ps_drop sv c) (release (RSession c)))\<rparr>"

text \<open>A handshake opens a session when its polls reach a CONNACK with the success code.\<close>

definition audited_mqtt ::
  "('m, 'w) mqtt_services \<Rightarrow> ('m, 'w \<times> ('e, 'd, 'p, 'm) resource ledger) mqtt_services" where
  "audited_mqtt sv =
     \<lparr>ms_clock = audited_clock (ms_clock sv),
      ms_handshake = (\<lambda>opts d. booked (\<lambda>(client, polls). case attempt_connect client polls of
          Some (Inr _) \<Rightarrow> acquire (RClient client) | _ \<Rightarrow> id) (ms_handshake sv opts d)),
      ms_subscribe = (\<lambda>c t q props. unbooked (ms_subscribe sv c t q props)),
      ms_publish = (\<lambda>c t q b props. unbooked (ms_publish sv c t q b props)),
      ms_disconnect = (\<lambda>c. apfst (ms_disconnect sv c)),
      ms_await_ack = (\<lambda>c. unbooked (ms_await_ack sv c)),
      ms_await_recv = (\<lambda>d c. unbooked (ms_await_recv sv d c)),
      ms_abort = (\<lambda>c. map_prod (ms_abort sv c) (release (RClient c)))\<rparr>"

definition audited ::
  "('e, 'd, 'p, 'm, 'w) services
     \<Rightarrow> ('e, 'd, 'p, 'm, 'w \<times> ('e, 'd, 'p, 'm) resource ledger) services" where
  "audited sv =
     \<lparr>sv_exec = audited_exec (sv_exec sv), sv_docker = audited_docker (sv_docker sv),
      sv_pg = audited_pg (sv_pg sv), sv_mqtt = audited_mqtt (sv_mqtt sv), sv_cli_args = sv_cli_args sv\<rparr>"

section \<open>Balanced steps\<close>

text \<open>
  A step that turns the holdings \<open>before\<close> into \<open>after\<close>: whatever else is accounted for, what is open
  stays within the holdings and what was refused.
\<close>

definition balanced :: "'r multiset \<Rightarrow> 'r multiset \<Rightarrow> 'w \<times> 'r ledger \<Rightarrow> 'w \<times> 'r ledger \<Rightarrow> bool" where
  "balanced before after v v' \<longleftrightarrow>
     (\<forall>X. led_open (snd v) \<subseteq># X + before + led_refused (snd v) \<longrightarrow>
          led_open (snd v') \<subseteq># X + after + led_refused (snd v'))"

lemma balanced_same: "snd v' = snd v \<Longrightarrow> balanced h h v v'"
  by (simp add: balanced_def)

lemma balanced_trans: "balanced a b v v' \<Longrightarrow> balanced b c v' v'' \<Longrightarrow> balanced a c v v''"
  unfolding balanced_def by blast

lemma balanced_frame: "balanced a b v v' \<Longrightarrow> balanced (a + x) (b + x) v v'"
  unfolding balanced_def add.commute [of _ x] add.assoc [symmetric] by blast

lemma balanced_forget: "balanced a b v v' \<Longrightarrow> balanced a (b + x) v v'"
  using mset_subset_eq_add_left [of "X + b + led_refused (snd v')" x for X] subset_mset.order_trans
  unfolding balanced_def by (metis (no_types, lifting) add.assoc add.commute)

lemma balanced_acquire: "snd v' = acquire r (snd v) \<Longrightarrow> balanced {#} {#r#} v v'"
  by (simp add: balanced_def acquire_def)

lemma balanced_release: "snd v' = release r (snd v) \<Longrightarrow> balanced {#r#} {#} v v'"
  by (simp add: balanced_def release_def subset_eq_diff_conv)

lemma balanced_refuse: "snd v' = refuse r (snd v) \<Longrightarrow> balanced {#r#} {#} v v'"
  by (simp add: balanced_def refuse_def)

section \<open>The retry loop\<close>

text \<open>What every failed attempt and every sleep keeps, and what a success turns it into.\<close>

lemma connect_loop_keeps:
  assumes "connect_loop fuel clk attempt expired deadline prev w = Some (r, w')" and "P w"
    and "\<And>d w. P w \<Longrightarrow> P (clk_sleep clk d w)"
    and "\<And>d w out w'. P w \<Longrightarrow> attempt d w = (None, w') \<Longrightarrow> P w'"
    and "\<And>d w out w'. P w \<Longrightarrow> attempt d w = (Some (Inl out), w') \<Longrightarrow> P w'"
    and "\<And>d w c w'. P w \<Longrightarrow> attempt d w = (Some (Inr c), w') \<Longrightarrow> Q c w'"
  shows "case r of Inl _ \<Rightarrow> P w' | Inr c \<Rightarrow> Q c w'"
  using assms(1,2)
proof (induction fuel arbitrary: prev w)
  case (Suc fuel)
  obtain a w1 where a: "attempt (deadline - clk_now clk w) w = (a, w1)"
    by (cases "attempt (deadline - clk_now clk w) w")
  consider (none) "a = None" | (err) out where "a = Some (Inl out)" | (ok) c where "a = Some (Inr c)"
    by (metis not_None_eq obj_sumE)
  then show ?case
  proof cases
    case none
    with a assms(4) Suc.prems show ?thesis by (auto simp: connect_loop.simps Let_def split: if_splits)
  next
    case err
    with a assms(5) Suc.prems(2) have "P w1" by blast
    with a err Suc assms(3) show ?thesis by (auto simp: connect_loop.simps Let_def split: if_splits)
  next
    case ok
    with a assms(6) Suc.prems show ?thesis by (auto simp: connect_loop.simps Let_def split: if_splits)
  qed
qed (simp add: connect_loop.simps)

lemma connect_within_keeps:
  assumes "connect_within clk attempt expired timeout w = (r, w')" and "P w"
    and "\<And>d w. P w \<Longrightarrow> P (clk_sleep clk d w)"
    and "\<And>d w out w'. P w \<Longrightarrow> attempt d w = (None, w') \<Longrightarrow> P w'"
    and "\<And>d w out w'. P w \<Longrightarrow> attempt d w = (Some (Inl out), w') \<Longrightarrow> P w'"
    and "\<And>d w c w'. P w \<Longrightarrow> attempt d w = (Some (Inr c), w') \<Longrightarrow> Q c w'"
  shows "case r of Inl _ \<Rightarrow> P w' | Inr c \<Rightarrow> Q c w'"
proof (cases "connect_loop (timeout div backoff_limit + 2) clk attempt expired (clk_now clk w + timeout) None w")
  case None
  with assms(1,2) show ?thesis unfolding connect_within_def by auto
next
  case (Some res)
  with assms(1) have "res = (r, w')" unfolding connect_within_def by simp
  from connect_loop_keeps [OF Some [unfolded this] assms(2-6)] show ?thesis .
qed

text \<open>Beside a ledger the loop answers what it answers without one.\<close>

lemma connect_loop_audited:
  assumes "\<And>d v. attempt d (fst v) = apsnd fst (attempt' d v)"
  shows "connect_loop fuel clk attempt expired deadline prev (fst v) =
    map_option (apsnd fst) (connect_loop fuel (audited_clock clk) attempt' expired deadline prev v)"
proof (induction fuel arbitrary: prev v)
  case (Suc fuel)
  obtain a v1 where "attempt' (deadline - clk_now clk (fst v)) v = (a, v1)"
    by (cases "attempt' (deadline - clk_now clk (fst v)) v")
  with assms [of "deadline - clk_now clk (fst v)" v] Suc.IH show ?case
    by (cases v1) (auto simp: connect_loop.simps Let_def audited_clock_def split: option.splits sum.splits)
qed (simp add: connect_loop.simps)

lemma connect_within_audited:
  assumes "\<And>d v. attempt d (fst v) = apsnd fst (attempt' d v)"
  shows "connect_within clk attempt expired timeout (fst v) =
    apsnd fst (connect_within (audited_clock clk) attempt' expired timeout v)"
  using connect_loop_audited [of attempt attempt' "timeout div backoff_limit + 2" clk expired
      "clk_now clk (fst v) + timeout" None v, OF assms]
  by (auto simp: connect_within_def audited_clock_def split: option.splits)

section \<open>The runtimes beside a ledger\<close>

lemma booked_eq [simp]: "booked entry f (w, l) = (fst (f w), snd (f w), entry (fst (f w)) l)"
  by (simp add: booked_def split_beta Let_def)

lemma audited_exec_sel [simp]:
  "es_split (audited_exec sv) = es_split sv"
  "es_is_dir (audited_exec sv) p v = es_is_dir sv p (fst v)"
  "es_spawn (audited_exec sv) req =
     booked (\<lambda>a. case a of Inr c \<Rightarrow> acquire (RProcess c) | Inl _ \<Rightarrow> id) (es_spawn sv req)"
  "es_child_id (audited_exec sv) c v = es_child_id sv c (fst v)"
  "es_sigterm (audited_exec sv) pid = apfst (es_sigterm sv pid)"
  "es_wait_for (audited_exec sv) d c = booked (\<lambda>a. case a of
       Some (Inr _) \<Rightarrow> release (RProcess c) | Some (Inl _) \<Rightarrow> refuse (RProcess c) | None \<Rightarrow> id)
     (es_wait_for sv d c)"
  "es_start_kill (audited_exec sv) c = unbooked (es_start_kill sv c)"
  "es_wait (audited_exec sv) c = map_prod (es_wait sv c) (release (RProcess c))"
  by (simp_all add: audited_exec_def)

lemma audited_docker_sel [simp]:
  "ds_pull (audited_docker sv) n t = unbooked (ds_pull sv n t)"
  "ds_build (audited_docker sv) n t p = unbooked (ds_build sv n t p)"
  "ds_start (audited_docker sv) req =
     booked (\<lambda>a. case a of Inr c \<Rightarrow> acquire (RContainer c) | Inl _ \<Rightarrow> id) (ds_start sv req)"
  "ds_id (audited_docker sv) = ds_id sv"
  "ds_rm (audited_docker sv) d c = booked (\<lambda>a. case a of
       Some (Inr _) \<Rightarrow> release (RContainer c) | _ \<Rightarrow> refuse (RContainer c)) (ds_rm sv d c)"
  "ds_is_file (audited_docker sv) p v = ds_is_file sv p (fst v)"
  "ds_hash (audited_docker sv) = ds_hash sv"
  by (simp_all add: audited_docker_def)

lemma audited_pg_sel [simp]:
  "ps_clock (audited_pg sv) = audited_clock (ps_clock sv)"
  "ps_connect (audited_pg sv) cfg d =
     booked (\<lambda>a. case a of Some (Inr c) \<Rightarrow> acquire (RSession c) | _ \<Rightarrow> id) (ps_connect sv cfg d)"
  "ps_query (audited_pg sv) c sql = unbooked (ps_query sv c sql)"
  "ps_query_within (audited_pg sv) d c sql = unbooked (ps_query_within sv d c sql)"
  "ps_drop (audited_pg sv) c = map_prod (ps_drop sv c) (release (RSession c))"
  by (simp_all add: audited_pg_def)

lemma audited_mqtt_sel [simp]:
  "ms_clock (audited_mqtt sv) = audited_clock (ms_clock sv)"
  "ms_handshake (audited_mqtt sv) opts d = booked (\<lambda>(client, polls). case attempt_connect client polls of
       Some (Inr _) \<Rightarrow> acquire (RClient client) | _ \<Rightarrow> id) (ms_handshake sv opts d)"
  "ms_subscribe (audited_mqtt sv) c t q props = unbooked (ms_subscribe sv c t q props)"
  "ms_publish (audited_mqtt sv) c t q b props = unbooked (ms_publish sv c t q b props)"
  "ms_disconnect (audited_mqtt sv) c = apfst (ms_disconnect sv c)"
  "ms_await_ack (audited_mqtt sv) c = unbooked (ms_await_ack sv c)"
  "ms_await_recv (audited_mqtt sv) d c = unbooked (ms_await_recv sv d c)"
  "ms_abort (audited_mqtt sv) c = map_prod (ms_abort sv c) (release (RClient c))"
  by (simp_all add: audited_mqtt_def)

lemma exec_construct_audited: "exec_construct (audited_exec sv) args v = exec_construct sv args (fst v)"
proof -
  have eq: "resolve_cwd (audited_exec sv) cwd dir v = resolve_cwd sv cwd dir (fst v)" for cwd dir
    by (simp add: resolve_cwd_def)
  show ?thesis unfolding exec_construct_def eq ..
qed

lemma exec_execute_audited:
  "exec_execute sv i c args (fst v) = apsnd (apsnd fst) (exec_execute (audited_exec sv) i c args v)"
  by (cases v) (auto simp: exec_execute_def stopped_execute_def stopped_run_def running_execute_def
      Let_def split_beta split: exec_mode.split option.split list.split sum.split prod.split)

lemma exec_teardown_audited:
  "exec_teardown sv i (fst v) = apsnd (apsnd fst) (exec_teardown (audited_exec sv) i v)"
  by (cases v) (auto simp: exec_teardown_def running_stop_def
      Let_def split_beta split: exec_mode.split option.split sum.split prod.split)

lemma container_construct_audited:
  "container_construct sv args (fst v) = apsnd fst (container_construct (audited_docker sv) args v)"
  by (cases v) (auto simp: container_construct_def prepare_from_image_def prepare_from_dockerfile_def
      synthesize_image_name_def Let_def split_beta
      split: option.split sum.split prod.split val.split)

lemma container_execute_audited:
  "container_execute sv i c args (fst v) = apsnd (apsnd fst) (container_execute (audited_docker sv) i c args v)"
  by (cases v) (auto simp: container_execute_def container_stopped_run_def container_running_stop_def
      Let_def split_beta
      split: container_mode.split option.split sum.split prod.split)

lemma container_teardown_audited:
  "container_teardown sv i (fst v) = apsnd (apsnd fst) (container_teardown (audited_docker sv) i v)"
  by (cases v) (auto simp: container_teardown_def container_running_teardown_def
      Let_def split_beta split: container_mode.split option.split sum.split prod.split)

lemma pg_attempt_audited: "pg_attempt sv cfg d (fst v) = apsnd fst (pg_attempt (audited_pg sv) cfg d v)"
  by (cases v) (auto simp: pg_attempt_def split: prod.split option.split sum.split)

lemma pg_execute_audited:
  "pg_execute sv i c args (fst v) = apsnd (apsnd fst) (pg_execute (audited_pg sv) i c args v)"
proof -
  have "disconnected_connect sv kw (fst v) = apsnd (apsnd fst) (disconnected_connect (audited_pg sv) kw v)" for kw
    by (auto simp: disconnected_connect_def connect_within_audited [of _ "pg_attempt (audited_pg sv) cfg" for cfg,
        OF pg_attempt_audited] split: option.split prod.split sum.split)
  moreover have "connected_query sv k sql t (fst v) = apsnd (apsnd fst) (connected_query (audited_pg sv) k sql t v)"
    for k sql t
    by (cases v) (auto simp: connected_query_def split_beta Let_def split: option.split prod.split sum.split val.split)
  moreover have "connected_disconnect sv k (fst v) = apsnd (apsnd fst) (connected_disconnect (audited_pg sv) k v)" for k
    by (cases v) (simp add: connected_disconnect_def)
  ultimately show ?thesis
    by (auto simp: pg_execute_def Let_def split: pg_mode.split list.split val.split prod.split)
qed

lemma pg_teardown_audited:
  "pg_teardown sv i (fst v) = apsnd (apsnd fst) (pg_teardown (audited_pg sv) i v)"
  by (cases v) (auto simp: pg_teardown_def connected_teardown_def split: pg_mode.split)

lemma mqtt_attempt_audited: "mqtt_attempt sv opts d (fst v) = apsnd fst (mqtt_attempt (audited_mqtt sv) opts d v)"
  by (cases v) (auto simp: mqtt_attempt_def split_beta Let_def)

lemma mqtt_execute_audited:
  "mqtt_execute sv i c args (fst v) = apsnd (apsnd fst) (mqtt_execute (audited_mqtt sv) i c args v)"
proof -
  have connect: "mqtt_disconnected_connect sv kw (fst v) =
      apsnd (apsnd fst) (mqtt_disconnected_connect (audited_mqtt sv) kw v)" for kw
    by (auto simp: mqtt_disconnected_connect_def split: option.split prod.split sum.split
        simp: connect_within_audited [of _ "mqtt_attempt (audited_mqtt sv) opts" for opts, OF mqtt_attempt_audited])
  have disconnect: "mqtt_connected_disconnect sv k (fst v) =
      apsnd (apsnd fst) (mqtt_connected_disconnect (audited_mqtt sv) k v)" for k
    by (cases v) (simp add: mqtt_connected_disconnect_def)
  have subscribe: "mqtt_subscribe sv q args k (fst v) = apsnd (apsnd fst) (mqtt_subscribe (audited_mqtt sv) q args k v)"
    for q k
    by (cases v) (auto simp: mqtt_subscribe_def await_waiter_def Let_def split_beta
        split: list.split val.split sum.split)
  have publish: "mqtt_publish sv q args k (fst v) = apsnd (apsnd fst) (mqtt_publish (audited_mqtt sv) q args k v)"
    for q k
    by (cases v) (auto simp: mqtt_publish_def await_waiter_def Let_def split_beta
        split: list.split val.split sum.split option.split)
  have receive: "receive_publish sv args k (fst v) = apsnd (apsnd fst) (receive_publish (audited_mqtt sv) args k v)"
    "receive_disconnect sv args k (fst v) = apsnd (apsnd fst) (receive_disconnect (audited_mqtt sv) args k v)" for k
    by (cases v, auto simp: receive_publish_def receive_disconnect_def Let_def split_beta
        split: list.split option.split)+
  show ?thesis
    by (auto simp: mqtt_execute_def keep_connected_def connect disconnect subscribe publish receive Let_def split_beta
        split: mqtt_mode.split)
qed

lemma mqtt_teardown_audited:
  "mqtt_teardown sv i (fst v) = apsnd (apsnd fst) (mqtt_teardown (audited_mqtt sv) i v)"
  by (cases v) (auto simp: mqtt_teardown_def mqtt_connected_teardown_def split: mqtt_mode.split)

section \<open>Balanced runtimes\<close>

definition exec_held :: "'e exec_instance \<Rightarrow> ('e, 'd, 'p, 'm) resource multiset" where
  "exec_held i = (case ex_mode i of ExStopped \<Rightarrow> {#} | ExRunning c \<Rightarrow> {#RProcess c#})"

definition container_held :: "'d container_instance \<Rightarrow> ('e, 'd, 'p, 'm) resource multiset" where
  "container_held i = (case ct_mode i of CtStopped \<Rightarrow> {#} | CtRunning c \<Rightarrow> {#RContainer c#})"

definition pg_held :: "'p pg_instance \<Rightarrow> ('e, 'd, 'p, 'm) resource multiset" where
  "pg_held i = (case pg_mode i of PmDisconnected \<Rightarrow> {#} | PmConnected c \<Rightarrow> {#RSession c#})"

definition mqtt_held :: "'m mqtt_instance \<Rightarrow> ('e, 'd, 'p, 'm) resource multiset" where
  "mqtt_held i = (case mq_mode i of MmDisconnected \<Rightarrow> {#} | MmConnected c \<Rightarrow> {#RClient (cn_client c)#})"

lemma balanced_steps [simp]:
  "balanced h h (w, l) (w', l)" "balanced {#} {#r#} (w, l) (w', acquire r l)"
  "balanced {#r#} {#} (w, l) (w', release r l)" "balanced {#r#} {#} (w, l) (w', refuse r l)"
  by (simp_all add: balanced_same balanced_acquire balanced_release balanced_refuse)

lemma exec_execute_balanced:
  "exec_execute (audited_exec sv) i c args v = (out, i', v') \<Longrightarrow> balanced (exec_held i) (exec_held i') v v'"
  by (cases v) (auto simp: exec_execute_def stopped_execute_def stopped_run_def running_execute_def exec_held_def
      Let_def split: exec_mode.splits option.splits list.splits sum.splits if_splits)

lemma exec_teardown_balanced:
  "exec_teardown (audited_exec sv) i v = (t, i', v') \<Longrightarrow> balanced (exec_held i) {#} v v'"
  by (cases v) (auto simp: exec_teardown_def running_stop_def exec_held_def Let_def split: exec_mode.splits option.splits sum.splits)

lemma container_construct_balanced:
  "container_construct (audited_docker sv) args v = (r, v') \<Longrightarrow>
   snd v' = snd v \<and> (case r of Inr i \<Rightarrow> ct_mode i = CtStopped | Inl _ \<Rightarrow> True)"
  by (cases v) (auto simp: container_construct_def prepare_from_image_def prepare_from_dockerfile_def Let_def
      split: option.splits sum.splits val.splits if_splits prod.splits)

lemma container_execute_balanced:
  "container_execute (audited_docker sv) i c args v = (out, i', v') \<Longrightarrow>
   balanced (container_held i) (container_held i') v v'"
  by (cases v) (auto simp: container_execute_def container_stopped_run_def container_running_stop_def
      container_held_def Let_def  split: container_mode.splits option.splits sum.splits if_splits)

lemma container_teardown_balanced:
  "container_teardown (audited_docker sv) i v = (t, i', v') \<Longrightarrow> balanced (container_held i) {#} v v'"
  by (cases v) (auto simp: container_teardown_def container_running_teardown_def container_held_def split: container_mode.splits option.splits sum.splits)

lemma pg_teardown_balanced:
  "pg_teardown (audited_pg sv) i v = (t, i', v') \<Longrightarrow> balanced (pg_held i) {#} v v'"
  by (cases v) (auto simp: pg_teardown_def connected_teardown_def pg_held_def  split: pg_mode.splits)

lemma mqtt_teardown_balanced:
  "mqtt_teardown (audited_mqtt sv) i v = (t, i', v') \<Longrightarrow> balanced (mqtt_held i) {#} v v'"
  by (cases v) (auto simp: mqtt_teardown_def mqtt_connected_teardown_def mqtt_held_def  split: mqtt_mode.splits)

lemma connect_balanced:
  assumes "connect_within (audited_clock clk) attempt expired timeout v = (r, v')"
    and "\<And>d v a v'. attempt d v = (a, v') \<Longrightarrow>
      balanced {#} (case a of Some (Inr c) \<Rightarrow> {#f c#} | _ \<Rightarrow> {#}) v v'"
  shows "balanced {#} (case r of Inr c \<Rightarrow> {#f c#} | Inl _ \<Rightarrow> {#}) v v'"
proof -
  have "case r of Inl _ \<Rightarrow> balanced {#} {#} v v' | Inr c \<Rightarrow> balanced {#} {#f c#} v v'"
  proof (rule connect_within_keeps [OF assms(1), where P = "balanced {#} {#} v"])
    show "balanced {#} {#} v v" by (rule balanced_same) simp
    show "balanced {#} {#} v (clk_sleep (audited_clock clk) d u)" if "balanced {#} {#} v u" for d u
      using that by (auto simp: audited_clock_def intro: balanced_trans [OF _ balanced_same])
  qed (use assms(2) in \<open>fastforce intro: balanced_trans\<close>)+
  then show ?thesis by (simp split: sum.splits)
qed

lemma pg_attempt_balanced:
  "pg_attempt (audited_pg sv) cfg d u = (a, u') \<Longrightarrow>
   balanced {#} (case a of Some (Inr k) \<Rightarrow> {#RSession k#} | _ \<Rightarrow> {#}) u u'"
  by (cases u) (auto simp: pg_attempt_def split: option.splits sum.splits)

lemma pg_connect_balanced:
  assumes "disconnected_connect (audited_pg sv) kw v = (m, out, v')"
  shows "balanced {#} (pg_held \<lparr>pg_mode = m\<rparr>) v v'"
proof (cases "build_config kw")
  case None
  with assms show ?thesis by (auto simp: disconnected_connect_def pg_held_def intro: balanced_same)
next
  case (Some p)
  obtain cfg timeout where p: "p = (cfg, timeout)" by (cases p)
  obtain r v1 where r: "connect_within (audited_clock (ps_clock sv)) (pg_attempt (audited_pg sv) cfg)
      (pg_network_error ''timeout'') timeout v = (r, v1)" by (rule prod.exhaust)
  from connect_balanced [OF r pg_attempt_balanced] Some p r assms show ?thesis
    by (auto simp: disconnected_connect_def pg_held_def split: sum.splits)
qed

lemma pg_query_balanced:
  "connected_query (audited_pg sv) k sql t v = (m, out, v') \<Longrightarrow> m = PmConnected k \<and> snd v' = snd v"
  by (cases v) (auto simp: connected_query_def Let_def split: option.splits sum.splits val.splits if_splits)

lemma pg_execute_balanced:
  assumes "pg_execute (audited_pg sv) i c args v = (out, i', v')"
  shows "balanced (pg_held i) (pg_held i') v v'"
proof (cases "pg_mode i")
  case PmDisconnected
  obtain m out1 v1 where c: "disconnected_connect (audited_pg sv) (args_keyword args) v = (m, out1, v1)"
    by (rule prod_cases3)
  from pg_connect_balanced [OF c] c PmDisconnected assms show ?thesis
    by (auto simp: pg_execute_def pg_held_def intro: balanced_same split: if_splits)
next
  case (PmConnected k)
  have "balanced {#RSession k#} (pg_held \<lparr>pg_mode = m\<rparr>) v v1"
    if "connected_query (audited_pg sv) k sql t v = (m, out1, v1)" for sql t m out1 v1
    using pg_query_balanced [OF that] by (simp add: pg_held_def balanced_same)
  with PmConnected assms show ?thesis
    by (cases v) (auto simp: pg_execute_def Let_def pg_held_def connected_disconnect_def
        split: if_splits list.splits val.splits prod.splits)
qed

lemma cn_client_run_event_loop [simp]: "cn_client (run_event_loop es conn) = cn_client conn"
  by (induction es conn rule: run_event_loop.induct) auto

lemma mqtt_clients [simp]:
  "cn_client (drive es conn) = cn_client conn" "cn_client (spawn_connected client) = client"
  "cn_client (snd (pop_waiter k conn)) = cn_client conn"
  by (auto simp: drive_def spawn_connected_def pop_waiter_def split: list.split)

lemma push_waiter_client: "push_waiter k conn = (wid, conn1) \<Longrightarrow> cn_client conn1 = cn_client conn"
  by (auto simp: push_waiter_def Let_def)

lemma recv_publish_client: "recv_publish conn = Some (p, conn1) \<Longrightarrow> cn_client conn1 = cn_client conn"
  by (auto simp: recv_publish_def split: list.splits option.splits)

text \<open>The commands on a session keep its client and the ledger.\<close>

lemma mqtt_subscribe_keeps:
  "mqtt_subscribe (audited_mqtt sv) q args conn v = (out, conn', v') \<Longrightarrow>
   cn_client conn' = cn_client conn \<and> snd v' = snd v"
  by (cases v) (auto simp: mqtt_subscribe_def await_waiter_def Let_def
      dest: push_waiter_client split: list.splits val.splits sum.splits prod.splits if_splits)

lemma mqtt_publish_keeps:
  "mqtt_publish (audited_mqtt sv) q args conn v = (out, conn', v') \<Longrightarrow>
   cn_client conn' = cn_client conn \<and> snd v' = snd v"
  by (cases v) (auto simp: mqtt_publish_def await_waiter_def Let_def
      dest: push_waiter_client split: list.splits val.splits sum.splits prod.splits option.splits if_splits)

lemma receive_publish_keeps:
  "receive_publish (audited_mqtt sv) args conn v = (out, conn', v') \<Longrightarrow>
   cn_client conn' = cn_client conn \<and> snd v' = snd v"
  by (cases v) (auto simp: receive_publish_def Let_def dest: recv_publish_client
      split: option.splits prod.splits if_splits)

lemma attempt_connect_client:
  "attempt_connect client polls = Some (Inr (conn, out)) \<Longrightarrow> cn_client conn = client"
  by (induction client polls rule: attempt_connect.induct) (auto split: if_splits prod.splits)

lemma mqtt_attempt_balanced:
  "mqtt_attempt (audited_mqtt sv) opts d u = (a, u') \<Longrightarrow>
   balanced {#} (case a of Some (Inr k) \<Rightarrow> {#RClient (cn_client (fst k))#} | _ \<Rightarrow> {#}) u u'"
  by (cases u) (auto simp: mqtt_attempt_def Let_def dest: attempt_connect_client
      split: option.splits sum.splits prod.splits)

lemma mqtt_connect_balanced:
  assumes "mqtt_disconnected_connect (audited_mqtt sv) kw v = (m, out, v')"
  shows "balanced {#} (mqtt_held \<lparr>mq_mode = m\<rparr>) v v'"
proof (cases "build_connect_config kw")
  case None
  with assms show ?thesis by (auto simp: mqtt_disconnected_connect_def mqtt_held_def intro: balanced_same)
next
  case (Some p)
  obtain opts timeout where p: "p = (opts, timeout)" by (cases p)
  obtain r v1 where r: "connect_within (audited_clock (ms_clock sv)) (mqtt_attempt (audited_mqtt sv) opts)
      (mqtt_network_error ''timeout'') timeout v = (r, v1)" by (rule prod.exhaust)
  from connect_balanced [OF r mqtt_attempt_balanced] Some p r assms show ?thesis
    by (auto simp: mqtt_disconnected_connect_def mqtt_held_def split: sum.splits prod.splits)
qed

lemma receive_disconnect_balanced:
  "receive_disconnect (audited_mqtt sv) args conn v = (m, out, v') \<Longrightarrow>
   balanced {#RClient (cn_client conn)#} (mqtt_held \<lparr>mq_mode = m\<rparr>) v v'"
  by (cases v) (auto simp: receive_disconnect_def mqtt_held_def Let_def split: list.splits prod.splits if_splits)

lemma keep_connected_balanced:
  assumes "cn_client (fst (snd r)) = cn_client conn \<and> snd (snd (snd r)) = snd v"
    and "keep_connected r = (m, out, v')"
  shows "balanced {#RClient (cn_client conn)#} (mqtt_held \<lparr>mq_mode = m\<rparr>) v v'"
  using assms by (auto simp: keep_connected_def mqtt_held_def balanced_same split: prod.splits)

lemma mqtt_execute_balanced:
  assumes "mqtt_execute (audited_mqtt sv) i c args v = (out, i', v')"
  shows "balanced (mqtt_held i) (mqtt_held i') v v'"
proof (cases "mq_mode i")
  case MmDisconnected
  obtain m out1 v1 where c: "mqtt_disconnected_connect (audited_mqtt sv) (args_keyword args) v = (m, out1, v1)"
    by (rule prod_cases3)
  from mqtt_connect_balanced [OF c] c MmDisconnected assms show ?thesis
    by (auto simp: mqtt_execute_def mqtt_held_def intro: balanced_same split: if_splits)
next
  case (MmConnected conn)
  let ?sv = "audited_mqtt sv"
  from assms MmConnected obtain m out1 where i': "i' = i\<lparr>mq_mode := m\<rparr>"
    and "mqtt_connected_disconnect ?sv conn v = (m, out1, v') \<or>
      (\<exists>q. keep_connected (mqtt_subscribe ?sv q args conn v) = (m, out1, v')) \<or>
      (\<exists>q. keep_connected (mqtt_publish ?sv q args conn v) = (m, out1, v')) \<or>
      keep_connected (receive_publish ?sv args conn v) = (m, out1, v') \<or>
      receive_disconnect ?sv args conn v = (m, out1, v') \<or> m = MmConnected conn \<and> v' = v"
    by (simp add: mqtt_execute_def Let_def split: prod.splits if_splits; blast)
  then consider (disconnect) "mqtt_connected_disconnect ?sv conn v = (m, out1, v')"
    | (subscribe) q where "keep_connected (mqtt_subscribe ?sv q args conn v) = (m, out1, v')"
    | (publish) q where "keep_connected (mqtt_publish ?sv q args conn v) = (m, out1, v')"
    | (receive) "keep_connected (receive_publish ?sv args conn v) = (m, out1, v')"
    | (closed) "receive_disconnect ?sv args conn v = (m, out1, v')"
    | (same) "m = MmConnected conn" "v' = v" by blast
  then have "balanced {#RClient (cn_client conn)#} (mqtt_held \<lparr>mq_mode = m\<rparr>) v v'"
  proof cases
    case disconnect
    then show ?thesis by (cases v) (auto simp: mqtt_connected_disconnect_def mqtt_held_def)
  next
    case subscribe
    with mqtt_subscribe_keeps show ?thesis by (metis keep_connected_balanced prod.collapse)
  next
    case publish
    with mqtt_publish_keeps show ?thesis by (metis keep_connected_balanced prod.collapse)
  next
    case receive
    with receive_publish_keeps show ?thesis by (metis keep_connected_balanced prod.collapse)
  next
    case closed
    then show ?thesis by (rule receive_disconnect_balanced)
  next
    case same
    then show ?thesis by (simp add: mqtt_held_def balanced_same)
  qed
  with MmConnected i' show ?thesis by (simp add: mqtt_held_def)
qed

end
