(* ===== verification/Ill_Cli.thy ===== *)
theory Ill_Cli
  imports Ill_Harness Ill_Args_Actor
begin

text \<open>
  The command line, \<^verbatim>\<open>crates/ill/src/main.rs\<close>. The file system is the record \<open>file_system\<close> of what
  \<open>std::fs\<close> answers; \<open>clap\<close> delivers the parsed command; everything printed is a list of events in
  order; the exit status is a number, a panic is \<open>Inl\<close> of its message. The recursive directory walk
  has fuel for its depth, as a tree with symbolic-link cycles has none.
\<close>

record file_system =
  fs_is_dir :: "path_buf \<Rightarrow> bool"
  fs_read_to_string :: "path_buf \<Rightarrow> string + string"
  fs_read_dir :: "path_buf \<Rightarrow> string + (string + path_buf) list"

datatype cli_event =
    Stdout string
  | Stderr string
  | RenderDiagnostics path_buf string "diagnostic list"
  | PrintFailure test_report string

datatype commands = Test (test_paths: "path_buf list") (test_args: "string list") | Check (check_paths: "path_buf list")

section \<open>Arguments and files\<close>

definition is_ill_file :: "path_buf \<Rightarrow> bool" where
  "is_ill_file path = (path_extension path = Some ''ill'')"

definition parse_cli_arg :: "string \<Rightarrow> cli_args \<Rightarrow> string + cli_args" where
  "parse_cli_arg item out =
     (case split_once CHR ''='' item of
        None \<Rightarrow> Inl (''--arg `'' @ item @ ''` must be in the form KEY=VALUE'')
      | Some (k, v) \<Rightarrow>
          (let key = trim k
           in if key = [] then Inl (''--arg `'' @ item @ ''` has an empty key'')
              else if map_of out key \<noteq> None then Inl (''--arg `'' @ key @ ''` specified more than once'')
              else Inr (btree_insert key v out)))"

definition parse_cli_args :: "string list \<Rightarrow> string + cli_args" where
  "parse_cli_args raw = try_fold parse_cli_arg raw []"

text \<open>The walk; the accumulator is what was printed and the files found so far.\<close>

fun collect_ill_files_inner ::
  "file_system \<Rightarrow> nat \<Rightarrow> path_buf \<Rightarrow> cli_event list \<times> path_buf list
     \<Rightarrow> (cli_event list \<times> path_buf list) option" where
  "collect_ill_files_inner fs 0 dir st = None"
| "collect_ill_files_inner fs (Suc fuel) dir (events, out) =
     (case fs_read_dir fs dir of
        Inl e \<Rightarrow> Some (events @ [Stderr (''ill: cannot read directory '' @ dir @ '': '' @ e)], out)
      | Inr entries \<Rightarrow>
          option_fold (\<lambda>entry (events, out).
            case entry of
              Inl e \<Rightarrow> Some (events @ [Stderr (''ill: error reading directory entry: '' @ e)], out)
            | Inr path \<Rightarrow>
                if fs_is_dir fs path then collect_ill_files_inner fs fuel path (events, out)
                else if is_ill_file path then Some (events, out @ [path])
                else Some (events, out)) entries (events, out))"

definition collect_ill_files ::
  "file_system \<Rightarrow> nat \<Rightarrow> path_buf \<Rightarrow> (cli_event list \<times> path_buf list) option" where
  "collect_ill_files fs fuel dir =
     map_option (\<lambda>(events, out). (events, sort_key path_components out))
       (collect_ill_files_inner fs fuel dir ([], []))"

definition resolve_files ::
  "file_system \<Rightarrow> nat \<Rightarrow> path_buf list \<Rightarrow> (cli_event list \<times> path_buf list) option" where
  "resolve_files fs fuel paths =
     (if paths = [] then collect_ill_files fs fuel ''.''
      else option_fold (\<lambda>p (events, all).
             if fs_is_dir fs p then
               map_option (\<lambda>(ev, found). (events @ ev, all @ found)) (collect_ill_files fs fuel p)
             else if \<not> is_ill_file p then
               Some (events @ [Stderr (''ill: skipping '' @ p @ '': not a .ill file'')], all)
             else Some (events, all @ [p])) paths ([], []))"

section \<open>Checking\<close>

record checked_file =
  cf_path :: path_buf
  cf_src :: string
  cf_ast :: "source_file option"
  cf_diags :: "diagnostic list"

record checked_suite =
  cs_files :: "checked_file list"
  cs_read_errors :: "(path_buf \<times> string) list"

type_synonym lowering = "string \<Rightarrow> diagnostic list + source_file"

definition check_file :: "lowering \<Rightarrow> path_buf \<Rightarrow> string \<Rightarrow> checked_file" where
  "check_file lower path src =
     (case lower src of
        Inr ast \<Rightarrow> \<lparr>cf_path = path, cf_src = src, cf_ast = Some ast, cf_diags = validate ast\<rparr>
      | Inl errors \<Rightarrow> \<lparr>cf_path = path, cf_src = src, cf_ast = None, cf_diags = errors\<rparr>)"

definition check_files :: "file_system \<Rightarrow> lowering \<Rightarrow> path_buf list \<Rightarrow> checked_suite" where
  "check_files fs lower files =
     fold (\<lambda>path suite.
       case fs_read_to_string fs path of
         Inr src \<Rightarrow> suite\<lparr>cs_files := cs_files suite @ [check_file lower path src]\<rparr>
       | Inl e \<Rightarrow> suite\<lparr>cs_read_errors := cs_read_errors suite @ [(path, e)]\<rparr>)
       files \<lparr>cs_files = [], cs_read_errors = []\<rparr>"

definition has_error :: "diagnostic list \<Rightarrow> bool" where
  "has_error ds = list_ex (\<lambda>d. diag_severity d = SevError) ds"

definition read_error_event :: "path_buf \<times> string \<Rightarrow> cli_event" where
  "read_error_event pe = Stderr (''ill: error reading '' @ fst pe @ '': '' @ snd pe)"

section \<open>\<open>ill test\<close>\<close>

text \<open>What the gate prints when it refuses to run.\<close>

definition gate_events :: "(path_buf \<times> string) list \<Rightarrow> checked_file list \<Rightarrow> cli_event list" where
  "gate_events read_errors failing =
     map read_error_event read_errors
     @ (if failing = [] then []
        else (case failing of
                [f] \<Rightarrow> [Stderr (''ill: '' @ cf_path f @ '' failed validation'')]
              | _ \<Rightarrow> Stderr (''ill: '' @ show_nat (length failing) @ '' files failed validation:'')
                     # map (\<lambda>f. Stderr (''  '' @ cf_path f)) failing)
             @ [Stderr []]
             @ map (\<lambda>f. RenderDiagnostics (cf_path f) (cf_src f)
                          (filter (\<lambda>d. diag_severity d = SevError) (cf_diags f))) failing)
     @ [Stderr ''ill: not running tests'']"

text \<open>The loop over the clean files: what is printed, the two counters, and the world.\<close>

fun run_clean ::
  "('i, 'w) instance_ops \<Rightarrow> regex_engine \<Rightarrow> checked_file list \<Rightarrow> nat \<Rightarrow> nat \<Rightarrow> 'w
     \<Rightarrow> (string + nat \<times> nat) \<times> cli_event list \<times> 'w" where
  "run_clean ops rx [] passed failed w = (Inr (passed, failed), [], w)"
| "run_clean ops rx (f # fs) passed failed w =
     (case cf_ast f of
        None \<Rightarrow> (Inl ''check_files invariant: error-free file has Some(ast)'', [], w)
      | Some ast \<Rightarrow>
          (let (report, w1) = run_validated_test_file ops rx (cf_path f) ast w
           in if tr_passed report then
                (let (r, events, w2) = run_clean ops rx fs (passed + 1) failed w1
                 in (r, Stdout (''PASS '' @ cf_path f) # events, w2))
              else
                (let (r, events, w2) = run_clean ops rx fs passed (failed + 1) w1
                 in (r, PrintFailure report (cf_src f) # events, w2))))"

definition run_test ::
  "file_system \<Rightarrow> nat \<Rightarrow> lowering \<Rightarrow> ('i, 'w) instance_ops \<Rightarrow> regex_engine \<Rightarrow> path_buf list \<Rightarrow> 'w
     \<Rightarrow> ((string + nat) \<times> cli_event list \<times> 'w) option" where
  "run_test fs fuel lower ops rx paths w =
     map_option (\<lambda>(events0, files).
       if files = [] then (Inr 1, events0 @ [Stderr ''ill: no .ill files found''], w)
       else
         (let suite = check_files fs lower files;
              (failing, clean) = partition (\<lambda>f. has_error (cf_diags f)) (cs_files suite)
          in if cs_read_errors suite \<noteq> [] \<or> failing \<noteq> [] then
               (Inr 1, events0 @ gate_events (cs_read_errors suite) failing, w)
             else
               (case run_clean ops rx clean 0 0 w of
                  (Inl panic, events, w') \<Rightarrow> (Inl panic, events0 @ events, w')
                | (Inr (passed, failed), events, w') \<Rightarrow>
                    (Inr (if failed > 0 then 1 else 0),
                     events0 @ events
                       @ [Stdout (show_nat passed @ '' passed, '' @ show_nat failed @ '' failed'')], w'))))
       (resolve_files fs fuel paths)"

section \<open>\<open>ill check\<close>\<close>

definition count_severity :: "severity \<Rightarrow> checked_file list \<Rightarrow> nat" where
  "count_severity sev fs =
     length (filter (\<lambda>d. diag_severity d = sev) (concat (map cf_diags fs)))"

definition check_summary :: "nat \<Rightarrow> nat \<Rightarrow> nat \<Rightarrow> nat \<Rightarrow> nat \<Rightarrow> string" where
  "check_summary errors warnings infos hints file_count =
     (let file_word = (if file_count = 1 then ''file'' else ''files'')
      in if errors = 0 \<and> warnings = 0 \<and> infos = 0 \<and> hints = 0 then
           ''ok '' @ [CHR 0xE2, CHR 0x80, CHR 0x94] @ '' '' @ show_nat file_count @ '' '' @ file_word
             @ '' checked''
         else
           join '', ''
             ((if errors > 0 then [show_nat errors @ '' '' @ (if errors = 1 then ''error'' else ''errors'')] else [])
              @ (if warnings > 0 then [show_nat warnings @ '' '' @ (if warnings = 1 then ''warning'' else ''warnings'')] else [])
              @ (if infos > 0 then [show_nat infos @ '' info''] else [])
              @ (if hints > 0 then [show_nat hints @ '' '' @ (if hints = 1 then ''hint'' else ''hints'')] else []))
             @ '' in '' @ show_nat file_count @ '' '' @ file_word)"

definition run_check :: "file_system \<Rightarrow> nat \<Rightarrow> lowering \<Rightarrow> path_buf list \<Rightarrow> (nat \<times> cli_event list) option" where
  "run_check fs fuel lower paths =
     map_option (\<lambda>(events0, files).
       if files = [] then (1, events0 @ [Stderr ''ill: no .ill files found''])
       else
         (let suite = check_files fs lower files;
              errors = length (cs_read_errors suite) + count_severity SevError (cs_files suite);
              warnings = count_severity SevWarning (cs_files suite);
              infos = count_severity SevInfo (cs_files suite);
              hints = count_severity SevHint (cs_files suite)
          in (if errors > 0 then 1 else 0,
              events0 @ map read_error_event (cs_read_errors suite)
                @ map (\<lambda>f. RenderDiagnostics (cf_path f) (cf_src f) (cf_diags f)) (cs_files suite)
                @ [Stdout (check_summary errors warnings infos hints (length files))])))
       (resolve_files fs fuel paths)"

section \<open>\<open>main\<close>\<close>

text \<open>\<open>set_cli_args\<close> installs the map that the actors' \<open>construct\<close> reads: the method table depends on it.\<close>

definition ill_main ::
  "file_system \<Rightarrow> nat \<Rightarrow> lowering \<Rightarrow> (cli_args \<Rightarrow> ('i, 'w) instance_ops) \<Rightarrow> regex_engine \<Rightarrow> commands \<Rightarrow> 'w
     \<Rightarrow> ((string + nat) \<times> cli_event list \<times> 'w) option" where
  "ill_main fs fuel lower ops_of rx command w =
     (case command of
        Test paths args \<Rightarrow>
          (case parse_cli_args args of
             Inl msg \<Rightarrow> Some (Inr 1, [Stderr (''ill: '' @ msg)], w)
           | Inr cli \<Rightarrow> run_test fs fuel lower (ops_of cli) rx paths w)
      | Check paths \<Rightarrow> map_option (\<lambda>(code, events). (Inr code, events, w)) (run_check fs fuel lower paths))"

end
