(* ===== verification/Ill_Bookkeeping.thy ===== *)
theory Ill_Bookkeeping
  imports Ill_Ledger Ill_Cli
begin

text \<open>
  What a run leaves behind. The locale \<open>bookkeeping\<close> is the contract of a method table whose instances account
  for what they hold, \<open>transparent\<close> that of a table that behaves as another one does; the harness and the
  command line are walked once in each. Both are interpreted on the built-in runtimes over audited services.
\<close>

section \<open>Every instance accounts for what it holds\<close>

fun held_all :: "('i \<Rightarrow> 'r multiset) \<Rightarrow> 'i actors \<Rightarrow> 'r multiset" where
  "held_all held [] = {#}"
| "held_all held ((n, i) # actors) = held i + held_all held actors"

lemma held_all_append [simp]: "held_all held (xs @ ys) = held_all held xs + held_all held ys"
  by (induction held xs rule: held_all.induct) (auto simp: add.assoc)

lemma held_all_rev [simp]: "held_all held (rev xs) = held_all held xs"
  by (induction held xs rule: held_all.induct) (auto simp: add.commute)

lemma held_all_put:
  "actors_get actors n = Some i \<Longrightarrow>
   \<exists>rest. held_all held actors = held i + rest \<and> (\<forall>j. held_all held (actors_put n j actors) = held j + rest)"
proof (induction actors)
  case (Cons a actors)
  obtain k j where a: "a = (k, j)" by (cases a)
  show ?case
  proof (cases "k = n")
    case False
    with Cons a obtain rest where "held_all held actors = held i + rest"
      "\<forall>j. held_all held (actors_put n j actors) = held j + rest" by auto
    with False a show ?thesis by (intro exI [of _ "held j + rest"]) (simp add: add.left_commute)
  qed (use Cons.prems a in auto)
qed simp

locale bookkeeping =
  fixes ops :: "('i, 'w \<times> 'r ledger) instance_ops" and held :: "'i \<Rightarrow> 'r multiset"
  assumes construct_books: "op_construct ops n cargs v = (r, v') \<Longrightarrow>
      balanced {#} (case r of Inr i \<Rightarrow> held i | Inl _ \<Rightarrow> {#}) v v'"
    and execute_books: "op_execute ops i c args v = (out, i', v') \<Longrightarrow> balanced (held i) (held i') v v'"
    and teardown_books: "op_teardown ops i v = (j, v') \<Longrightarrow> balanced (held i) {#} v v'"
begin

lemma put_books:
  assumes "actors_get actors n = Some i" and "balanced (held i) (held i') v v'"
  shows "balanced (held_all held actors) (held_all held (actors_put n i' actors)) v v'"
  using held_all_put [OF assms(1)] balanced_frame [OF assms(2)] by metis

lemma run_statement_books:
  assumes "run_statement ops rx ty blk idx s scope actors v = (r, actors', v')"
  shows "balanced (held_all held actors) (held_all held actors') v v'"
  using assms
  by (auto simp: run_statement_def run_command_def Let_def balanced_same intro: put_books execute_books
      split: statement.splits option.splits sum.splits prod.splits run_outcome.splits if_splits)

lemma run_statements_books:
  "run_statements ops rx ty blk idx body scope actors v = (r, actors', v') \<Longrightarrow>
   balanced (held_all held actors) (held_all held actors') v v'"
proof (induction body arbitrary: idx scope actors v)
  case (Cons s body)
  obtain r1 actors1 v1 where s: "run_statement ops rx ty blk idx s scope actors v = (r1, actors1, v1)"
    by (rule prod_cases3)
  with Cons run_statement_books [OF s] show ?case by (cases r1) (use balanced_trans in \<open>fastforce+\<close>)
qed (simp add: balanced_same)

lemma run_as_block_books:
  "run_as_block ops rx blk actors v = (r, actors', v') \<Longrightarrow>
   balanced (held_all held actors) (held_all held actors') v v'"
  by (auto simp: run_as_block_def Let_def balanced_same split: option.splits dest: run_statements_books)

lemma construct_actor_books:
  assumes "construct_actor ops decl dir v = (r, v')"
  shows "balanced {#} (case r of Inr i \<Rightarrow> held i | Inl _ \<Rightarrow> {#}) v v'"
proof -
  have "(\<exists>msg. r = Inl msg \<and> v' = v) \<or>
      (\<exists>n cargs r0. op_construct ops n cargs v = (r0, v') \<and> r = map_sum runtime_error_display id r0)"
    using assms unfolding construct_actor_def Let_def by (auto split: option.splits sum.splits prod.splits)
  then show ?thesis
  proof (elim disjE exE conjE)
    fix n cargs r0
    assume "op_construct ops n cargs v = (r0, v')" and r: "r = map_sum runtime_error_display id r0"
    from construct_books [OF this(1)] show ?thesis by (cases r0) (simp_all add: r)
  qed (simp add: balanced_same)
qed

lemma run_items_books:
  "run_items ops rx dir items actors v = (stmts, actors', v') \<Longrightarrow>
   balanced (held_all held actors) (held_all held actors') v v'"
proof (induction items arbitrary: actors v)
  case (Cons item items)
  show ?case
  proof (cases item)
    case (TActorDeclaration decl)
    obtain r v1 where c: "construct_actor ops decl dir v = (r, v1)" by (rule prod.exhaust)
    note books = balanced_frame [OF construct_actor_books [OF c], of "held_all held actors"]
    show ?thesis
    proof (cases r)
      case (Inl msg)
      with books c Cons.prems show ?thesis by (simp add: TActorDeclaration)
    next
      case (Inr i)
      let ?actors = "actors_push (ident_name (decl_name decl)) i actors"
      from Inr books have "balanced (held_all held actors) (held_all held ?actors) v v1"
        by (simp add: actors_push_def add.commute)
      moreover from Cons.prems c Inr have "run_items ops rx dir items ?actors v1 = (stmts, actors', v')"
        by (simp add: TActorDeclaration)
      ultimately show ?thesis using Cons.IH balanced_trans by blast
    qed
  next
    case (TAsBlock blk)
    obtain r actors1 v1 where b: "run_as_block ops rx blk actors v = (r, actors1, v1)" by (rule prod_cases3)
    from Cons.prems b have "r = Inr () \<and> run_items ops rx dir items actors1 v1 = (stmts, actors', v') \<or>
        actors' = actors1 \<and> v' = v1"
      by (cases r) (simp_all add: TAsBlock)
    with Cons.IH run_as_block_books [OF b] balanced_trans show ?thesis by blast
  qed
qed (simp add: balanced_same)

lemma teardown_seq_books: "balanced (held_all held entries) {#} v (snd (teardown_seq ops entries v))"
proof (induction entries arbitrary: v)
  case (Cons e entries)
  obtain n i where e: "e = (n, i)" by (cases e)
  obtain j v1 where t: "op_teardown ops i v = (j, v1)" by (cases "op_teardown ops i v")
  from balanced_frame [OF teardown_books [OF t], of "held_all held entries"]
  have "balanced (held_all held (e # entries)) (held_all held entries) v v1" by (simp add: e)
  with Cons.IH [of v1] t show ?case
    by (auto simp: e teardown_one_def split_beta Let_def intro: balanced_trans)
qed (simp add: balanced_same)

text \<open>A test file accounts for everything: it holds nothing before and nothing after.\<close>

lemma execute_test_books: "balanced {#} {#} v (snd (execute ops rx path source dir v))"
proof -
  obtain stmts actors v1 where run: "run_items ops rx dir (src_items source) [] v = (stmts, actors, v1)"
    by (rule prod_cases3)
  from balanced_trans [OF run_items_books [OF run]] teardown_seq_books [of "rev actors" v1] show ?thesis
    by (simp add: execute_def run teardown_all_eq split_beta Let_def)
qed

lemma run_clean_books:
  "run_clean ops rx fs passed failed v = (r, events, v') \<Longrightarrow> balanced {#} {#} v v'"
proof (induction fs arbitrary: passed failed v r events v')
  case (Cons f fs)
  show ?case
  proof (cases "cf_ast f")
    case (Some ast)
    obtain report v1 where t: "run_validated_test_file ops rx (cf_path f) ast v = (report, v1)"
      by (rule prod.exhaust)
    have "balanced {#} {#} v (snd (run_validated_test_file ops rx (cf_path f) ast v))"
      unfolding run_validated_test_file_def Let_def by (rule execute_test_books)
    with t have "balanced {#} {#} v v1" by simp
    moreover obtain r' e' v2 where
      c: "run_clean ops rx fs (if tr_passed report then passed + 1 else passed)
        (if tr_passed report then failed else failed + 1) v1 = (r', e', v2)"
      by (rule prod_cases3)
    from Cons.IH [OF c] have "balanced {#} {#} v1 v2" .
    moreover from Cons.prems Some t c have "v2 = v'" by (cases "tr_passed report") simp_all
    ultimately show ?thesis using balanced_trans by blast
  qed (use Cons.prems in \<open>simp add: balanced_same\<close>)
qed (simp add: balanced_same)

lemma run_test_books:
  "run_test fs fuel low ops rx paths v = Some (code, events, v') \<Longrightarrow> balanced {#} {#} v v'"
  by (auto simp: run_test_def Let_def balanced_same dest: run_clean_books
      split: if_splits prod.splits sum.splits)

end

section \<open>The ledger changes nothing else\<close>

text \<open>The table \<open>ops'\<close> behaves as \<open>ops\<close> does on the worlds that \<open>proj\<close> shows.\<close>

locale transparent =
  fixes ops' :: "('i, 'v) instance_ops" and ops :: "('i, 'w) instance_ops" and proj :: "'v \<Rightarrow> 'w"
  assumes construct_proj: "op_construct ops n cargs (proj v) = apsnd proj (op_construct ops' n cargs v)"
    and execute_proj: "op_execute ops i c args (proj v) = apsnd (apsnd proj) (op_execute ops' i c args v)"
    and teardown_proj: "op_teardown ops i (proj v) = apsnd proj (op_teardown ops' i v)"
    and same_views: "op_type_name ops = op_type_name ops'" "op_self_view ops = op_self_view ops'"
begin

lemma run_command_proj:
  "run_command ops ty blk idx cmd scope actors (proj v) =
   apsnd (apsnd proj) (run_command ops' ty blk idx cmd scope actors v)"
  by (auto simp: run_command_def execute_proj Let_def split_beta
      split: option.split sum.split prod.split run_outcome.split)

lemma run_statement_proj:
  "run_statement ops rx ty blk idx s scope actors (proj v) =
   apsnd (apsnd proj) (run_statement ops' rx ty blk idx s scope actors v)"
  by (simp add: run_statement_def bind_self_def same_views run_command_proj Let_def split: statement.split)

lemma run_statements_proj:
  "run_statements ops rx ty blk idx body scope actors (proj v) =
   apsnd (apsnd proj) (run_statements ops' rx ty blk idx body scope actors v)"
proof (induction body arbitrary: idx scope actors v)
  case (Cons s body)
  obtain r actors1 v1 where "run_statement ops' rx ty blk idx s scope actors v = (r, actors1, v1)"
    by (rule prod_cases3)
  with Cons.IH run_statement_proj [of rx ty blk idx s scope actors v] show ?case by (cases r) simp_all
qed simp

lemma run_as_block_proj:
  "run_as_block ops rx blk actors (proj v) = apsnd (apsnd proj) (run_as_block ops' rx blk actors v)"
  by (simp add: run_as_block_def same_views run_statements_proj Let_def split: option.split)

lemma construct_actor_proj:
  "construct_actor ops decl dir (proj v) = apsnd proj (construct_actor ops' decl dir v)"
  by (simp add: construct_actor_def construct_proj Let_def split_beta split: option.split sum.split)

lemma run_items_proj:
  "run_items ops rx dir items actors (proj v) = apsnd (apsnd proj) (run_items ops' rx dir items actors v)"
proof (induction items arbitrary: actors v)
  case (Cons item items)
  show ?case
  proof (cases item)
    case (TActorDeclaration decl)
    obtain r v1 where "construct_actor ops' decl dir v = (r, v1)" by (rule prod.exhaust)
    with Cons.IH construct_actor_proj [of decl dir v] show ?thesis
      by (cases r) (simp_all add: TActorDeclaration)
  next
    case (TAsBlock blk)
    obtain r actors1 v1 where "run_as_block ops' rx blk actors v = (r, actors1, v1)" by (rule prod_cases3)
    with Cons.IH run_as_block_proj [of rx blk actors v] show ?thesis by (cases r) (simp_all add: TAsBlock)
  qed
qed simp

lemma teardown_seq_proj: "teardown_seq ops entries (proj v) = apsnd proj (teardown_seq ops' entries v)"
  by (induction entries arbitrary: v) (simp_all add: teardown_one_def teardown_proj split_beta Let_def)

lemma execute_test_proj:
  "execute ops rx path source dir (proj v) = apsnd proj (execute ops' rx path source dir v)"
  by (simp add: execute_def run_items_proj teardown_all_eq teardown_seq_proj split_beta Let_def)

lemma run_clean_proj:
  "run_clean ops rx fs passed failed (proj v) = apsnd (apsnd proj) (run_clean ops' rx fs passed failed v)"
proof (induction fs arbitrary: passed failed v)
  case (Cons f fs)
  then show ?case
    by (simp add: run_validated_test_file_def execute_test_proj split_beta Let_def split: option.split)
qed simp

lemma run_test_proj:
  "run_test fs fuel low ops rx paths (proj v) =
   map_option (apsnd (apsnd proj)) (run_test fs fuel low ops' rx paths v)"
  by (cases "resolve_files fs fuel paths")
    (auto simp: run_test_def run_clean_proj Let_def split_beta split: sum.split)

end

section \<open>The built-in runtimes\<close>

fun builtin_held :: "('e, 'd, 'p, 'm) inst \<Rightarrow> ('e, 'd, 'p, 'm) resource multiset" where
  "builtin_held (IExec i) = exec_held i"
| "builtin_held (IContainer i) = container_held i"
| "builtin_held (IPg i) = pg_held i"
| "builtin_held (IMqtt i) = mqtt_held i"
| "builtin_held (IArgs i) = {#}"

lemma audited_sel [simp]:
  "sv_exec (audited sv) = audited_exec (sv_exec sv)" "sv_docker (audited sv) = audited_docker (sv_docker sv)"
  "sv_pg (audited sv) = audited_pg (sv_pg sv)" "sv_mqtt (audited sv) = audited_mqtt (sv_mqtt sv)"
  "sv_cli_args (audited sv) = sv_cli_args sv"
  by (simp_all add: audited_def)

lemma builtin_construct_balanced:
  assumes "builtin_construct (audited sv) n cargs v = (r, v')"
  shows "snd v' = snd v \<and> (case r of Inr i \<Rightarrow> builtin_held i = {#} | Inl _ \<Rightarrow> True)"
  using assms container_construct_balanced [of "sv_docker sv" cargs v]
  by (auto simp: builtin_construct_def exec_construct_audited exec_construct_def container_held_def exec_held_def
      pg_construct_def mqtt_construct_def pg_held_def mqtt_held_def Let_def map_sum_id_Inr
      split: if_splits prod.splits sum.splits option.splits val.splits)

interpretation ledger: bookkeeping "builtin_ops (audited sv)" builtin_held
  for sv :: "('e, 'd, 'p, 'm, 'w) services"
proof
  fix n cargs c args out r j and i i' :: "('e, 'd, 'p, 'm) inst"
    and v v' :: "'w \<times> ('e, 'd, 'p, 'm) resource ledger"
  show "op_construct (builtin_ops (audited sv)) n cargs v = (r, v') \<Longrightarrow>
      balanced {#} (case r of Inr i \<Rightarrow> builtin_held i | Inl _ \<Rightarrow> {#}) v v'"
    using builtin_construct_balanced [of sv n cargs v r v']
    by (auto simp: builtin_ops_def balanced_same split: sum.splits)
  show "op_execute (builtin_ops (audited sv)) i c args v = (out, i', v') \<Longrightarrow>
      balanced (builtin_held i) (builtin_held i') v v'"
    by (cases i) (auto simp: builtin_ops_def balanced_same Let_def dest!: answer_mapD
        intro: exec_execute_balanced container_execute_balanced pg_execute_balanced mqtt_execute_balanced
        split: prod.splits)
  show "op_teardown (builtin_ops (audited sv)) i v = (j, v') \<Longrightarrow> balanced (builtin_held i) {#} v v'"
    by (cases i) (auto simp: builtin_ops_def balanced_same Let_def
        intro: exec_teardown_balanced container_teardown_balanced pg_teardown_balanced mqtt_teardown_balanced
        split: prod.splits)
qed

interpretation ledger_free: transparent "builtin_ops (audited sv)" "builtin_ops sv" fst
  for sv :: "('e, 'd, 'p, 'm, 'w) services"
proof
  fix n cargs c args and i :: "('e, 'd, 'p, 'm) inst" and v :: "'w \<times> ('e, 'd, 'p, 'm) resource ledger"
  show "op_construct (builtin_ops sv) n cargs (fst v) = apsnd fst (op_construct (builtin_ops (audited sv)) n cargs v)"
    by (simp add: builtin_ops_def builtin_construct_def exec_construct_audited container_construct_audited
        split_beta Let_def)
  show "op_execute (builtin_ops sv) i c args (fst v) =
      apsnd (apsnd fst) (op_execute (builtin_ops (audited sv)) i c args v)"
    by (cases i) (simp_all add: builtin_ops_def exec_execute_audited container_execute_audited pg_execute_audited
        mqtt_execute_audited answer_map_def split_beta Let_def)
  show "op_teardown (builtin_ops sv) i (fst v) = apsnd fst (op_teardown (builtin_ops (audited sv)) i v)"
    by (cases i) (simp_all add: builtin_ops_def exec_teardown_audited container_teardown_audited pg_teardown_audited
        mqtt_teardown_audited split_beta Let_def)
qed (simp_all add: builtin_ops_def)

text \<open>The monitor of \<open>Ill_Simulation\<close> only watches, too.\<close>

interpretation monitor_free: transparent "monitor ops mode_of" ops fst
  for ops :: "('i, 'w) instance_ops" and mode_of :: "'i \<Rightarrow> mode"
  by unfold_locales (simp_all add: monitor_def split_beta Let_def)

section \<open>Counting constructions and teardowns\<close>

text \<open>The same operations beside two counters: the instances constructed, and the instances torn down.\<close>

definition counted :: "('i, 'w) instance_ops \<Rightarrow> ('i, 'w \<times> nat \<times> nat) instance_ops" where
  "counted ops =
     \<lparr>op_construct = (\<lambda>n cargs (w, built, torn).
        let (r, w') = op_construct ops n cargs w
        in (r, (w', (case r of Inr _ \<Rightarrow> built + 1 | Inl _ \<Rightarrow> built), torn))),
      op_type_name = op_type_name ops,
      op_execute = (\<lambda>i c args (w, n). let (out, i', w') = op_execute ops i c args w in (out, i', (w', n))),
      op_teardown = (\<lambda>i (w, built, torn). let (t, w') = op_teardown ops i w in (t, (w', built, torn + 1))),
      op_self_view = op_self_view ops\<rparr>"

interpretation counted_free: transparent "counted ops" ops fst
  for ops :: "('i, 'w) instance_ops"
  by unfold_locales (simp_all add: counted_def split_beta Let_def)

lemma run_command_count:
  "run_command (counted ops) ty blk idx cmd scope actors v = (r, actors', v') \<Longrightarrow> snd v' = snd v"
  by (auto simp: run_command_def counted_def Let_def
      split: option.splits sum.splits prod.splits run_outcome.splits if_splits)

lemma run_statements_count:
  "run_statements (counted ops) rx ty blk idx body scope actors v = (r, actors', v') \<Longrightarrow> snd v' = snd v"
proof (induction body arbitrary: idx scope actors v)
  case (Cons s body)
  obtain r1 actors1 v1 where s: "run_statement (counted ops) rx ty blk idx s scope actors v = (r1, actors1, v1)"
    by (rule prod_cases3)
  then have "snd v1 = snd v"
    by (auto simp: run_statement_def Let_def split: statement.splits dest: run_command_count)
  with Cons s show ?case by (cases r1) auto
qed simp

lemma construct_actor_count:
  assumes "construct_actor (counted ops) decl dir v = (r, v')"
  shows "snd v' = (case r of Inr _ \<Rightarrow> fst (snd v) + 1 | Inl _ \<Rightarrow> fst (snd v), snd (snd v))"
  using assms
  by (auto simp: construct_actor_def counted_def Let_def map_sum_def split: option.splits sum.splits prod.splits)

lemma run_items_count:
  "run_items (counted ops) rx dir items actors v = (stmts, actors', v') \<Longrightarrow>
   fst (snd v') + length actors = fst (snd v) + length actors' \<and> snd (snd v') = snd (snd v)"
proof (induction items arbitrary: actors v)
  case (Cons item items)
  show ?case
  proof (cases item)
    case (TActorDeclaration decl)
    obtain r v1 where c: "construct_actor (counted ops) decl dir v = (r, v1)" by (rule prod.exhaust)
    with Cons.prems construct_actor_count [OF c] Cons.IH show ?thesis
      by (cases r) (fastforce simp: TActorDeclaration actors_push_def)+
  next
    case (TAsBlock blk)
    obtain r actors1 v1 where b: "run_as_block (counted ops) rx blk actors v = (r, actors1, v1)" by (rule prod_cases3)
    then have "snd v1 = snd v"
      by (auto simp: run_as_block_def Let_def split: option.splits dest: run_statements_count)
    moreover have "length actors1 = length actors" using run_as_block_names [OF b] by (metis length_map)
    ultimately show ?thesis using Cons.prems Cons.IH b by (cases r) (fastforce simp: TAsBlock)+
  qed
qed simp

lemma teardown_all_count:
  "snd (snd (teardown_all (counted ops) actors v)) = (fst (snd v), snd (snd v) + length actors)"
proof -
  have "snd (snd (teardown_seq (counted ops) entries v)) = (fst (snd v), snd (snd v) + length entries)" for entries v
  proof (induction entries arbitrary: v)
    case (Cons e entries)
    then show ?case by (simp add: teardown_one_def counted_def split_beta Let_def)
  qed simp
  then show ?thesis by (simp add: teardown_all_eq)
qed

text \<open>
  Every instance that was constructed, however the file ended, is torn down once, and its name is that of
  one of the first declarations.
\<close>

lemma execute_counts:
  assumes "execute (counted ops) rx path source dir (w, 0, 0) = (report, w', built, torn)"
  shows "torn = built \<and> map tdr_actor (tr_teardown report) = take built (decl_names (src_items source)) \<and>
    built \<le> length (decl_names (src_items source)) \<and>
    (if tr_passed report then built = length (decl_names (src_items source)) \<and> tr_statements report = []
     else length (tr_statements report) = 1)"
proof -
  obtain stmts actors v1 where run: "run_items (counted ops) rx dir (src_items source) [] (w, 0, 0) = (stmts, actors, v1)"
    by (rule prod_cases3)
  obtain t v2 where td: "teardown_all (counted ops) actors v1 = (t, v2)" by (rule prod.exhaust)
  from assms have report: "tr_passed report = (stmts = [])" "tr_statements report = stmts" "tr_teardown report = t"
    and v2: "v2 = (w', built, torn)" by (auto simp: execute_def run td)
  from run_items_count [OF run] teardown_all_count [of ops actors v1] td v2
  have counts: "built = length actors" "torn = length actors" by auto
  from run_items_names [OF run] obtain ns where ns: "map fst actors = ns" "prefix ns (decl_names (src_items source))"
    "stmts = [] \<longrightarrow> ns = decl_names (src_items source)" "length stmts \<le> 1" by auto
  from ns(1) counts have len: "length ns = built" by auto
  have names: "map tdr_actor t = ns" using teardown_all_names [of "counted ops" actors v1] td ns(1) by simp
  from ns(2) len have "ns = take built (decl_names (src_items source))" "built \<le> length (decl_names (src_items source))"
    by (auto simp: prefix_def)
  with report names counts ns(3,4) len show ?thesis by (cases stmts) auto
qed

end
