(* ===== verification/Ill_Report.thy ===== *)
theory Ill_Report
  imports Ill_Runtime Ill_Diagnostic
begin

text \<open>
  What the user reads of a failure: the display of values (\<^verbatim>\<open>value.rs\<close>), the failure report
  (\<^verbatim>\<open>report_format.rs\<close>) and the renderer with its fallback (\<^verbatim>\<open>render.rs\<close>). The writer is a string, as in
  \<open>format_failure\<close>, whose writes do not fail. codespan-reporting is a
  parameter: what it writes for one diagnostic and the error it stops with, if any. So are the two
  formatters of the standard library that need its Unicode and floating-point tables.
\<close>

section \<open>Display of values\<close>

record formatters =
  fmt_str_debug :: "string \<Rightarrow> string"
  fmt_f64 :: "f64 \<Rightarrow> string"

fun value_display :: "formatters \<Rightarrow> val \<Rightarrow> string" where
  "value_display fm (VString s) = fmt_str_debug fm s"
| "value_display fm (VNumber n) = show_int n"
| "value_display fm (VFloat x) = fmt_f64 fm x"
| "value_display fm (VBool b) = show_bool b"
| "value_display fm (VAtom a) = '':'' @ a"
| "value_display fm (VBytes b) = ''<'' @ show_nat (length b) @ '' bytes>''"
| "value_display fm (VArray items) = ''['' @ join '', '' (map (value_display fm) items) @ '']''"
| "value_display fm (VDict entries) =
     ''{'' @ join '', '' (map (\<lambda>(k, v). k @ '': '' @ value_display fm v) entries) @ ''}''"
| "value_display fm VNull = ''null''"

section \<open>Rendering\<close>

datatype csr_severity = CsrError | CsrWarning | CsrNote | CsrHelp

record csr_diagnostic =
  csr_severity :: csr_severity
  csr_message :: string
  csr_range :: "nat \<times> nat"
  csr_notes :: "string list"

definition to_csr :: "diagnostic \<Rightarrow> csr_diagnostic" where
  "to_csr d =
     \<lparr>csr_severity =
        (case diag_severity d of
           SevError \<Rightarrow> CsrError | SevWarning \<Rightarrow> CsrWarning | SevInfo \<Rightarrow> CsrNote | SevHint \<Rightarrow> CsrHelp),
      csr_message = diag_message d,
      csr_range =
        (if span_start (diag_span d) = span_end (diag_span d)
         then (span_start (diag_span d), span_end (diag_span d) + 1)
         else (span_start (diag_span d), span_end (diag_span d))),
      csr_notes = diag_notes d\<rparr>"

text \<open>\<open>emit_to_write_style\<close>: the text it writes and the error it ends with.\<close>

type_synonym emitter = "path_buf \<Rightarrow> string \<Rightarrow> csr_diagnostic \<Rightarrow> string \<times> string option"

fun render :: "emitter \<Rightarrow> path_buf \<Rightarrow> string \<Rightarrow> diagnostic list \<Rightarrow> string \<times> string option" where
  "render emit path source [] = ([], None)"
| "render emit path source (d # ds) =
     (case emit path source (to_csr d) of
        (out, Some e) \<Rightarrow> (out, Some e)
      | (out, None) \<Rightarrow> (let (rest, err) = render emit path source ds in (out @ rest, err)))"

definition newline :: string where
  "newline = [CHR 0x0A]"

definition plain_diagnostic :: "diagnostic \<Rightarrow> string" where
  "plain_diagnostic d =
     ''  '' @ diagnostic_display d @ newline
       @ concat (map (\<lambda>note. ''    '' @ note @ newline) (diag_notes d))"

definition render_with_fallback :: "emitter \<Rightarrow> path_buf \<Rightarrow> string \<Rightarrow> diagnostic list \<Rightarrow> string" where
  "render_with_fallback emit path source diags =
     (case render emit path source diags of
        (out, None) \<Rightarrow> out
      | (out, Some e) \<Rightarrow>
          out @ ''  failed to render diagnostics: '' @ e @ newline
            @ concat (map plain_diagnostic diags))"

section \<open>The failure report\<close>

definition synth_diag :: "span \<Rightarrow> string \<Rightarrow> string list \<Rightarrow> diagnostic" where
  "synth_diag sp message notes =
     fold (\<lambda>n d. with_note d n) notes (diag_error sp RuntimeFailure message)"

definition expect_note :: "string option \<Rightarrow> string list" where
  "expect_note expect = (case expect of Some e \<Rightarrow> [''@expect '' @ e] | None \<Rightarrow> [])"

fun statement_diags :: "formatters \<Rightarrow> statement_report \<Rightarrow> diagnostic list" where
  "statement_diags fm (ParseFailure ds) = ds"
| "statement_diags fm (ValidationFailure ds) = ds"
| "statement_diags fm (ConstructFailure actor message sp) =
     [synth_diag sp (''construction failed for `'' @ actor @ ''`: '' @ message) []]"
| "statement_diags fm (CommandFailure actor cmd sp error_fields expect) =
     [synth_diag sp (actor @ '': `'' @ cmd @ ''` failed'')
        (map (\<lambda>(k, v). ''error.'' @ k @ '' = '' @ value_display fm v) error_fields @ expect_note expect)]"
| "statement_diags fm (CommandNotImplemented actor cmd sp) =
     [synth_diag sp (actor @ '': `'' @ cmd @ ''` has no runtime implementation'') []]"
| "statement_diags fm (AssertFailure actor sp left right op expect) =
     [synth_diag sp (actor @ '': assertion failed'')
        ((case (op, right) of
            (Some o', Some r) \<Rightarrow>
              [''left:  '' @ value_display fm left, ''op:    '' @ comparison_op_display o',
               ''right: '' @ value_display fm r]
          | _ \<Rightarrow> [''value: '' @ value_display fm left @ '' (not truthy)'']) @ expect_note expect)]"
| "statement_diags fm (EvalError actor sp message) = [synth_diag sp (actor @ '': '' @ message) []]"

definition teardown_line :: "teardown_report \<Rightarrow> string" where
  "teardown_line t =
     (if td_ok (tdr_outcome t) then []
      else ''  teardown '' @ tdr_actor t @ '': ''
             @ (case td_message (tdr_outcome t) of Some m \<Rightarrow> m | None \<Rightarrow> ''failed'') @ newline)"

definition write_failure :: "formatters \<Rightarrow> emitter \<Rightarrow> test_report \<Rightarrow> string \<Rightarrow> string" where
  "write_failure fm emit report src =
     (let diags = concat (map (statement_diags fm) (tr_statements report))
      in ''FAIL '' @ tr_path report @ newline
         @ (if diags = [] then [] else render_with_fallback emit (tr_path report) src diags)
         @ concat (map teardown_line (tr_teardown report)))"

section \<open>Nothing is dropped\<close>

lemma to_csr_range: "span_start (diag_span d) \<le> span_end (diag_span d) \<Longrightarrow> fst (csr_range (to_csr d)) < snd (csr_range (to_csr d))"
  by (auto simp: to_csr_def)

lemma render_ok:
  "render emit path src ds = (out, None) \<Longrightarrow>
   list_all (\<lambda>d. snd (emit path src (to_csr d)) = None) ds \<and>
   out = concat (map (\<lambda>d. fst (emit path src (to_csr d))) ds)"
  by (induction ds arbitrary: out) (auto split: prod.splits option.splits)

lemma sublist_concat: "x \<in> set xs \<Longrightarrow> sublist (f x) (concat (map f xs))"
  by (metis concat_map_singleton in_set_conv_decomp map_append concat_append list.simps(9) concat.simps(2) sublist_appendI)

lemma sublist_append_rightI: "sublist x z \<Longrightarrow> sublist x (y @ z)"
  by (metis append_assoc sublist_def)

text \<open>Either every diagnostic was rendered, or every diagnostic is in the plain dump.\<close>

lemma render_with_fallback_keeps:
  assumes "d \<in> set ds"
  shows "snd (emit path src (to_csr d)) = None \<and>
      sublist (fst (emit path src (to_csr d))) (render_with_fallback emit path src ds) \<or>
    sublist (plain_diagnostic d) (render_with_fallback emit path src ds)"
proof (cases "render emit path src ds")
  case (Pair out err)
  show ?thesis
  proof (cases err)
    case None
    with Pair render_ok [of emit path src ds out] assms show ?thesis
      using sublist_concat [OF assms, of "\<lambda>d. fst (emit path src (to_csr d))"]
      by (auto simp: render_with_fallback_def list_all_iff)
  next
    case (Some e)
    with Pair have "render_with_fallback emit path src ds =
        (out @ ''  failed to render diagnostics: '' @ e @ newline) @ concat (map plain_diagnostic ds)"
      by (simp add: render_with_fallback_def)
    with sublist_concat [OF assms, of plain_diagnostic] show ?thesis
      using sublist_append_rightI by metis
  qed
qed

lemma synth_diag_eq: "synth_diag sp m notes = (diag_error sp RuntimeFailure m)\<lparr>diag_notes := notes\<rparr>"
  by (simp add: synth_diag_def fold_with_note)

text \<open>One synthetic diagnostic, at the statement's span, for every failure that is not a list of diagnostics.\<close>

lemma statement_diags_single:
  "(\<And>ds. s \<noteq> ParseFailure ds) \<Longrightarrow> (\<And>ds. s \<noteq> ValidationFailure ds) \<Longrightarrow>
   \<exists>d. statement_diags fm s = [d] \<and> diag_severity d = SevError \<and> diag_code d = RuntimeFailure"
  by (cases s) (auto simp: synth_diag_eq)

end
