(* ===== verification/Ill_Validate_Inv.thy ===== *)
theory Ill_Validate_Inv
  imports Ill_Accept
begin

text \<open>
  Invariants of the validator: which diagnostics each pass can report, that reported diagnostics are
  never dropped, that the symbol table only holds registered actor types in modes of their own, and
  when a block's actor is reported as unknown.
\<close>

section \<open>Which diagnostics a pass reports\<close>

definition decl_codes :: "diagnostic_code set" where
  "decl_codes = {DuplicateActor, UnknownActorType, UnknownKeywordArg, MissingRequiredArg, UnknownSquiggle}"

definition body_codes :: "diagnostic_code set" where
  "body_codes = {UnknownCommand, CommandNotValidInMode, MissingRequiredArg, UnknownKeywordArg,
     UnknownSquiggle, ConflictingOutcomeAsserts}"

lemma register_actor_grows: "grows decl_codes v (register_actor decl v)"
proof (cases "registry_get (v_registry v) (ident_name (decl_actor_type decl))")
  case None
  then show ?thesis
    by (auto simp: register_actor_def Let_def decl_codes_def intro!: push_diag_grows)
next
  case (Some ty)
  have "grows decl_codes v (fold (\<lambda>var v. case var_default var of
            Some d \<Rightarrow> check_squiggles_in_expr d v | None \<Rightarrow> v) (decl_vars decl)
      (fold (\<lambda>kw. check_squiggles_in_kwvalue (kw_value kw)) (decl_keyword_args decl)
        (check_keyword_args_against (decl_keyword_args decl) (at_constructor_keyword ty)
          (decl_span decl) None v)))"
    by (rule grows_chain [OF grows_chain [OF kwargs.grows sq_kwarg.fold_grows
          order.refl [THEN le_supI1] order.refl [THEN le_supI2]] var_default.fold_grows])
      (simp_all add: decl_codes_def)
  with Some show ?thesis
    by (auto simp: register_actor_def Let_def fold_pair intro!: push_diag_grows)
       (simp add: decl_codes_def)
qed

lemma update_healthy_grows [simp]: "grows C v (update_healthy n f w) \<longleftrightarrow> grows C v w"
  by (simp add: grows_def)

lemma apply_pending_grows [simp]: "grows C v (apply_pending a ctx w) \<longleftrightarrow> grows C v w"
  by (simp add: apply_pending_def split: option.splits)

lemma check_command_grows: "grows body_codes v (snd (check_command a cmd v))"
proof (cases "healthy v a")
  case None
  then show ?thesis by (simp add: check_command_def)
next
  case (Some h)
  have missing: "grows body_codes v (if b then push_diag (diag_error sp MissingRequiredArg msg) v else v)"
    for b sp msg by (simp add: push_diag_grows body_codes_def)
  have args: "grows body_codes v
      (fold (\<lambda>kw. check_squiggles_in_kwvalue (kw_value kw)) kws
        (check_keyword_args_against kws kds sp ctx (fold check_squiggles_in_expr es w)))"
    if "grows body_codes v w" for kws kds sp ctx es w
    by (rule grows_trans [OF that], rule grows_chain [OF grows_chain [OF sq_expr.fold_grows
          kwargs.grows order.refl [THEN le_supI1] order.refl [THEN le_supI2]] sq_kwarg.fold_grows])
      (simp_all add: body_codes_def)
  show ?thesis
    using Some args [OF missing]
    by (auto simp: check_command_def Let_def body_codes_def intro!: push_diag_grows
        split: option.splits)
qed

lemma advance_on_grows: "advance_on p sp (o1, v) = (o2, v') \<Longrightarrow> grows body_codes v v'"
  by (cases o1; cases "the p")
    (auto simp: advance_on_def body_codes_def intro!: push_diag_grows split: option.splits)

lemma check_statement_grows: "grows body_codes v (snd (check_statement a s (ctx, v)))"
proof -
  have sq: "grows body_codes w (check_squiggles_in_expr e w)" for e w
    by (rule grows_mono [OF sq_expr.grows]) (simp add: body_codes_def)
  have adv: "grows body_codes v (snd (advance_on p sp (o1, v)))" for p sp o1
    using advance_on_grows by (metis surjective_pairing)
  note chain = grows_trans [OF adv sq]
  show ?thesis
  proof (cases s)
    case (SCommand c)
    have "grows body_codes v (snd (check_command a c (apply_pending a ctx v)))"
      by (rule grows_trans [OF _ check_command_grows]) simp
    with SCommand show ?thesis by (simp add: Let_def split_beta)
  next
    case (SAssert x)
    show ?thesis
      unfolding SAssert check_statement.simps Let_def assert_advance split_beta snd_conv
      using chain grows_trans [OF chain sq] by (cases "as_right x") simp_all
  next
    case (SLet l)
    then show ?thesis
      using chain sq by (simp add: Let_def let_advance split_beta split: let_value.splits)
  next
    case (SAssignment x)
    then show ?thesis using grows_trans [OF sq sq] by simp
  qed
qed

lemma check_body_grows: "grows body_codes v (snd (fold (check_statement a) body (ctx, v)))"
proof (induction body arbitrary: ctx v)
  case (Cons s body)
  obtain ctx1 v1 where s: "check_statement a s (ctx, v) = (ctx1, v1)"
    by (cases "check_statement a s (ctx, v)")
  have "grows body_codes v v1" using check_statement_grows [of v a s ctx] s by simp
  from grows_trans [OF this Cons.IH] s show ?case by simp
qed simp

lemma check_as_block_grows: "grows (insert UnknownActor body_codes) v (check_as_block blk v)"
  using grows_mono [OF check_body_grows, of "insert UnknownActor body_codes"]
  by (auto simp: check_as_block_def Let_def split_beta intro!: push_diag_grows split: option.split)

interpretation register_diag: diag_step register_item decl_codes
proof
  show "grows decl_codes v (register_item x v)" for x v
    by (cases x) (simp_all add: register_actor_grows)
qed

interpretation check_diag: diag_step check_item "insert UnknownActor body_codes"
proof
  show "grows (insert UnknownActor body_codes) v (check_item x v)" for x v
    by (cases x) (simp_all add: check_as_block_grows)
qed

lemma validator_run_grows:
  "grows (decl_codes \<union> insert UnknownActor body_codes) v (validator_run source v)"
  unfolding validator_run_def
  by (rule grows_chain [OF register_diag.fold_grows check_diag.fold_grows]) auto

section \<open>The symbol table\<close>

text \<open>Every healthy entry has a registered type and is in one of the modes of that type.\<close>

definition wf_actors :: "validator \<Rightarrow> bool" where
  "wf_actors v \<longleftrightarrow>
     (\<forall>n ty m. abs_env v n = Some (Some (ty, m)) \<longrightarrow>
        registry_get (v_registry v) (at_name ty) = Some ty \<and> m \<in> set (at_modes ty))"

lemma wf_actorsD:
  "wf_actors v \<Longrightarrow> healthy v n = Some h \<Longrightarrow>
   registry_get (v_registry v) (at_name (ha_type_def h)) = Some (ha_type_def h) \<and>
   ha_mode h \<in> set (at_modes (ha_type_def h))"
  using healthy_abs [of v n h] by (simp add: wf_actors_def)

lemma wf_actors_upd:
  assumes "wf_actors v" and "abs_env v' = (abs_env v)(n \<mapsto> e)" and "v_registry v' = v_registry v"
    and "\<And>ty m. e = Some (ty, m) \<Longrightarrow> registry_get (v_registry v) (at_name ty) = Some ty \<and> m \<in> set (at_modes ty)"
  shows "wf_actors v'"
  using assms by (auto simp: wf_actors_def)

lemma wf_actors_cong:
  "abs_env v' = abs_env v \<Longrightarrow> v_registry v' = v_registry v \<Longrightarrow> wf_actors v' \<longleftrightarrow> wf_actors v"
  by (simp add: wf_actors_def)

lemma register_actor_abs:
  obtains "abs_env (register_actor decl v) = abs_env v"
      "v_actors v (ident_name (decl_name decl)) \<noteq> None"
  | "abs_env (register_actor decl v) = (abs_env v)(ident_name (decl_name decl) \<mapsto> None)"
  | ty where "registry_get (v_registry v) (ident_name (decl_actor_type decl)) = Some ty"
      "abs_env (register_actor decl v) =
         (abs_env v)(ident_name (decl_name decl) \<mapsto> Some (ty, at_initial_mode ty))"
proof -
  let ?n = "ident_name (decl_name decl)"
  have "abs_env (register_actor decl v) = abs_env v \<and> v_actors v ?n \<noteq> None \<or>
      abs_env (register_actor decl v) = (abs_env v)(?n \<mapsto> None) \<or>
      (\<exists>ty. registry_get (v_registry v) (ident_name (decl_actor_type decl)) = Some ty \<and>
         abs_env (register_actor decl v) = (abs_env v)(?n \<mapsto> Some (ty, at_initial_mode ty)))"
    by (cases "v_actors v ?n"; cases "registry_get (v_registry v) (ident_name (decl_actor_type decl))")
      (auto simp: register_actor_def fold_pair checker_laws var_default.laws abs_env_def Let_def fun_eq_iff)
  with that show ?thesis by blast
qed

lemma register_actor_wf:
  assumes "wf_registry (v_registry v)" and "wf_actors v"
  shows "wf_actors (register_actor decl v)"
proof (cases rule: register_actor_abs [of decl v])
  case 1
  show ?thesis using wf_actors_cong [OF 1(1) register_actor_registry] assms(2) by simp
next
  case 2
  show ?thesis by (rule wf_actors_upd [OF assms(2) 2]) (simp_all add: register_actor_registry)
next
  case (3 ty)
  with wf_registry_get [OF assms(1)] have "at_name ty = ident_name (decl_actor_type decl)"
    "at_initial_mode ty \<in> set (at_modes ty)" by (auto simp: wf_actor_type_def)
  with 3(1) show ?thesis
    by (intro wf_actors_upd [OF assms(2) 3(2)]) (simp_all add: register_actor_registry)
qed

text \<open>The loop invariant of \<open>check_as_block\<close>.\<close>

fun block_inv ::
  "registry \<Rightarrow> string set \<Rightarrow> string \<Rightarrow> actor_type \<Rightarrow> block_ctx \<times> validator \<Rightarrow> bool" where
  "block_inv reg names a ty (ctx, v) \<longleftrightarrow>
     v_registry v = reg \<and> wf_actors v \<and> dom (abs_env v) = names \<and>
     (\<exists>m. abs_env v a = Some (Some (ty, m))) \<and> set_option (ctx_pending ctx) \<subseteq> set (at_modes ty)"

lemma apply_pending_inv:
  assumes "block_inv reg names a ty (ctx, v)"
  shows "block_inv reg names a ty (ctx', apply_pending a ctx v) \<longleftrightarrow>
    set_option (ctx_pending ctx') \<subseteq> set (at_modes ty)"
proof -
  from assms obtain h where h: "healthy v a = Some h" "ha_type_def h = ty"
    using abs_healthy by fastforce
  note pend = apply_pending_laws [OF h(1), of ctx, unfolded h(2)]
  from assms wf_actorsD [OF _ h(1)] have
    "next_mode (ha_mode h) (ctx_pending ctx) (seen (ctx_outcome ctx)) \<in> set (at_modes ty)"
    and reg: "registry_get (v_registry v) (at_name ty) = Some ty"
    by (auto simp: next_mode_def h(2) split: option.split)
  then have "wf_actors (apply_pending a ctx v)"
    using assms pend by (auto intro!: wf_actors_upd [OF _ pend(3)])
  moreover have "dom (abs_env (apply_pending a ctx v)) = names"
    using assms by (auto simp: pend(3) dom_def)
  ultimately show ?thesis using assms pend by simp
qed

lemma check_command_transition:
  assumes "check_command a cmd v = ((oks, errs, tr), v')" and "healthy v a = Some h"
    and "wf_actor_type (ha_type_def h)"
  shows "set_option tr \<subseteq> set (at_modes (ha_type_def h))"
proof -
  from assms(1,2) have "tr = None \<or> (\<exists>name pos c k.
      resolve_command (ha_type_def h) name pos = Some (c, k) \<and> tr = cd_transitions_to c)"
    by (auto simp: check_command_def Let_def split: option.splits prod.splits if_splits)
  with wf_resolve_command [OF assms(3)] show ?thesis by (fastforce simp: wf_command_def)
qed

lemma check_statement_inv:
  assumes "wf_registry reg" and "block_inv reg names a ty cv"
  shows "block_inv reg names a ty (check_statement a s cv)"
proof -
  obtain ctx v where cv: "cv = (ctx, v)" by (cases cv)
  obtain ctx1 v1 where s: "check_statement a s (ctx, v) = (ctx1, v1)"
    by (cases "check_statement a s (ctx, v)")
  show ?thesis
  proof (cases "is_command s")
    case False
    from check_statement_laws [OF s False] assms(2) show ?thesis
      by (simp add: cv s wf_actors_cong [of v1 v])
  next
    case True
    then obtain cmd where cmd: "s = SCommand cmd" by (cases s) simp_all
    let ?va = "apply_pending a ctx v"
    obtain oks errs tr where chk: "check_command a cmd ?va = ((oks, errs, tr), v1)"
      and ctx1: "ctx_pending ctx1 = tr"
      using s cmd by (auto simp: Let_def split: prod.splits)
    have va: "block_inv reg names a ty (ctx, ?va)"
      using apply_pending_inv [of reg names a ty ctx v ctx] assms(2) cv by simp
    then obtain h where h: "healthy ?va a = Some h" "ha_type_def h = ty"
      using abs_healthy by fastforce
    note laws = check_command_laws [OF chk h(1)]
    from va wf_actorsD [OF _ h(1)] have "wf_actor_type ty"
      using wf_registry_get [OF assms(1)] by (auto simp: h(2))
    with check_command_transition [OF chk h(1)] have "set_option tr \<subseteq> set (at_modes ty)" by (simp add: h(2))
    with va laws(2) show ?thesis
      by (simp add: cv s ctx1 abs_env_cong [OF laws(1)] wf_actors_cong [OF abs_env_cong [OF laws(1)] laws(2)])
  qed
qed

lemma dom_abs_env: "dom (abs_env v) = dom (v_actors v)"
  by (auto simp: abs_env_def dom_def)

lemma check_as_block_inv:
  assumes "wf_registry (v_registry v)" and "wf_actors v"
  shows "wf_actors (check_as_block blk v) \<and> dom (v_actors (check_as_block blk v)) = dom (v_actors v)"
proof (cases "healthy v (ident_name (blk_actor blk))")
  case None
  then have "v_actors (check_as_block blk v) = v_actors v" "v_registry (check_as_block blk v) = v_registry v"
    by (auto simp: check_as_block_def healthy_def Let_def split: option.split)
  with assms(2) show ?thesis
    using wf_actors_cong [OF abs_env_cong [of "check_as_block blk v" v]] by simp
next
  case (Some h)
  let ?a = "ident_name (blk_actor blk)"
  obtain ctx v' where blk: "fold (check_statement ?a) (blk_body blk) (block_ctx_init, v) = (ctx, v')"
    "check_as_block blk v = apply_pending ?a ctx v'"
    using check_as_block_cases [OF Some] .
  let ?I = "block_inv (v_registry v) (dom (abs_env v)) ?a (ha_type_def h)"
  have init: "?I (block_ctx_init, v)"
    using assms(2) healthy_abs [OF Some] by (simp add: block_ctx_init_def)
  have "?I (fold (check_statement ?a) (blk_body blk) (block_ctx_init, v))"
    by (rule fold_invariant [where I = ?I, OF init]) (rule check_statement_inv [OF assms(1)])
  then have "?I (ctx, v')" by (simp only: blk(1))
  with apply_pending_inv [OF this, of ctx] show ?thesis by (simp add: blk(2) dom_abs_env)
qed

lemma check_item_inv:
  assumes "wf_registry (v_registry v)" and "wf_actors v"
  shows "wf_actors (check_item x v) \<and> dom (v_actors (check_item x v)) = dom (v_actors v)"
  using assms check_as_block_inv by (cases x) auto

lemma register_actor_dom:
  "dom (v_actors (register_actor decl v)) = insert (ident_name (decl_name decl)) (dom (v_actors v))"
  unfolding dom_abs_env [symmetric]
  by (cases rule: register_actor_abs [of decl v]) (simp_all add: dom_abs_env insert_absorb domIff)

text \<open>The names a list of top-level items declares.\<close>

definition declared_names :: "top_level list \<Rightarrow> string set" where
  "declared_names items = {ident_name (decl_name decl) | decl. TActorDeclaration decl \<in> set items}"

lemma register_fold_dom:
  "dom (v_actors (fold register_item items v)) = declared_names items \<union> dom (v_actors v)"
proof (induction items arbitrary: v)
  case (Cons x items)
  then show ?case by (cases x) (auto simp: declared_names_def register_actor_dom)
qed (simp add: declared_names_def)

lemma register_fold_wf:
  assumes "wf_registry (v_registry v)" and "wf_actors v"
  shows "wf_actors (fold register_item items v)"
proof -
  have "wf_registry (v_registry (fold register_item items v)) \<and> wf_actors (fold register_item items v)"
  proof (rule fold_invariant)
    fix x w assume "wf_registry (v_registry w) \<and> wf_actors w"
    then show "wf_registry (v_registry (register_item x w)) \<and> wf_actors (register_item x w)"
      by (cases x) (simp_all add: register_actor_wf register_actor_registry)
  qed (use assms in simp)
  then show ?thesis by simp
qed

lemma check_fold_inv:
  assumes "wf_registry (v_registry v)" and "wf_actors v"
  shows "wf_actors (fold check_item items v) \<and> dom (v_actors (fold check_item items v)) = dom (v_actors v)
    \<and> v_registry (fold check_item items v) = v_registry v"
proof (rule fold_invariant)
  fix x w assume "wf_actors w \<and> dom (v_actors w) = dom (v_actors v) \<and> v_registry w = v_registry v"
  with assms(1) check_item_inv [of w x] check.registry [of x w]
  show "wf_actors (check_item x w) \<and> dom (v_actors (check_item x w)) = dom (v_actors v) \<and>
      v_registry (check_item x w) = v_registry v" by auto
qed (use assms in simp)

lemma wf_registry_global: "wf_registry registry_global"
  by (simp add: wf_registry_def registry_global_eq wf_builtin)

lemma register_pass_wf:
  "wf_registry (v_registry (fold register_item items validator_init))"
  "wf_actors (fold register_item items validator_init)"
proof -
  show "wf_registry (v_registry (fold register_item items validator_init))"
    by (simp add: register.fold_registry validator_init_def wf_registry_global)
  have "wf_registry (v_registry validator_init)" "wf_actors validator_init"
    by (simp_all add: validator_init_def wf_registry_global wf_actors_def abs_env_def)
  then show "wf_actors (fold register_item items validator_init)" by (rule register_fold_wf)
qed

lemma validator_run_wf: "wf_actors (validator_run source validator_init)"
  by (simp add: validator_run_def check_fold_inv register_pass_wf)

section \<open>Unknown actors\<close>

lemma unknown_actor_block:
  "(\<exists>d \<in> set (v_diagnostics (check_as_block blk v)). diag_code d = UnknownActor) \<longleftrightarrow>
   (\<exists>d \<in> set (v_diagnostics v). diag_code d = UnknownActor) \<or>
   ident_name (blk_actor blk) \<notin> dom (v_actors v)"
proof (cases "v_actors v (ident_name (blk_actor blk))")
  case None
  then show ?thesis by (auto simp: check_as_block_def)
next
  case (Some st)
  then have "check_as_block blk v = v \<or> (\<exists>ctx v'. check_as_block blk v = apply_pending (ident_name (blk_actor blk)) ctx v'
      \<and> grows body_codes v v')"
    using check_body_grows by (auto simp: check_as_block_def Let_def split_beta) metis
  then have "grows body_codes v (check_as_block blk v)" by auto
  then show ?thesis using Some by (fastforce simp: grows_def list_all_iff body_codes_def domIff)
qed

lemma unknown_actor_fold:
  assumes "wf_registry (v_registry v)" and "wf_actors v"
  shows "(\<exists>d \<in> set (v_diagnostics (fold check_item items v)). diag_code d = UnknownActor) \<longleftrightarrow>
    (\<exists>d \<in> set (v_diagnostics v). diag_code d = UnknownActor) \<or>
    (\<exists>blk. TAsBlock blk \<in> set items \<and> ident_name (blk_actor blk) \<notin> dom (v_actors v))"
  using assms
proof (induction items arbitrary: v)
  case (Cons x items)
  note inv = check_item_inv [OF Cons.prems, of x]
  have IH: "(\<exists>d \<in> set (v_diagnostics (fold check_item (x # items) v)). diag_code d = UnknownActor) \<longleftrightarrow>
      (\<exists>d \<in> set (v_diagnostics (check_item x v)). diag_code d = UnknownActor) \<or>
      (\<exists>blk. TAsBlock blk \<in> set items \<and> ident_name (blk_actor blk) \<notin> dom (v_actors v))"
    using Cons.IH [of "check_item x v"] inv Cons.prems by (simp add: check.registry)
  show ?case
  proof (cases x)
    case (TAsBlock blk)
    with IH show ?thesis by (simp only: check_item.simps unknown_actor_block) auto
  qed (use IH in auto)
qed simp

end
