(* ===== verification/Ill_Cli_Facts.thy ===== *)
theory Ill_Cli_Facts
  imports Ill_Cli Ill_Validate_Inv
begin

text \<open>
  Facts about the command line: which \<open>--arg\<close> lists parse and to what, which files a directory walk
  finds and that it ends on a finite tree, the gate of \<open>ill test\<close>, and the exit statuses.
\<close>

section \<open>\<open>--arg\<close>\<close>

definition arg_entry :: "string \<Rightarrow> (string \<times> string) option" where
  "arg_entry item = map_option (\<lambda>(k, v). (trim k, v)) (split_once CHR ''='' item)"

lemma parse_cli_arg_iff:
  "parse_cli_arg item out = Inr out' \<longleftrightarrow>
     (\<exists>k v. arg_entry item = Some (k, v) \<and> k \<noteq> [] \<and> k \<notin> fst ` set out \<and> out' = btree_insert k v out)"
  by (auto simp: parse_cli_arg_def arg_entry_def Let_def map_of_eq_None_iff split: option.splits)

lemma parse_fold_iff:
  "try_fold parse_cli_arg raw out = Inr out' \<longleftrightarrow>
     (\<exists>kvs. map arg_entry raw = map Some kvs \<and> [] \<notin> fst ` set kvs \<and> distinct (map fst kvs) \<and>
        fst ` set kvs \<inter> fst ` set out = {} \<and> out' = fold (\<lambda>(k, v). btree_insert k v) kvs out)"
  (is "_ \<longleftrightarrow> (\<exists>kvs. ?Q raw out out' kvs)")
proof (induction raw arbitrary: out)
  case Nil
  then show ?case by auto
next
  case (Cons item raw)
  have "try_fold parse_cli_arg (item # raw) out = Inr out' \<longleftrightarrow>
      (\<exists>out1. parse_cli_arg item out = Inr out1 \<and> try_fold parse_cli_arg raw out1 = Inr out')"
    by (auto split: sum.splits)
  also have "\<dots> \<longleftrightarrow> (\<exists>k v kvs. arg_entry item = Some (k, v) \<and> k \<noteq> [] \<and> k \<notin> fst ` set out \<and>
      ?Q raw (btree_insert k v out) out' kvs)"
    by (auto simp: parse_cli_arg_iff Cons.IH)
  also have "\<dots> \<longleftrightarrow> (\<exists>kvs. ?Q (item # raw) out out' kvs)"
  proof
    assume "\<exists>k v kvs. arg_entry item = Some (k, v) \<and> k \<noteq> [] \<and> k \<notin> fst ` set out \<and>
      ?Q raw (btree_insert k v out) out' kvs"
    then obtain k v kvs where "arg_entry item = Some (k, v)" "k \<noteq> []" "k \<notin> fst ` set out"
      "?Q raw (btree_insert k v out) out' kvs" by blast
    then show "\<exists>kvs. ?Q (item # raw) out out' kvs"
      by (intro exI [of _ "(k, v) # kvs"]) (auto simp: set_keys_btree_insert)
  next
    assume "\<exists>kvs. ?Q (item # raw) out out' kvs"
    then obtain k v kvs where "?Q (item # raw) out out' ((k, v) # kvs)"
      by (auto simp: Cons_eq_map_conv)
    then show "\<exists>k v kvs. arg_entry item = Some (k, v) \<and> k \<noteq> [] \<and> k \<notin> fst ` set out \<and>
      ?Q raw (btree_insert k v out) out' kvs"
      by (intro exI [of _ k] exI [of _ v] exI [of _ kvs]) (auto simp: set_keys_btree_insert)
  qed
  finally show ?case .
qed

section \<open>The directory walk\<close>

text \<open>The files below a directory, by any path of subdirectories.\<close>

inductive ill_below :: "file_system \<Rightarrow> path_buf \<Rightarrow> path_buf \<Rightarrow> bool" for fs where
  below_here: "fs_read_dir fs dir = Inr entries \<Longrightarrow> Inr path \<in> set entries \<Longrightarrow>
     \<not> fs_is_dir fs path \<Longrightarrow> is_ill_file path \<Longrightarrow> ill_below fs dir path"
| below_sub: "fs_read_dir fs dir = Inr entries \<Longrightarrow> Inr sub \<in> set entries \<Longrightarrow>
     fs_is_dir fs sub \<Longrightarrow> ill_below fs sub path \<Longrightarrow> ill_below fs dir path"

inductive_simps ill_below_iff: "ill_below fs dir path"

text \<open>A rank that drops from a directory to its subdirectories bounds the depth.\<close>

definition ranked :: "file_system \<Rightarrow> (path_buf \<Rightarrow> nat) \<Rightarrow> bool" where
  "ranked fs rank \<longleftrightarrow>
     (\<forall>dir entries sub. fs_read_dir fs dir = Inr entries \<longrightarrow> Inr sub \<in> set entries \<longrightarrow>
        fs_is_dir fs sub \<longrightarrow> rank sub < rank dir)"

lemma option_fold_total:
  assumes "\<And>x s. x \<in> set xs \<Longrightarrow> \<exists>s'. f x s = Some s'"
  shows "\<exists>s'. option_fold f xs s = Some s'"
  using assms
proof (induction xs arbitrary: s)
  case (Cons x xs)
  then obtain s1 where "f x s = Some s1" by fastforce
  with Cons.IH [of s1] Cons.prems show ?case by auto
qed simp

lemma collect_total:
  assumes "ranked fs rank"
  shows "rank dir < fuel \<Longrightarrow> \<exists>st'. collect_ill_files_inner fs fuel dir st = Some st'"
proof (induction fuel arbitrary: dir st)
  case (Suc fuel)
  obtain events out where st: "st = (events, out)" by (cases st)
  show ?case
  proof (cases "fs_read_dir fs dir")
    case (Inr entries)
    have "\<exists>st'. collect_ill_files_inner fs fuel sub s = Some st'"
      if "Inr sub \<in> set entries" "fs_is_dir fs sub" for sub s
    proof (rule Suc.IH)
      have "rank sub < rank dir" using assms Inr that unfolding ranked_def by blast
      with Suc.prems show "rank sub < fuel" by simp
    qed
    then show ?thesis
      unfolding st collect_ill_files_inner.simps Inr sum.case
      by (intro option_fold_total) (auto split: sum.splits)
  qed (simp add: st)
qed simp

text \<open>What one pass over a list of entries adds to the files found.\<close>

lemma option_fold_collect:
  assumes "option_fold f xs s = Some s'"
    and "\<And>x s s'. x \<in> set xs \<Longrightarrow> f x s = Some s' \<Longrightarrow> set (snd s') = set (snd s) \<union> A x"
  shows "set (snd s') = set (snd s) \<union> (\<Union>x \<in> set xs. A x)"
  using assms
proof (induction xs arbitrary: s)
  case (Cons x xs)
  then obtain s1 where s1: "f x s = Some s1" "option_fold f xs s1 = Some s'"
    by (auto split: option.splits)
  have "set (snd s1) = set (snd s) \<union> A x" by (rule Cons.prems(2) [OF _ s1(1)]) simp
  moreover have "set (snd s') = set (snd s1) \<union> (\<Union>x \<in> set xs. A x)"
    by (rule Cons.IH [OF s1(2)]) (rule Cons.prems(2), simp_all)
  ultimately show ?case by auto
qed simp

lemma collect_sound_complete:
  "collect_ill_files_inner fs fuel dir st = Some st' \<Longrightarrow>
   set (snd st') = set (snd st) \<union> {path. ill_below fs dir path}"
proof (induction fuel arbitrary: dir st st')
  case (Suc fuel)
  obtain events out where st: "st = (events, out)" by (cases st)
  show ?case
  proof (cases "fs_read_dir fs dir")
    case (Inl e)
    with Suc.prems show ?thesis by (auto simp: st ill_below_iff [of fs dir])
  next
    case (Inr entries)
    let ?A = "\<lambda>entry. case entry of Inl e \<Rightarrow> {} | Inr path \<Rightarrow>
      if fs_is_dir fs path then {p. ill_below fs path p} else if is_ill_file path then {path} else {}"
    have "set (snd st') = set (snd st) \<union> (\<Union>x \<in> set entries. ?A x)"
      by (rule option_fold_collect [OF Suc.prems [unfolded st collect_ill_files_inner.simps Inr sum.case],
            folded st])
        (auto simp: Suc.IH split: sum.splits if_splits prod.splits)
    also have "(\<Union>x \<in> set entries. ?A x) = {path. ill_below fs dir path}"
      using Inr by (subst ill_below_iff) (fastforce split: sum.splits if_splits)
    finally show ?thesis .
  qed
qed simp

lemma collect_ill_files_spec:
  assumes "collect_ill_files fs fuel dir = Some (events, files)"
  shows "set files = {path. ill_below fs dir path}" and "sorted (map path_components files)"
  using assms collect_sound_complete [of fs fuel dir "([], [])"]
  by (auto simp: collect_ill_files_def)

section \<open>The suite\<close>

lemma check_files_eq:
  "check_files fs lower files =
     \<lparr>cs_files = concat (map (\<lambda>p. case fs_read_to_string fs p of
          Inr src \<Rightarrow> [check_file lower p src] | Inl e \<Rightarrow> []) files),
      cs_read_errors = concat (map (\<lambda>p. case fs_read_to_string fs p of
          Inr src \<Rightarrow> [] | Inl e \<Rightarrow> [(p, e)]) files)\<rparr>"
proof -
  have "fold (\<lambda>path suite. case fs_read_to_string fs path of
         Inr src \<Rightarrow> suite\<lparr>cs_files := cs_files suite @ [check_file lower path src]\<rparr>
       | Inl e \<Rightarrow> suite\<lparr>cs_read_errors := cs_read_errors suite @ [(path, e)]\<rparr>) files suite =
     \<lparr>cs_files = cs_files suite @ concat (map (\<lambda>p. case fs_read_to_string fs p of
          Inr src \<Rightarrow> [check_file lower p src] | Inl e \<Rightarrow> []) files),
      cs_read_errors = cs_read_errors suite @ concat (map (\<lambda>p. case fs_read_to_string fs p of
          Inr src \<Rightarrow> [] | Inl e \<Rightarrow> [(p, e)]) files)\<rparr>" for suite
    by (induction files arbitrary: suite) (auto split: sum.splits)
  then show ?thesis by (simp add: check_files_def)
qed

text \<open>A file that stops the gate: unreadable, unparsable with an error, or invalid.\<close>

definition bad_file :: "file_system \<Rightarrow> lowering \<Rightarrow> path_buf \<Rightarrow> bool" where
  "bad_file fs lower p =
     (case fs_read_to_string fs p of
        Inl e \<Rightarrow> True
      | Inr src \<Rightarrow> has_error (cf_diags (check_file lower p src)))"

lemma gate_iff:
  "(cs_read_errors (check_files fs lower files) \<noteq> [] \<or>
    filter (\<lambda>f. has_error (cf_diags f)) (cs_files (check_files fs lower files)) \<noteq> []) \<longleftrightarrow>
   list_ex (bad_file fs lower) files"
  by (induction files) (auto simp: check_files_eq bad_file_def split: sum.splits)

text \<open>On the given files, a lowering that fails reports at least one error, as \<open>lower\<close> does.\<close>

definition lower_reports :: "file_system \<Rightarrow> lowering \<Rightarrow> path_buf list \<Rightarrow> bool" where
  "lower_reports fs lower files \<longleftrightarrow>
     (\<forall>p \<in> set files. \<forall>src ds. fs_read_to_string fs p = Inr src \<longrightarrow> lower src = Inl ds \<longrightarrow> has_error ds)"

text \<open>Running the clean files one after the other: the reports, and the world at the end.\<close>

fun suite_reports ::
  "('i, 'w) instance_ops \<Rightarrow> regex_engine \<Rightarrow> (path_buf \<times> source_file) list \<Rightarrow> 'w \<Rightarrow> test_report list \<times> 'w" where
  "suite_reports ops rx [] w = ([], w)"
| "suite_reports ops rx ((path, ast) # fs) w =
     (let (report, w1) = run_validated_test_file ops rx path ast w;
          (reports, w2) = suite_reports ops rx fs w1
      in (report # reports, w2))"

lemma run_clean_eq:
  assumes "list_all (\<lambda>f. cf_ast f \<noteq> None) fs"
  shows "\<exists>events. run_clean ops rx fs passed failed w =
    (let (reports, w') = suite_reports ops rx (map (\<lambda>f. (cf_path f, the (cf_ast f))) fs) w
     in (Inr (passed + length (filter tr_passed reports),
              failed + length (filter (\<lambda>r. \<not> tr_passed r) reports)), events, w'))"
  using assms
proof (induction fs arbitrary: passed failed w)
  case (Cons f fs)
  then obtain ast where ast: "cf_ast f = Some ast" by auto
  obtain report w1 where r: "run_validated_test_file ops rx (cf_path f) ast w = (report, w1)"
    by (cases "run_validated_test_file ops rx (cf_path f) ast w")
  obtain reports w2 where s: "suite_reports ops rx (map (\<lambda>f. (cf_path f, the (cf_ast f))) fs) w1 = (reports, w2)"
    by (cases "suite_reports ops rx (map (\<lambda>f. (cf_path f, the (cf_ast f))) fs) w1")
  from Cons.IH [of "passed + 1" failed w1] Cons.IH [of passed "failed + 1" w1] Cons.prems ast r s
  show ?case by (cases "tr_passed report") auto
qed simp

text \<open>The parsed files of a suite without bad files.\<close>

definition parsed :: "file_system \<Rightarrow> lowering \<Rightarrow> path_buf list \<Rightarrow> (path_buf \<times> source_file) list" where
  "parsed fs lower files =
     concat (map (\<lambda>p. case fs_read_to_string fs p of
       Inl e \<Rightarrow> []
     | Inr src \<Rightarrow> (case lower src of Inl ds \<Rightarrow> [] | Inr ast \<Rightarrow> [(p, ast)])) files)"

lemma clean_suite:
  assumes "lower_reports fs lower files" and "\<not> list_ex (bad_file fs lower) files"
  shows "list_all (\<lambda>f. cf_ast f \<noteq> None \<and> \<not> has_error (cf_diags f)) (cs_files (check_files fs lower files))"
    and "map (\<lambda>f. (cf_path f, the (cf_ast f))) (cs_files (check_files fs lower files)) = parsed fs lower files"
  using assms
  by (induction files)
    (auto simp: check_files_eq bad_file_def parsed_def check_file_def lower_reports_def split: sum.splits)

text \<open>\<open>ill check\<close> exits with success exactly on the suites \<open>ill test\<close> would run.\<close>

lemma count_error_iff:
  "length (cs_read_errors (check_files fs lower files))
     + count_severity SevError (cs_files (check_files fs lower files)) > 0 \<longleftrightarrow>
   list_ex (bad_file fs lower) files"
proof -
  have "count_severity SevError cs = 0 \<longleftrightarrow> filter (\<lambda>f. has_error (cf_diags f)) cs = []" for cs
    by (auto simp: count_severity_def has_error_def list_ex_iff filter_empty_conv)
  then show ?thesis unfolding gate_iff [symmetric] by (metis add_gr_0 bot_nat_0.not_eq_extremum length_greater_0_conv)
qed

end
