(* ===== verification/Ill_Output.thy ===== *)
theory Ill_Output
  imports Ill_Report Ill_Cli_Facts
begin

text \<open>
  The two streams of the command line: what the events of \<^verbatim>\<open>main.rs\<close> put on them, with the renderer and the
  failure report of \<open>Ill_Report\<close>, and what a user can therefore read after a refused or failed run.
\<close>

section \<open>The streams\<close>

definition render_or_fallback :: "emitter \<Rightarrow> path_buf \<Rightarrow> string \<Rightarrow> diagnostic list \<Rightarrow> string" where
  "render_or_fallback emit path source diags = render_with_fallback emit path source diags"

definition print_failed_report :: "formatters \<Rightarrow> emitter \<Rightarrow> test_report \<Rightarrow> string \<Rightarrow> string" where
  "print_failed_report fm emit report source = write_failure fm emit report source"

text \<open>For callers that want a text; the bytes of the buffer are checked to be UTF-8.\<close>

definition format_failure :: "formatters \<Rightarrow> emitter \<Rightarrow> test_report \<Rightarrow> string \<Rightarrow> string + string" where
  "format_failure fm emit report src =
     (let buf = write_failure fm emit report src
      in if utf8_valid (as_bytes buf) then Inr buf else Inl ''renderer emits utf-8'')"

fun stderr_of :: "formatters \<Rightarrow> emitter \<Rightarrow> cli_event \<Rightarrow> string" where
  "stderr_of fm emit (Stdout line) = []"
| "stderr_of fm emit (Stderr line) = line @ newline"
| "stderr_of fm emit (RenderDiagnostics path source diags) = render_or_fallback emit path source diags"
| "stderr_of fm emit (PrintFailure report source) = print_failed_report fm emit report source"

fun stdout_of :: "cli_event \<Rightarrow> string" where
  "stdout_of (Stdout line) = line @ newline"
| "stdout_of _ = []"

definition stderr_text :: "formatters \<Rightarrow> emitter \<Rightarrow> cli_event list \<Rightarrow> string" where
  "stderr_text fm emit events = concat (map (stderr_of fm emit) events)"

definition stdout_text :: "cli_event list \<Rightarrow> string" where
  "stdout_text events = concat (map stdout_of events)"

section \<open>What can be read\<close>

text \<open>The diagnostic is in the text: as the renderer wrote it, or in the plain form.\<close>

definition readable :: "emitter \<Rightarrow> path_buf \<Rightarrow> string \<Rightarrow> diagnostic \<Rightarrow> string \<Rightarrow> bool" where
  "readable emit path source d text \<longleftrightarrow>
     snd (emit path source (to_csr d)) = None \<and> sublist (fst (emit path source (to_csr d))) text \<or>
     sublist (plain_diagnostic d) text"

lemma readable_rendered: "d \<in> set ds \<Longrightarrow> readable emit path source d (render_with_fallback emit path source ds)"
  unfolding readable_def by (rule render_with_fallback_keeps)

lemma readable_mono: "readable emit path source d text \<Longrightarrow> sublist text text' \<Longrightarrow> readable emit path source d text'"
  by (auto simp: readable_def intro: sublist_order.order_trans)

lemma stderr_text_event: "e \<in> set events \<Longrightarrow> sublist (stderr_of fm emit e) (stderr_text fm emit events)"
  unfolding stderr_text_def by (rule sublist_concat)

lemma stderr_text_append [simp]:
  "stderr_text fm emit (xs @ ys) = stderr_text fm emit xs @ stderr_text fm emit ys"
  by (simp add: stderr_text_def)

lemma readable_event:
  "RenderDiagnostics path source ds \<in> set events \<Longrightarrow> d \<in> set ds \<Longrightarrow>
   readable emit path source d (stderr_text fm emit events)"
  using stderr_text_event [of "RenderDiagnostics path source ds" events fm emit]
    readable_mono [OF readable_rendered]
  by (simp add: render_or_fallback_def)

text \<open>The validator and the lowering report nothing but errors, so every diagnostic of a failing file counts.\<close>

lemma validate_reports_errors:
  "list_all (\<lambda>d. diag_severity d = SevError \<and> diag_code d \<in> decl_codes \<union> insert UnknownActor body_codes)
     (validate source)"
  using validator_run_grows [of validator_init source]
  by (auto simp: validate_def grows_def validator_init_def)

text \<open>What the gate and \<open>check\<close> print of one selected file.\<close>

lemma gate_events_read_error:
  "p \<in> set files \<Longrightarrow> fs_read_to_string fs p = Inl e \<Longrightarrow>
   read_error_event (p, e) \<in> set (map read_error_event (cs_read_errors (check_files fs low files)))"
  by (force simp: check_files_eq)

lemma checked_file_in:
  "p \<in> set files \<Longrightarrow> fs_read_to_string fs p = Inr src \<Longrightarrow>
   check_file low p src \<in> set (cs_files (check_files fs low files))"
  by (force simp: check_files_eq)

lemma check_file_sel [simp]: "cf_path (check_file low p src) = p" "cf_src (check_file low p src) = src"
  by (simp_all add: check_file_def split: sum.split)

text \<open>One selected file is explained by a text: its read error, or each of its errors.\<close>

definition explained :: "emitter \<Rightarrow> file_system \<Rightarrow> lowering \<Rightarrow> path_buf \<Rightarrow> string \<Rightarrow> bool" where
  "explained emit fs low p text \<longleftrightarrow>
     (case fs_read_to_string fs p of
        Inl e \<Rightarrow> sublist (''ill: error reading '' @ p @ '': '' @ e @ newline) text
      | Inr src \<Rightarrow> list_all (\<lambda>d. diag_severity d = SevError \<longrightarrow> readable emit p src d text)
          (cf_diags (check_file low p src)))"

lemma explainedI:
  assumes "p \<in> set files"
    and "set (map read_error_event (cs_read_errors (check_files fs low files))) \<subseteq> set events"
    and "\<And>f. f \<in> set (cs_files (check_files fs low files)) \<Longrightarrow> has_error (cf_diags f) \<Longrightarrow>
      \<exists>ds. RenderDiagnostics (cf_path f) (cf_src f) ds \<in> set events \<and>
        {d \<in> set (cf_diags f). diag_severity d = SevError} \<subseteq> set ds"
  shows "explained emit fs low p (stderr_text fm emit events)"
proof (cases "fs_read_to_string fs p")
  case (Inl e)
  with gate_events_read_error [OF assms(1)] assms(2) have "read_error_event (p, e) \<in> set events" by blast
  from stderr_text_event [OF this, of fm emit] Inl show ?thesis
    by (simp add: explained_def read_error_event_def)
next
  case (Inr src)
  have "readable emit p src d (stderr_text fm emit events)"
    if d: "d \<in> set (cf_diags (check_file low p src))" "diag_severity d = SevError" for d
  proof -
    have "has_error (cf_diags (check_file low p src))" using d by (auto simp: has_error_def list_ex_iff)
    from assms(3) [OF checked_file_in [OF assms(1) Inr] this] d obtain ds where
      "RenderDiagnostics p src ds \<in> set events" "d \<in> set ds" by auto
    then show ?thesis by (rule readable_event)
  qed
  with Inr show ?thesis by (simp add: explained_def list_all_iff)
qed

lemma gate_explains:
  assumes "p \<in> set files" and "suite = check_files fs low files"
    and "set (gate_events (cs_read_errors suite) (filter (\<lambda>f. has_error (cf_diags f)) (cs_files suite))) \<subseteq> set events"
  shows "explained emit fs low p (stderr_text fm emit events)"
proof (rule explainedI [OF assms(1)])
  show "set (map read_error_event (cs_read_errors (check_files fs low files))) \<subseteq> set events"
    using assms(2,3) by (auto simp: gate_events_def)
next
  fix f
  assume f: "f \<in> set (cs_files (check_files fs low files))" "has_error (cf_diags f)"
  let ?ds = "filter (\<lambda>d. diag_severity d = SevError) (cf_diags f)"
  have "RenderDiagnostics (cf_path f) (cf_src f) ?ds \<in> set events"
    by (rule subsetD [OF assms(3)]) (use f assms(2) in \<open>auto simp: gate_events_def filter_empty_conv\<close>)
  then show "\<exists>ds. RenderDiagnostics (cf_path f) (cf_src f) ds \<in> set events \<and>
      {d \<in> set (cf_diags f). diag_severity d = SevError} \<subseteq> set ds"
    by (intro exI [of _ ?ds]) auto
qed

section \<open>Refused suites\<close>

lemma run_test_explains:
  assumes "resolve_files fs fuel paths = Some (events0, files)" and "list_ex (bad_file fs low) files"
  shows "\<exists>events. run_test fs fuel low ops rx paths w = Some (Inr 1, events, w) \<and>
    (\<forall>p \<in> set files. explained emit fs low p (stderr_text fm emit events))"
proof -
  let ?suite = "check_files fs low files"
  let ?gate = "gate_events (cs_read_errors ?suite) (filter (\<lambda>f. has_error (cf_diags f)) (cs_files ?suite))"
  from assms(2) have "files \<noteq> []" by auto
  with assms gate_iff [of fs low files]
  have "run_test fs fuel low ops rx paths w = Some (Inr 1, events0 @ ?gate, w)"
    by (auto simp: run_test_def Let_def comp_def)
  moreover have "explained emit fs low p (stderr_text fm emit (events0 @ ?gate))" if "p \<in> set files" for p
    by (rule gate_explains [OF that refl]) simp
  ultimately show ?thesis by blast
qed

lemma run_check_explains:
  assumes "resolve_files fs fuel paths = Some (events0, files)" and "list_ex (bad_file fs low) files"
  shows "\<exists>events. run_check fs fuel low paths = Some (1, events) \<and>
    (\<forall>p \<in> set files. explained emit fs low p (stderr_text fm emit events))"
proof -
  let ?suite = "check_files fs low files"
  from assms(2) have "files \<noteq> []" by auto
  with assms count_error_iff [of fs low files] obtain summary where
    "run_check fs fuel low paths = Some (1, events0 @ map read_error_event (cs_read_errors ?suite)
      @ map (\<lambda>f. RenderDiagnostics (cf_path f) (cf_src f) (cf_diags f)) (cs_files ?suite) @ [Stdout summary])"
    (is "_ = Some (1, ?events)")
    by (simp add: run_check_def Let_def)
  moreover have "explained emit fs low p (stderr_text fm emit ?events)" if "p \<in> set files" for p
    by (rule explainedI [OF that]) auto
  ultimately show ?thesis by blast
qed

section \<open>Failed tests\<close>

text \<open>The report of a failed test names the file, and each of its diagnostics can be read.\<close>

lemma write_failure_readable:
  assumes "s \<in> set (tr_statements report)" and "d \<in> set (statement_diags fm s)"
  shows "readable emit (tr_path report) src d (write_failure fm emit report src)"
proof -
  let ?ds = "concat (map (statement_diags fm) (tr_statements report))"
  have d: "d \<in> set ?ds" using assms by auto
  then have "write_failure fm emit report src = (''FAIL '' @ tr_path report @ newline)
      @ render_with_fallback emit (tr_path report) src ?ds @ concat (map teardown_line (tr_teardown report))"
    unfolding write_failure_def Let_def by auto
  then have "sublist (render_with_fallback emit (tr_path report) src ?ds) (write_failure fm emit report src)"
    by (metis sublist_appendI)
  with readable_rendered [OF d] show ?thesis by (rule readable_mono)
qed

lemma write_failure_header: "sublist (''FAIL '' @ tr_path report @ newline) (write_failure fm emit report src)"
  unfolding write_failure_def Let_def append_assoc [symmetric] by (simp only: append_assoc prefix_imp_sublist prefixI)

definition report_explained ::
  "file_system \<Rightarrow> formatters \<Rightarrow> emitter \<Rightarrow> test_report \<Rightarrow> string \<Rightarrow> bool" where
  "report_explained fs fm emit r text \<longleftrightarrow>
     sublist (''FAIL '' @ tr_path r @ newline) text \<and>
     (case fs_read_to_string fs (tr_path r) of
        Inl e \<Rightarrow> False
      | Inr src \<Rightarrow> list_all (\<lambda>s. list_all (\<lambda>d. readable emit (tr_path r) src d text) (statement_diags fm s))
          (tr_statements r))"

lemma report_explained_event:
  assumes "PrintFailure r src \<in> set events" and "fs_read_to_string fs (tr_path r) = Inr src"
  shows "report_explained fs fm emit r (stderr_text fm emit events)"
  using stderr_text_event [OF assms(1), of fm emit] write_failure_header [of r fm emit src] assms(2)
  by (auto simp: report_explained_def print_failed_report_def list_all_iff
      intro: sublist_order.order_trans readable_mono [OF write_failure_readable])

lemma report_explained_mono:
  "report_explained fs fm emit r text \<Longrightarrow> sublist text text' \<Longrightarrow> report_explained fs fm emit r text'"
  by (auto simp: report_explained_def list_all_iff intro: sublist_order.order_trans readable_mono split: sum.splits)

lemma report_explained_around [intro]:
  "report_explained fs fm emit r (stderr_text fm emit events) \<Longrightarrow>
   report_explained fs fm emit r (stderr_text fm emit (before @ events @ after))"
  by (erule report_explained_mono) simp

text \<open>The loop over the clean files prints the report of every failed test.\<close>

lemma run_clean_prints:
  assumes "run_clean ops rx fs passed failed w = (Inr counts, events, w')"
    and "r \<in> set (fst (suite_reports ops rx (map (\<lambda>f. (cf_path f, the (cf_ast f))) fs) w))" and "\<not> tr_passed r"
  shows "\<exists>f \<in> set fs. cf_path f = tr_path r \<and> PrintFailure r (cf_src f) \<in> set events"
  using assms(1,2)
proof (induction fs arbitrary: passed failed w events)
  case (Cons f fs)
  then obtain ast where ast: "cf_ast f = Some ast" by (cases "cf_ast f") auto
  obtain report w1 where t: "run_validated_test_file ops rx (cf_path f) ast w = (report, w1)"
    by (rule prod.exhaust)
  then have path: "tr_path report = cf_path f"
    by (auto simp: run_validated_test_file_def execute_def Let_def split: prod.splits)
  obtain r1 events1 w2 where c: "run_clean ops rx fs (if tr_passed report then passed + 1 else passed)
      (if tr_passed report then failed else failed + 1) w1 = (r1, events1, w2)"
    by (rule prod_cases3)
  from Cons.prems(1) ast t c have rest: "r1 = Inr counts" "w2 = w'"
    "events = (if tr_passed report then Stdout (''PASS '' @ cf_path f) else PrintFailure report (cf_src f)) # events1"
    by (cases "tr_passed report"; simp)+
  from Cons.prems(2) ast t consider "r = report"
    | "r \<in> set (fst (suite_reports ops rx (map (\<lambda>f. (cf_path f, the (cf_ast f))) fs) w1))"
    by (auto simp: split_beta Let_def)
  then show ?case
  proof cases
    case 1
    with assms(3) path show ?thesis by (simp add: rest(3))
  next
    case 2
    from Cons.IH [OF c [unfolded rest(1,2)] this] show ?thesis by (auto simp: rest(3))
  qed
qed simp

lemma checked_files_read:
  "f \<in> set (cs_files (check_files fs low files)) \<Longrightarrow> fs_read_to_string fs (cf_path f) = Inr (cf_src f)"
  by (auto simp: check_files_eq split: sum.splits)

text \<open>A clean suite: what it runs, what it counts and what it prints.\<close>

lemma run_clean_suite:
  assumes "lower_reports fs low files" and "\<not> list_ex (bad_file fs low) files"
    and "suite_reports ops rx (parsed fs low files) w = (reports, w')"
  shows "\<exists>events. run_clean ops rx (cs_files (check_files fs low files)) 0 0 w =
      (Inr (length (filter tr_passed reports), length (filter (\<lambda>r. \<not> tr_passed r) reports)), events, w') \<and>
    (\<forall>fm emit. \<forall>r \<in> set reports. tr_passed r \<or> report_explained fs fm emit r (stderr_text fm emit events))"
proof -
  let ?fs = "cs_files (check_files fs low files)"
  note clean = clean_suite [OF assms(1,2)]
  have "list_all (\<lambda>f. cf_ast f \<noteq> None) ?fs" using clean(1) by (auto simp: list_all_iff)
  from run_clean_eq [OF this, of ops rx 0 0 w] obtain events where
    run: "run_clean ops rx ?fs 0 0 w =
      (Inr (length (filter tr_passed reports), length (filter (\<lambda>r. \<not> tr_passed r) reports)), events, w')"
    by (auto simp: clean(2) assms(3))
  have "report_explained fs fm emit r (stderr_text fm emit events)" if "r \<in> set reports" "\<not> tr_passed r" for fm emit r
  proof -
    have "r \<in> set (fst (suite_reports ops rx (map (\<lambda>f. (cf_path f, the (cf_ast f))) ?fs) w))"
      using that(1) assms(3) by (simp add: clean(2))
    from run_clean_prints [OF run this that(2)] obtain f where
      "f \<in> set ?fs" "cf_path f = tr_path r" "PrintFailure r (cf_src f) \<in> set events" by blast
    with checked_files_read [of f] show ?thesis by (intro report_explained_event) auto
  qed
  with run show ?thesis by blast
qed

end
