(* ===== verification/Ill_Source.thy ===== *)
theory Ill_Source
  imports Ill_Text
begin

text \<open>
  The text layer of \<^verbatim>\<open>lower.rs\<close>: \<open>normalize\<close>, which rewrites a file before it is parsed, and
  \<open>unescape\<close>, which reads the escape sequences of a double-quoted string.
\<close>

section \<open>Escape sequences\<close>

definition escape_char :: "char \<Rightarrow> char option" where
  "escape_char c =
     (if c = CHR 0x5C then Some (CHR 0x5C)
      else if c = CHR 0x22 then Some (CHR 0x22)
      else if c = CHR ''n'' then Some (CHR 0x0A)
      else if c = CHR ''t'' then Some (CHR 0x09)
      else if c = CHR ''r'' then Some (CHR 0x0D)
      else if c = CHR ''0'' then Some (CHR 0x00)
      else if c = CHR ''$'' then Some (CHR ''$'')
      else None)"

fun unescape :: "string \<Rightarrow> string + string" where
  "unescape [] = Inr []"
| "unescape (c # s) =
     (if c \<noteq> CHR 0x5C then map_sum id ((#) c) (unescape s)
      else case s of
             [] \<Rightarrow> Inl ''dangling backslash at end of string''
           | d # r \<Rightarrow>
               (case escape_char d of
                  Some e \<Rightarrow> map_sum id ((#) e) (unescape r)
                | None \<Rightarrow> Inl (''unknown escape sequence `'' @ [CHR 0x5C] @ first_char s @ ''`'')))"

section \<open>Normalization\<close>

text \<open>\<open>src.replace("\r\n", "\n").replace('\r', "\n")\<close>, one pass for each.\<close>

fun replace_crlf :: "string \<Rightarrow> string" where
  "replace_crlf (a # b # s) =
     (if a = CHR 0x0D \<and> b = CHR 0x0A then CHR 0x0A # replace_crlf s else a # replace_crlf (b # s))"
| "replace_crlf s = s"

definition replace_cr :: "string \<Rightarrow> string" where
  "replace_cr s = map (\<lambda>c. if c = CHR 0x0D then CHR 0x0A else c) s"

definition expand_tabs :: "string \<Rightarrow> string" where
  "expand_tabs s = concat (map (\<lambda>c. if c = CHR 0x09 then ''  '' else [c]) s)"

text \<open>\<open>while result.ends_with("\n\n") { result.pop(); }\<close>, on the reversed string.\<close>

fun collapse_newlines :: "string \<Rightarrow> string" where
  "collapse_newlines (a # b # s) =
     (if a = CHR 0x0A \<and> b = CHR 0x0A then collapse_newlines (b # s) else a # b # s)"
| "collapse_newlines s = s"

definition normalize :: "string \<Rightarrow> string" where
  "normalize src =
     (let s = replace_cr (replace_crlf src);
          out = concat (map (\<lambda>line. trim_end (expand_tabs line) @ [CHR 0x0A]) (split_on (CHR 0x0A) s))
      in rev (collapse_newlines (rev out)))"

section \<open>Facts on escape sequences\<close>

lemma escape_char_ascii: "escape_char d = Some e \<Longrightarrow> byte_of d < 0x80 \<and> byte_of e < 0x80"
  by (auto simp: escape_char_def byte_of_def split: if_splits)

lemma utf8_valid_ascii_mid:
  assumes "a < 0x80"
  shows "utf8_valid (p @ a # x) \<longleftrightarrow> utf8_valid p \<and> utf8_valid x"
proof
  assume "utf8_valid (p @ a # x)"
  moreover from assms have "\<not> utf8_cont a" by (auto simp: utf8_cont_def word_le_nat_alt word_less_nat_alt)
  ultimately have "utf8_valid p \<and> utf8_valid (a # x)"
    using utf8_valid_split [of "p @ a # x" "length p"] by simp
  with assms show "utf8_valid p \<and> utf8_valid x" by (simp add: utf8_valid.simps(2))
next
  assume "utf8_valid p \<and> utf8_valid x"
  with assms show "utf8_valid (p @ a # x)" by (simp add: utf8_valid_append utf8_valid.simps(2))
qed

lemma unescape_valid_after:
  "utf8_valid (p @ as_bytes s) \<Longrightarrow> unescape s = Inr r \<Longrightarrow> utf8_valid (p @ as_bytes r)"
proof (induction s arbitrary: p r rule: unescape.induct)
  case (2 c s)
  show ?case
  proof (cases "c = CHR 0x5C")
    case False
    with "2.prems" obtain r' where "unescape s = Inr r'" "r = c # r'"
      by (auto simp: map_sum_id_Inr)
    with "2.IH"(1) [OF False, of "p @ [byte_of c]" r'] "2.prems"(1) show ?thesis
      by (simp add: as_bytes_def)
  next
    case True
    with "2.prems"(2) obtain d t e r' where s: "s = d # t" "escape_char d = Some e"
      "unescape t = Inr r'" "r = e # r'"
      by (auto simp: map_sum_id_Inr split: list.splits option.splits)
    have "byte_of (CHR 0x5C) < 0x80" by (simp add: byte_of_def)
    with "2.prems"(1) True s escape_char_ascii [OF s(2)] have "utf8_valid p" "utf8_valid (as_bytes t)"
      by (simp_all add: as_bytes_def utf8_valid_ascii_mid utf8_valid.simps(2))
    with escape_char_ascii [OF s(2)] have "utf8_valid ((p @ [byte_of e]) @ as_bytes t)"
      by (simp add: utf8_valid_ascii_mid)
    from "2.IH"(2) [OF _ s(1) s(2) this s(3)] True s show ?thesis by (simp add: as_bytes_def)
  qed
qed simp

lemma unescape_valid: "utf8_valid (as_bytes s) \<Longrightarrow> unescape s = Inr r \<Longrightarrow> utf8_valid (as_bytes r)"
  using unescape_valid_after [of "[]" s r] by simp

text \<open>The writer of escape sequences that \<open>unescape\<close> inverts.\<close>

definition escape_seq :: "char \<Rightarrow> string" where
  "escape_seq c =
     (if c = CHR 0x5C then [CHR 0x5C, CHR 0x5C]
      else if c = CHR 0x22 then [CHR 0x5C, CHR 0x22]
      else if c = CHR 0x0A then [CHR 0x5C, CHR ''n'']
      else if c = CHR 0x09 then [CHR 0x5C, CHR ''t'']
      else if c = CHR 0x0D then [CHR 0x5C, CHR ''r'']
      else if c = CHR 0x00 then [CHR 0x5C, CHR ''0'']
      else if c = CHR ''$'' then [CHR 0x5C, CHR ''$'']
      else [c])"

definition escape :: "string \<Rightarrow> string" where
  "escape s = concat (map escape_seq s)"

lemma unescape_seq: "unescape (escape_seq c @ s) = map_sum id ((#) c) (unescape s)"
  by (simp add: escape_seq_def escape_char_def)

lemma unescape_escape: "unescape (escape s) = Inr s"
  by (induction s) (simp_all add: escape_def unescape_seq)

text \<open>No quote, control character or hole opener is left bare.\<close>

lemma escape_plain:
  "c \<in> set (escape s) \<Longrightarrow> c \<notin> {CHR 0x0A, CHR 0x09, CHR 0x0D, CHR 0x00}"
  by (auto simp: escape_def escape_seq_def split: if_splits)

section \<open>Facts on normalization\<close>

lemma split_on_join: "concat (map (\<lambda>w. w @ [d]) (split_on d s)) = s @ [d]"
  by (induction s) (auto split: list.splits)

lemma split_on_nonempty: "split_on d s \<noteq> []"
  by (cases s) (auto split: list.splits)

lemma split_on_append: "split_on d (xs @ d # ys) = split_on d xs @ split_on d ys"
proof (induction xs)
  case (Cons x xs)
  then show ?case using split_on_nonempty [of d xs] by (auto split: list.splits)
qed simp

lemma split_on_free: "w \<in> set (split_on d s) \<Longrightarrow> d \<notin> set w \<and> set w \<subseteq> set s"
  by (induction s arbitrary: w) (auto split: list.splits if_splits, blast+)

lemma split_on_single: "d \<notin> set s \<Longrightarrow> split_on d s = [s]"
  by (induction s) auto

lemma split_on_lines:
  "list_all (\<lambda>w. d \<notin> set w) ws \<Longrightarrow> split_on d (concat (map (\<lambda>w. w @ [d]) ws)) = ws @ [[]]"
proof (induction ws)
  case (Cons w ws)
  then have "split_on d (w @ d # concat (map (\<lambda>w. w @ [d]) ws)) = [w] @ ws @ [[]]"
    by (simp only: split_on_append) (simp add: split_on_single)
  then show ?case by simp
qed simp

lemma replace_crlf_id: "CHR 0x0D \<notin> set s \<Longrightarrow> replace_crlf s = s"
  by (induction s rule: replace_crlf.induct) auto

lemma replace_cr_id: "CHR 0x0D \<notin> set s \<Longrightarrow> replace_cr s = s"
  by (auto simp: replace_cr_def intro: map_idI)

lemma replace_cr_free: "CHR 0x0D \<notin> set (replace_cr s)"
  by (auto simp: replace_cr_def)

lemma expand_tabs_id: "CHR 0x09 \<notin> set s \<Longrightarrow> expand_tabs s = s"
  by (induction s) (auto simp: expand_tabs_def)

lemma expand_tabs_set: "set (expand_tabs s) \<subseteq> insert (CHR '' '') (set s - {CHR 0x09})"
  by (auto simp: expand_tabs_def split: if_splits)

lemma trim_end_set: "set (trim_end s) \<subseteq> set s"
  using trim_end_prefix [of s] by (auto dest: set_mono_prefix)

text \<open>The reversed string loses newlines at its front until a single one is left.\<close>

lemma collapse_newlines_cases:
  "\<exists>k. s = replicate k (CHR 0x0A) @ collapse_newlines s"
proof (induction s rule: collapse_newlines.induct)
  case (1 a b s)
  show ?case
  proof (cases "a = CHR 0x0A \<and> b = CHR 0x0A")
    case True
    with "1.IH" obtain k where "b # s = replicate k (CHR 0x0A) @ collapse_newlines (b # s)" by blast
    with True show ?thesis by (intro exI [of _ "Suc k"]) simp
  qed (auto intro: exI [of _ 0])
qed (auto intro: exI [of _ 0])

lemma collapse_newlines_single:
  "\<not> (\<exists>r. collapse_newlines s = CHR 0x0A # CHR 0x0A # r)"
  by (induction s rule: collapse_newlines.induct) auto

lemma collapse_newlines_id: "\<not> (\<exists>r. s = CHR 0x0A # CHR 0x0A # r) \<Longrightarrow> collapse_newlines s = s"
  by (cases s rule: collapse_newlines.cases) auto

lemma collapse_newlines_hd: "s \<noteq> [] \<Longrightarrow> hd s = CHR 0x0A \<Longrightarrow> collapse_newlines s \<noteq> [] \<and> hd (collapse_newlines s) = CHR 0x0A"
  by (induction s rule: collapse_newlines.induct) auto

text \<open>What a normalized text looks like.\<close>

definition normal_form :: "string \<Rightarrow> bool" where
  "normal_form s \<longleftrightarrow>
     CHR 0x0D \<notin> set s \<and> CHR 0x09 \<notin> set s \<and>
     list_all (\<lambda>line. trim_end line = line) (split_on (CHR 0x0A) s) \<and>
     s \<noteq> [] \<and> last s = CHR 0x0A \<and> \<not> suffix [CHR 0x0A, CHR 0x0A] s"

lemma collapse_newlines_last_line:
  "s \<noteq> [] \<Longrightarrow> hd s = CHR 0x0A \<Longrightarrow>
   \<exists>k r. s = replicate k (CHR 0x0A) @ CHR 0x0A # r \<and> collapse_newlines s = CHR 0x0A # r"
  using collapse_newlines_cases [of s] collapse_newlines_hd [of s]
  by (cases "collapse_newlines s") auto

lemma split_on_replicate: "split_on d (replicate k d) = replicate (Suc k) []"
  by (induction k) auto

lemma concat_lines_last: "ws \<noteq> [] \<Longrightarrow> \<exists>t. concat (map (\<lambda>w. w @ [d]) ws) = t @ [d]"
  by (induction ws rule: rev_induct) auto

lemma normal_form_normalize: "normal_form (normalize src)"
proof -
  let ?s = "replace_cr (replace_crlf src)" and ?nl = "CHR 0x0A"
  define ls where "ls = map (\<lambda>line. trim_end (expand_tabs line)) (split_on ?nl ?s)"
  define out where "out = concat (map (\<lambda>w. w @ [?nl]) ls)"
  have norm: "normalize src = rev (collapse_newlines (rev out))"
    by (simp add: normalize_def ls_def out_def comp_def)
  have line: "?nl \<notin> set w \<and> CHR 0x0D \<notin> set w \<and> CHR 0x09 \<notin> set w \<and> trim_end w = w" if "w \<in> set ls" for w
  proof -
    from that obtain l where l: "l \<in> set (split_on ?nl ?s)" "w = trim_end (expand_tabs l)"
      by (auto simp: ls_def)
    from split_on_free [OF l(1)] replace_cr_free have "?nl \<notin> set l" "CHR 0x0D \<notin> set l" by blast+
    with l(2) expand_tabs_set [of l] trim_end_set [of "expand_tabs l"] show ?thesis by auto
  qed
  have "ls \<noteq> []" using split_on_nonempty by (simp add: ls_def)
  from concat_lines_last [OF this, of ?nl] obtain t where "out = t @ [?nl]" by (auto simp: out_def)
  then obtain k r where r: "rev out = replicate k ?nl @ ?nl # r" "collapse_newlines (rev out) = ?nl # r"
    using collapse_newlines_last_line [of "rev out"] by auto
  then have eqs: "normalize src = rev r @ [?nl]" "out = rev r @ ?nl # replicate k ?nl"
    by (auto simp: norm rev_swap replicate_append_same)
  have "split_on ?nl out = ls @ [[]]" unfolding out_def by (rule split_on_lines) (auto simp: list_all_iff line)
  then have "set (split_on ?nl (rev r) @ split_on ?nl (replicate k ?nl)) = set (ls @ [[]])"
    by (simp only: eqs(2) split_on_append)
  then have "set (split_on ?nl (rev r)) \<subseteq> insert [] (set ls)" by auto
  then have "list_all (\<lambda>l. trim_end l = l) (split_on ?nl (normalize src))"
    using line by (auto simp: eqs split_on_append list_all_iff)
  moreover have "CHR 0x0D \<notin> set out" "CHR 0x09 \<notin> set out" using line by (auto simp: out_def)
  moreover have "\<not> suffix [?nl, ?nl] (normalize src)"
    using collapse_newlines_single [of "rev out"] r by (auto simp: eqs suffix_def append_eq_Cons_conv rev_swap)
  ultimately show ?thesis by (simp add: normal_form_def eqs)
qed

lemma normalize_normal_form:
  assumes "normal_form s"
  shows "normalize s = s"
proof -
  let ?nl = "CHR 0x0A"
  from assms have nf: "CHR 0x0D \<notin> set s" "CHR 0x09 \<notin> set s"
    "list_all (\<lambda>line. trim_end line = line) (split_on ?nl s)" "s \<noteq> []" "last s = ?nl"
    "\<not> suffix [?nl, ?nl] s"
    by (auto simp: normal_form_def)
  have "trim_end (expand_tabs l) = l" if "l \<in> set (split_on ?nl s)" for l
  proof -
    from split_on_free [OF that] nf(2) have "CHR 0x09 \<notin> set l" by blast
    with that nf(3) show ?thesis by (simp add: expand_tabs_id list_all_iff)
  qed
  then have "concat (map (\<lambda>l. trim_end (expand_tabs l) @ [?nl]) (split_on ?nl s)) = s @ [?nl]"
    using split_on_join [of ?nl s] by (simp cong: map_cong)
  moreover from nf obtain t where t: "s = t @ [?nl]" by (metis append_butlast_last_id)
  with nf(6) have "\<not> (\<exists>r. rev s = ?nl # ?nl # r)" by (auto simp: suffix_def rev_swap)
  then have "collapse_newlines (?nl # rev s) = rev s" using t collapse_newlines_id [of "rev s"] by simp
  ultimately show ?thesis using nf(1) by (simp add: normalize_def replace_crlf_id replace_cr_id)
qed

section \<open>Normalization, line by line\<close>

text \<open>
  What \<open>normalize\<close> is to compute, said without its passes: a line ends at CR LF, CR or LF; in each line a
  tab is two spaces, and white space at the end goes; empty lines at the end of the text go as well;
  each line left ends in a newline, and a text with no line left is one newline.
\<close>

fun text_lines :: "string \<Rightarrow> string list" where
  "text_lines [] = [[]]"
| "text_lines [c] = (if c = CHR 0x0D \<or> c = CHR 0x0A then [[], []] else [[c]])"
| "text_lines (c # d # s) =
     (if c = CHR 0x0D \<and> d = CHR 0x0A then [] # text_lines s
      else if c = CHR 0x0D \<or> c = CHR 0x0A then [] # text_lines (d # s)
      else (case text_lines (d # s) of [] \<Rightarrow> [[c]] | line # lines \<Rightarrow> (c # line) # lines))"

definition canonical_line :: "string \<Rightarrow> string" where
  "canonical_line line = trim_end (concat (map (\<lambda>c. if c = CHR 0x09 then [CHR '' '', CHR '' ''] else [c]) line))"

definition canonical_lines :: "string \<Rightarrow> string list" where
  "canonical_lines s = rev (dropWhile (\<lambda>line. line = []) (rev (map canonical_line (text_lines s))))"

definition canonical_text :: "string \<Rightarrow> string" where
  "canonical_text s =
     (if canonical_lines s = [] then [CHR 0x0A] else concat (map (\<lambda>line. line @ [CHR 0x0A]) (canonical_lines s)))"

lemma text_lines_eq: "split_on (CHR 0x0A) (replace_cr (replace_crlf s)) = text_lines s"
  by (induction s rule: text_lines.induct) (auto simp: replace_cr_def split: list.splits)

lemma collapse_newlines_replicate:
  "collapse_newlines (replicate k (CHR 0x0A) @ CHR 0x0A # s) = collapse_newlines (CHR 0x0A # s)"
  by (induction k) (simp_all, metis append_Cons collapse_newlines.simps(1) replicate_app_Cons_same)

lemma normalize_eq: "normalize s = canonical_text s"
proof -
  let ?nl = "CHR 0x0A"
  define ls where "ls = map canonical_line (text_lines s)"
  define out where "out ws = concat (map (\<lambda>w. w @ [?nl]) ws)" for ws
  have line: "trim_end (expand_tabs l) = canonical_line l" for l
    by (simp add: canonical_line_def expand_tabs_def)
  have norm: "normalize s = rev (collapse_newlines (rev (out ls)))"
    by (simp add: normalize_def line ls_def out_def text_lines_eq comp_def)
  have free: "?nl \<notin> set w" if "w \<in> set ls" for w
  proof -
    from that obtain l where l: "l \<in> set (text_lines s)" "w = canonical_line l" by (auto simp: ls_def)
    then have "?nl \<notin> set l" using split_on_free [of l ?nl] by (simp flip: text_lines_eq)
    with l(2) expand_tabs_set [of l] trim_end_set [of "expand_tabs l"] show ?thesis by (auto simp flip: line)
  qed
  define kept where "kept = canonical_lines s"
  have kept: "kept = rev (dropWhile (\<lambda>line. line = []) (rev ls))"
    by (simp add: kept_def canonical_lines_def ls_def)
  obtain k where k: "ls = kept @ replicate k []"
  proof -
    have "\<forall>w \<in> set (takeWhile (\<lambda>line. line = []) (rev ls)). w = []" by (auto dest: set_takeWhileD)
    then obtain k where "takeWhile (\<lambda>line. line = []) (rev ls) = replicate k []"
      by (metis replicate_eqI)
    with takeWhile_dropWhile_id [of "\<lambda>line. line = []" "rev ls"] have "rev ls = replicate k [] @ rev kept"
      by (simp add: kept)
    then have "ls = kept @ replicate k []" by (metis rev_append rev_replicate rev_rev_ident)
    then show thesis by (rule that)
  qed
  have "out (replicate k []) = replicate k ?nl" by (induction k) (simp_all add: out_def)
  then have out: "out ls = out kept @ replicate k ?nl" by (simp add: k out_def)
  show ?thesis
  proof (cases "kept = []")
    case True
    have "ls \<noteq> []" using split_on_nonempty by (simp add: ls_def flip: text_lines_eq)
    with k True obtain j where "k = Suc j" by (cases k) auto
    with out True have "rev (out ls) = replicate j ?nl @ ?nl # []"
      by (simp add: out_def replicate_append_same)
    then show ?thesis using True collapse_newlines_replicate [of j "[]"] by (simp add: norm canonical_text_def kept_def)
  next
    case False
    then obtain ws w where w: "kept = ws @ [w]" by (metis append_butlast_last_id)
    have "w \<noteq> []"
    proof -
      have "dropWhile (\<lambda>line. line = []) (rev ls) = w # rev ws" using kept w by (metis rev_eq_Cons_iff rev_rev_ident)
      then show ?thesis using hd_dropWhile [of "\<lambda>line. line = []" "rev ls"] by auto
    qed
    moreover have "?nl \<notin> set w" using free k w by simp
    ultimately obtain v c where v: "w = v @ [c]" "c \<noteq> ?nl" by (cases w rule: rev_cases) auto
    have rv: "rev (out kept) = ?nl # c # rev (out ws @ v)" by (simp add: w v out_def)
    then have "rev (out ls) = replicate k ?nl @ ?nl # c # rev (out ws @ v)" by (simp add: out)
    then have "collapse_newlines (rev (out ls)) = rev (out kept)"
      using v(2) by (simp add: collapse_newlines_replicate rv del: rev_append)
    then have "normalize s = out kept" by (simp add: norm)
    then show ?thesis using False by (simp add: canonical_text_def kept_def out_def)
  qed
qed

end
