(* ===== verification/Ill_Lower.thy ===== *)
theory Ill_Lower
  imports Ill_Source Ill_Ast Ill_Diagnostic
begin

text \<open>
  Lowering, \<^verbatim>\<open>lower.rs\<close>: the concrete tree of tree-sitter becomes the syntax tree of \<^verbatim>\<open>ast.rs\<close>, and
  what cannot be lowered becomes a diagnostic. The parser is a parameter; a node carries what the code
  reads of it. A function that takes \<open>&mut self\<close> is a function on the diagnostics collected so far,
  with \<open>None\<close> for a panic; its own \<open>Option\<close> result is the value in the pair.
\<close>

section \<open>Concrete trees\<close>

datatype node =
  Node (nd_kind: string) (nd_start: nat) (nd_end: nat) (nd_named: bool) (nd_error: bool)
    (nd_missing: bool) (nd_children: "(string option \<times> node) list")

definition children :: "node \<Rightarrow> node list" where
  "children n = map snd (nd_children n)"

definition named_children :: "node \<Rightarrow> node list" where
  "named_children n = filter nd_named (children n)"

definition named_child :: "node \<Rightarrow> nat \<Rightarrow> node option" where
  "named_child n i = (let cs = named_children n in if i < length cs then Some (cs ! i) else None)"

definition child_by_field_name :: "node \<Rightarrow> string \<Rightarrow> node option" where
  "child_by_field_name n f = map_option snd (find (\<lambda>(g, _). g = Some f) (nd_children n))"

definition children_by_field_name :: "node \<Rightarrow> string \<Rightarrow> node list" where
  "children_by_field_name n f = map snd (filter (\<lambda>(g, _). g = Some f) (nd_children n))"

text \<open>The weight of a tree, which decreases from a node to its children.\<close>

fun weight :: "node \<Rightarrow> nat" where
  "weight (Node k s e nm er ms cs) = Suc (sum_list (map (\<lambda>(f, c). weight c) cs))"

lemma weight_child: "c \<in> set (children n) \<Longrightarrow> weight c < weight n"
proof (cases n)
  case (Node k s e nm er ms cs)
  assume "c \<in> set (children n)"
  with Node obtain f where "(f, c) \<in> set cs" by (auto simp: children_def)
  then have "weight c \<le> sum_list (map (\<lambda>(f, c). weight c) cs)"
    by (induction cs) auto
  with Node show ?thesis by simp
qed

lemma named_children_subset: "c \<in> set (named_children n) \<Longrightarrow> c \<in> set (children n)"
  by (simp add: named_children_def)

lemma named_child_in: "named_child n i = Some c \<Longrightarrow> c \<in> set (named_children n)"
  by (auto simp: named_child_def Let_def split: if_splits)

lemma child_by_field_name_in: "child_by_field_name n f = Some c \<Longrightarrow> c \<in> set (children n)"
  by (auto simp: child_by_field_name_def children_def find_Some_iff) (metis nth_mem snd_conv image_eqI)

lemma children_by_field_name_in: "c \<in> set (children_by_field_name n f) \<Longrightarrow> c \<in> set (children n)"
  by (auto simp: children_by_field_name_def children_def)

lemmas child_in =
  named_children_subset named_child_in [THEN named_children_subset] child_by_field_name_in
  children_by_field_name_in

lemmas weight_less = child_in [THEN weight_child]

section \<open>The lowering state\<close>

type_synonym 'a lower = "diagnostic list \<Rightarrow> ('a \<times> diagnostic list) option"

definition l_ret :: "'a \<Rightarrow> 'a lower" where
  "l_ret x = (\<lambda>errors. Some (x, errors))"

definition l_panic :: "'a lower" where
  "l_panic = (\<lambda>errors. None)"

definition l_report :: "diagnostic \<Rightarrow> unit lower" where
  "l_report d = (\<lambda>errors. Some ((), errors @ [d]))"

definition l_bind :: "'a lower \<Rightarrow> ('a \<Rightarrow> 'b lower) \<Rightarrow> 'b lower" where
  "l_bind m f = (\<lambda>errors. case m errors of None \<Rightarrow> None | Some (x, errors') \<Rightarrow> f x errors')"

text \<open>\<open>o?\<close> and \<open>o.and_then(f)\<close> on an \<open>Option\<close>, and \<open>m?\<close> on a call that returns one.\<close>

definition l_some :: "'a option \<Rightarrow> ('a \<Rightarrow> 'b option lower) \<Rightarrow> 'b option lower" where
  "l_some x f = (case x of None \<Rightarrow> l_ret None | Some a \<Rightarrow> f a)"

definition l_opt :: "'a option lower \<Rightarrow> ('a \<Rightarrow> 'b option lower) \<Rightarrow> 'b option lower" where
  "l_opt m f = l_bind m (\<lambda>x. l_some x f)"

text \<open>\<open>for x in xs { if let Some(y) = f(x) { out.push(y) } }\<close>.\<close>

fun l_collect :: "('a \<Rightarrow> 'b option lower) \<Rightarrow> 'a list \<Rightarrow> 'b list lower" where
  "l_collect f [] = l_ret []"
| "l_collect f (x # xs) =
     l_bind (f x) (\<lambda>y. l_bind (l_collect f xs) (\<lambda>ys.
       l_ret (case y of None \<Rightarrow> ys | Some b \<Rightarrow> b # ys)))"

fun l_fold :: "('a \<Rightarrow> 's \<Rightarrow> 's lower) \<Rightarrow> 'a list \<Rightarrow> 's \<Rightarrow> 's lower" where
  "l_fold f [] s = l_ret s"
| "l_fold f (x # xs) s = l_bind (f x s) (l_fold f xs)"

lemma l_bind_cong [fundef_cong]:
  "m = m' \<Longrightarrow> (\<And>x. f x = g x) \<Longrightarrow> l_bind m f = l_bind m' g"
  by (metis ext)

lemma l_some_cong [fundef_cong]:
  "x = y \<Longrightarrow> (\<And>a. y = Some a \<Longrightarrow> f a = g a) \<Longrightarrow> l_some x f = l_some y g"
  by (cases y) (auto simp: l_some_def)

lemma l_opt_cong [fundef_cong]:
  "m = m' \<Longrightarrow> (\<And>x. f x = g x) \<Longrightarrow> l_opt m f = l_opt m' g"
  by (metis ext)

lemma l_collect_cong [fundef_cong]:
  "xs = ys \<Longrightarrow> (\<And>x. x \<in> set ys \<Longrightarrow> f x = g x) \<Longrightarrow> l_collect f xs = l_collect g ys"
  by (induction xs arbitrary: ys) auto

section \<open>Helpers\<close>

text \<open>
  \<open>text\<close> and \<open>span\<close>. The parser keeps every node inside the source, so the slice of \<open>utf8_text\<close> is in
  range; a slice that is not UTF-8 becomes the empty text.
\<close>

definition node_text :: "string \<Rightarrow> node \<Rightarrow> string" where
  "node_text src n =
     (let s = take (nd_end n - nd_start n) (drop (nd_start n) src)
      in if utf8_valid (as_bytes s) then s else [])"

definition node_span :: "node \<Rightarrow> span" where
  "node_span n = \<lparr>span_start = nd_start n, span_end = nd_end n\<rparr>"

definition ident_from_node :: "string \<Rightarrow> node \<Rightarrow> ident" where
  "ident_from_node src n = \<lparr>ident_name = node_text src n, ident_span = node_span n\<rparr>"

definition lower_ident_field :: "string \<Rightarrow> node \<Rightarrow> string \<Rightarrow> ident option lower" where
  "lower_ident_field src n f =
     (case child_by_field_name n f of
        Some c \<Rightarrow> l_ret (Some (ident_from_node src c))
      | None \<Rightarrow>
          l_bind (l_report (diag_error (node_span n) MissingField
                    (''`'' @ nd_kind n @ ''` is missing required `'' @ f @ ''`'')))
            (\<lambda>_. l_ret None))"

definition lower_ident_from_first_child :: "string \<Rightarrow> node \<Rightarrow> ident option" where
  "lower_ident_from_first_child src n = map_option (ident_from_node src) (named_child n 0)"

text \<open>A node that is not an error node itself is reported as unexpected.\<close>

definition report_unexpected :: "node \<Rightarrow> string \<Rightarrow> unit lower" where
  "report_unexpected n msg =
     (if nd_error n \<or> nd_missing n then l_ret ()
      else l_report (diag_error (node_span n) UnexpectedNode msg))"

text \<open>\<open>&raw[1..raw.len() - 1]\<close>; \<open>raw.len() - 1\<close> underflows on an empty text and panics as well.\<close>

definition strip_quotes :: "string \<Rightarrow> string option" where
  "strip_quotes raw = (if raw = [] then None else str_slice raw 1 (length raw - 1))"

definition extract_string_text :: "string \<Rightarrow> node \<Rightarrow> string option" where
  "extract_string_text src n =
     (case named_child n 0 of
        None \<Rightarrow> Some []
      | Some inner \<Rightarrow>
          if nd_kind inner = ''double_quoted_string'' then
            Some (concat (map (node_text src)
              (filter (\<lambda>c. nd_kind c = ''string_content'') (named_children inner))))
          else if nd_kind inner = ''single_quoted_string'' then strip_quotes (node_text src inner)
          else Some [])"

section \<open>Syntax errors\<close>

text \<open>\<open>error_diagnostic\<close>; the kind of the parent is the empty string at the root.\<close>

definition error_diagnostic :: "string \<Rightarrow> string \<Rightarrow> node \<Rightarrow> diagnostic" where
  "error_diagnostic src parent_kind n =
     (let trimmed = trim (node_text src n);
          preview = take_chars 40 trimmed;
          suffix = if length preview < length trimmed then [CHR 0xE2, CHR 0x80, CHR 0xA6] else [];
          message =
            (if trimmed = [] then
               (if parent_kind = [] \<or> parent_kind = ''source_file'' then ''unexpected input here''
                else ''unexpected input inside `'' @ parent_kind @ ''`'')
             else ''unexpected `'' @ preview @ suffix @ ''`'');
          diag = diag_error (node_span n) ParseError message
      in if parent_kind \<noteq> [] \<and> parent_kind \<noteq> ''source_file''
         then with_note diag (''while parsing a `'' @ parent_kind @ ''`'') else diag)"

fun collect_errors :: "string \<Rightarrow> string \<Rightarrow> node \<Rightarrow> diagnostic list" where
  "collect_errors src parent_kind (Node k s e nm er ms cs) =
     (let n = Node k s e nm er ms cs in
      if ms then
        [diag_error (node_span n) MissingToken
           (if k = [] then ''missing token here'' else ''missing `'' @ k @ ''` here'')]
      else if er then [error_diagnostic src parent_kind n]
      else concat (map (\<lambda>(f, c). collect_errors src k c) cs))"

section \<open>Expressions and strings\<close>

definition unescape_fragment :: "node \<Rightarrow> string_fragment \<Rightarrow> string_fragment option lower" where
  "unescape_fragment n frag =
     (case frag of
        Text t \<Rightarrow>
          (case unescape t of
             Inr s \<Rightarrow> l_ret (Some (Text s))
           | Inl message \<Rightarrow>
               l_bind (l_report (diag_error (node_span n) InvalidEscape message))
                 (\<lambda>_. l_ret (Some (Text t))))
      | Interpolation e \<Rightarrow> l_ret (Some (Interpolation e)))"

definition lower_number :: "string \<Rightarrow> node \<Rightarrow> expr option lower" where
  "lower_number src n =
     (case parse_i64 (node_text src n) of
        Some k \<Rightarrow> l_ret (Some (ENumber k))
      | None \<Rightarrow>
          l_bind (l_report (diag_error (node_span n) InvalidLiteral
                    (''`'' @ node_text src n @ ''` is not a valid integer'')))
            (\<lambda>_. l_ret None))"

definition lower_single_quoted :: "string \<Rightarrow> node \<Rightarrow> node \<Rightarrow> expr option lower" where
  "lower_single_quoted src n inner =
     (case strip_quotes (node_text src inner) of
        None \<Rightarrow> l_panic
      | Some content \<Rightarrow> l_ret (Some (EStringLit (StringLit [Text content] (node_span n)))))"

function
    lower_expression :: "string \<Rightarrow> node \<Rightarrow> expr option lower"
and lower_primary :: "string \<Rightarrow> node \<Rightarrow> expr option lower"
and lower_member_expression :: "string \<Rightarrow> node \<Rightarrow> expr option lower"
and lower_index_expression :: "string \<Rightarrow> node \<Rightarrow> expr option lower"
and lower_array :: "string \<Rightarrow> node \<Rightarrow> expr option lower"
and lower_string :: "string \<Rightarrow> node \<Rightarrow> expr option lower"
and lower_string_fragments :: "string \<Rightarrow> node \<Rightarrow> string_fragment list lower"
and collect_fragments :: "string \<Rightarrow> node \<Rightarrow> string \<Rightarrow> string_fragment list lower"
and lower_squiggle :: "string \<Rightarrow> node \<Rightarrow> expr option lower"
where
  "lower_expression src n =
     (if nd_kind n = ''primary_expression'' then l_some (named_child n 0) (\<lambda>c. lower_primary src c)
      else if nd_kind n = ''member_expression'' then lower_member_expression src n
      else if nd_kind n = ''index_expression'' then lower_index_expression src n
      else if nd_kind n \<in> {''identifier'', ''string'', ''number'', ''boolean'', ''null'', ''atom'',
                            ''array'', ''squiggle''}
           then lower_primary src n
      else l_bind (report_unexpected n (''expected an expression, found `'' @ nd_kind n @ ''`''))
             (\<lambda>_. l_ret None))"
| "lower_primary src n =
     (if nd_kind n = ''identifier'' then l_ret (Some (EIdent (ident_from_node src n)))
      else if nd_kind n = ''number'' then lower_number src n
      else if nd_kind n = ''boolean'' then l_ret (Some (EBool (node_text src n = ''true'')))
      else if nd_kind n = ''null'' then l_ret (Some ENull)
      else if nd_kind n = ''atom'' then
        l_some (named_child n 0) (\<lambda>c. l_ret (Some (EAtom (ident_from_node src c))))
      else if nd_kind n = ''string'' then lower_string src n
      else if nd_kind n = ''squiggle'' then lower_squiggle src n
      else if nd_kind n = ''array'' then lower_array src n
      else l_bind (report_unexpected n (''expected a value, found `'' @ nd_kind n @ ''`''))
             (\<lambda>_. l_ret None))"
| "lower_member_expression src n =
     l_some (child_by_field_name n ''object'') (\<lambda>object_node.
       l_opt (lower_ident_field src n ''property'') (\<lambda>property.
         l_opt (lower_expression src object_node) (\<lambda>object.
           l_ret (Some (EMemberAccess object property (node_span n))))))"
| "lower_index_expression src n =
     l_some (child_by_field_name n ''object'') (\<lambda>object_node.
       l_opt (lower_expression src object_node) (\<lambda>object.
         l_bind (l_collect (\<lambda>c. lower_expression src c) (children_by_field_name n ''index'')) (\<lambda>indices.
           l_ret (Some (EIndex object indices (node_span n))))))"
| "lower_array src n =
     l_bind
       (l_collect (\<lambda>c.
          if nd_kind c \<in> {''primary_expression'', ''member_expression'', ''index_expression''}
          then lower_expression src c else l_ret None) (named_children n))
       (\<lambda>elements. l_ret (Some (EArray elements)))"
| "lower_string src n =
     l_some (named_child n 0) (\<lambda>inner.
       if nd_kind inner = ''double_quoted_string'' then
         l_bind (lower_string_fragments src inner) (\<lambda>fragments.
           l_ret (Some (EStringLit (StringLit fragments (node_span n)))))
       else if nd_kind inner = ''single_quoted_string'' then lower_single_quoted src n inner
       else l_ret None)"
| "lower_string_fragments src n =
     l_bind (collect_fragments src n ''string_content'') (l_collect (unescape_fragment n))"
| "collect_fragments src n text_kind =
     l_collect (\<lambda>c.
       if nd_kind c = text_kind then l_ret (Some (Text (node_text src c)))
       else if nd_kind c = ''interpolation'' then
         l_some (named_child c 0) (\<lambda>inner.
           l_opt (lower_expression src inner) (\<lambda>e. l_ret (Some (Interpolation e))))
       else l_ret None) (named_children n)"
| "lower_squiggle src n =
     l_some (child_by_field_name n ''name'') (\<lambda>name_node.
       l_bind (collect_fragments src n ''squiggle_content'') (\<lambda>fragments.
         l_ret (Some (ESquiggle (Squiggle (ident_from_node src name_node) fragments (node_span n))))))"
  by pat_completeness auto
termination
  by (relation "measure (case_sum
        (case_sum (case_sum (\<lambda>(_, n). 10 * weight n + 5) (\<lambda>(_, n). 10 * weight n + 4))
                  (case_sum (\<lambda>(_, n). 10 * weight n + 3) (\<lambda>(_, n). 10 * weight n + 3)))
        (case_sum (case_sum (\<lambda>(_, n). 10 * weight n + 3) (\<lambda>(_, n). 10 * weight n + 3))
                  (case_sum (\<lambda>(_, n). 10 * weight n + 2)
                            (case_sum (\<lambda>(_, n, _). 10 * weight n + 1) (\<lambda>(_, n). 10 * weight n + 3)))))")
    (auto dest!: weight_less)

declare lower_expression.simps [simp del] lower_primary.simps [simp del]
  lower_member_expression.simps [simp del] lower_index_expression.simps [simp del]
  lower_array.simps [simp del] lower_string.simps [simp del] lower_string_fragments.simps [simp del]
  collect_fragments.simps [simp del] lower_squiggle.simps [simp del]

lemmas lower_simps =
  lower_expression.simps lower_primary.simps lower_member_expression.simps
  lower_index_expression.simps lower_array.simps lower_string.simps lower_string_fragments.simps
  collect_fragments.simps lower_squiggle.simps

section \<open>Annotations and keyword arguments\<close>

definition annotation_value :: "string \<Rightarrow> node \<Rightarrow> string option \<Rightarrow> string option lower" where
  "annotation_value src n =
     l_fold (\<lambda>inner value.
       if nd_kind inner = ''identifier'' then l_ret (Some (node_text src inner))
       else if nd_kind inner = ''string'' then
         (case extract_string_text src inner of None \<Rightarrow> l_panic | Some t \<Rightarrow> l_ret (Some t))
       else l_ret value) (named_children n)"

definition lower_annotation :: "string \<Rightarrow> node \<Rightarrow> annotation option lower" where
  "lower_annotation src n =
     l_bind
       (l_fold (\<lambda>c (name, value).
          if nd_kind c = ''annotation_name'' then l_ret (Some (ident_from_node src c), value)
          else if nd_kind c = ''annotation_value'' then
            l_bind (annotation_value src c value) (\<lambda>value'. l_ret (name, value'))
          else l_ret (name, value)) (named_children n) (None, None))
       (\<lambda>(name, value). l_ret (map_option (\<lambda>i. \<lparr>ann_name = i, ann_value = value, ann_span = node_span n\<rparr>) name))"

definition lower_keyword_pair :: "string \<Rightarrow> node \<Rightarrow> (expr \<times> expr) option lower" where
  "lower_keyword_pair src n =
     l_some (child_by_field_name n ''key'') (\<lambda>key_node.
       l_some (child_by_field_name n ''value'') (\<lambda>value_node.
         l_opt (lower_expression src key_node) (\<lambda>key.
           l_opt (lower_expression src value_node) (\<lambda>v. l_ret (Some (key, v))))))"

definition lower_keyword_arg :: "string \<Rightarrow> node \<Rightarrow> keyword_arg option lower" where
  "lower_keyword_arg src n =
     l_opt (lower_ident_field src n ''key'') (\<lambda>key.
       l_bind
         (l_collect (\<lambda>c. if nd_kind c = ''keyword_pair'' then lower_keyword_pair src c else l_ret None)
            (named_children n))
         (\<lambda>pairs.
            l_opt
              (if pairs \<noteq> [] then l_ret (Some (KwMap pairs))
               else l_some (child_by_field_name n ''value'') (\<lambda>value_node.
                      l_opt (lower_expression src value_node) (\<lambda>e. l_ret (Some (KwExpr e)))))
              (\<lambda>v. l_ret (Some \<lparr>kw_key = key, kw_value = v, kw_span = node_span n\<rparr>))))"

definition collect_keyword_args :: "string \<Rightarrow> node \<Rightarrow> keyword_arg list lower" where
  "collect_keyword_args src n =
     l_collect (\<lambda>c. if nd_kind c = ''keyword_arg'' then lower_keyword_arg src c else l_ret None)
       (named_children n)"

section \<open>Actor declarations\<close>

definition lower_var_declaration :: "string \<Rightarrow> node \<Rightarrow> var_declaration option lower" where
  "lower_var_declaration src n =
     l_opt (lower_ident_field src n ''name'') (\<lambda>name.
       l_bind
         (l_collect (\<lambda>c. if nd_kind c = ''annotation'' then lower_annotation src c else l_ret None)
            (named_children n))
         (\<lambda>annotations.
            l_bind (l_some (child_by_field_name n ''default'') (lower_expression src)) (\<lambda>dflt.
              l_ret (Some \<lparr>var_annotations = annotations, var_name = name, var_default = dflt,
                           var_span = node_span n\<rparr>))))"

definition lower_vars_block :: "string \<Rightarrow> node \<Rightarrow> var_declaration list lower" where
  "lower_vars_block src n =
     l_collect (\<lambda>c. if nd_kind c = ''var_declaration'' then lower_var_declaration src c else l_ret None)
       (named_children n)"

text \<open>The two vectors an actor's body fills.\<close>

type_synonym body_parts = "keyword_arg list \<times> var_declaration list"

definition lower_actor_property :: "string \<Rightarrow> node \<Rightarrow> body_parts \<Rightarrow> body_parts lower" where
  "lower_actor_property src n parts =
     (case find (\<lambda>c. nd_kind c = ''vars_block'') (named_children n) of
        Some c \<Rightarrow> l_bind (lower_vars_block src c) (\<lambda>vs. l_ret (fst parts, snd parts @ vs))
      | None \<Rightarrow>
          l_bind
            (l_opt (lower_ident_field src n ''key'') (\<lambda>key.
               l_some (child_by_field_name n ''value'') (\<lambda>value_node.
                 l_opt (lower_expression src value_node) (\<lambda>v.
                   l_ret (Some \<lparr>kw_key = key, kw_value = KwExpr v, kw_span = node_span n\<rparr>)))))
            (\<lambda>kw. l_ret (case kw of None \<Rightarrow> parts | Some k \<Rightarrow> (fst parts @ [k], snd parts))))"

definition lower_actor_body :: "string \<Rightarrow> node \<Rightarrow> body_parts \<Rightarrow> body_parts lower" where
  "lower_actor_body src n =
     l_fold (\<lambda>c parts. if nd_kind c = ''actor_property'' then lower_actor_property src c parts
                      else l_ret parts) (named_children n)"

definition lower_actor_declaration :: "string \<Rightarrow> node \<Rightarrow> actor_declaration option lower" where
  "lower_actor_declaration src n =
     l_opt (lower_ident_field src n ''name'') (\<lambda>name.
       l_some (child_by_field_name n ''type'') (\<lambda>type_node.
         l_some (lower_ident_from_first_child src type_node) (\<lambda>ty.
           l_bind
             (l_fold (\<lambda>c parts. if nd_kind c = ''actor_body'' then lower_actor_body src c parts
                               else l_ret parts) (named_children n) ([], []))
             (\<lambda>(kws, vars).
                l_ret (Some \<lparr>decl_name = name, decl_actor_type = ty, decl_keyword_args = kws,
                             decl_vars = vars, decl_span = node_span n\<rparr>)))))"

section \<open>Statements\<close>

definition lower_command :: "string \<Rightarrow> node \<Rightarrow> command option lower" where
  "lower_command src n =
     l_opt (lower_ident_field src n ''name'') (\<lambda>name.
       l_bind
         (l_fold (\<lambda>c (ann, pos, kws).
            if nd_kind c = ''annotation'' then
              l_bind (lower_annotation src c) (\<lambda>ann'. l_ret (ann', pos, kws))
            else if nd_kind c \<in> {''keyword_block'', ''inline_keyword_args''} then
              l_bind (collect_keyword_args src c) (\<lambda>kws'. l_ret (ann, pos, kws @ kws'))
            else if nd_kind c \<in> {''primary_expression'', ''member_expression'', ''index_expression''} then
              l_bind (lower_expression src c) (\<lambda>e.
                l_ret (ann, (case e of None \<Rightarrow> pos | Some v \<Rightarrow> pos @ [v]), kws))
            else l_ret (ann, pos, kws)) (named_children n) (None, [], []))
         (\<lambda>(ann, pos, kws).
            l_ret (Some \<lparr>cmd_annotation = ann, cmd_name = name, cmd_positional_args = pos,
                         cmd_keyword_args = kws, cmd_span = node_span n\<rparr>)))"

definition comparison_op_of :: "string \<Rightarrow> comparison_op option" where
  "comparison_op_of t =
     map_of [(''=='', OpEq), (''!='', OpNotEq), (''>'', OpGt), (''>='', OpGte), (''<'', OpLt),
             (''<='', OpLte), (''contains'', OpContains), (''!contains'', OpNotContains),
             (''matches'', OpMatches), (''!matches'', OpNotMatches)] t"

definition lower_comparison_op :: "string \<Rightarrow> node \<Rightarrow> comparison_op option lower" where
  "lower_comparison_op src n =
     (case comparison_op_of (node_text src n) of
        Some op \<Rightarrow> l_ret (Some op)
      | None \<Rightarrow>
          l_bind (l_report (diag_error (node_span n) InvalidLiteral
                    (''`'' @ node_text src n @ ''` is not a valid comparison operator'')))
            (\<lambda>_. l_ret None))"

definition lower_assert :: "string \<Rightarrow> node \<Rightarrow> assert_stmt option lower" where
  "lower_assert src n =
     l_some (child_by_field_name n ''left'') (\<lambda>left_node.
       l_opt (lower_expression src left_node) (\<lambda>left.
         l_bind (l_some (child_by_field_name n ''operator'') (lower_comparison_op src)) (\<lambda>op.
           l_bind (l_some (child_by_field_name n ''right'') (lower_expression src)) (\<lambda>right.
             l_bind (l_some (find (\<lambda>c. nd_kind c = ''annotation'') (named_children n))
                       (lower_annotation src)) (\<lambda>ann.
               l_ret (Some \<lparr>as_annotation = ann, as_left = left, as_op = op, as_right = right,
                            as_span = node_span n\<rparr>))))))"

definition lower_parse_expression :: "string \<Rightarrow> node \<Rightarrow> let_value option lower" where
  "lower_parse_expression src n =
     l_some (child_by_field_name n ''source'') (\<lambda>source_node.
       l_opt (lower_ident_field src n ''format'') (\<lambda>fmt.
         l_opt (lower_expression src source_node) (\<lambda>e. l_ret (Some (LetParse e fmt)))))"

definition lower_let :: "string \<Rightarrow> node \<Rightarrow> let_stmt option lower" where
  "lower_let src n =
     l_opt (lower_ident_field src n ''name'') (\<lambda>name.
       l_some (child_by_field_name n ''value'') (\<lambda>value_node.
         l_opt
           (if nd_kind value_node = ''parse_expression'' then lower_parse_expression src value_node
            else l_opt (lower_expression src value_node) (\<lambda>e. l_ret (Some (LetExpr e))))
           (\<lambda>v. l_ret (Some \<lparr>let_name = name, let_val = v, let_span = node_span n\<rparr>))))"

definition lower_assignment :: "string \<Rightarrow> node \<Rightarrow> assignment option lower" where
  "lower_assignment src n =
     l_some (child_by_field_name n ''target'') (\<lambda>target_node.
       l_opt (lower_expression src target_node) (\<lambda>target.
         l_some (child_by_field_name n ''value'') (\<lambda>value_node.
           l_opt (lower_expression src value_node) (\<lambda>v.
             l_ret (Some \<lparr>asg_target = target, asg_value = v, asg_span = node_span n\<rparr>)))))"

definition l_map :: "('a \<Rightarrow> 'b) \<Rightarrow> 'a option lower \<Rightarrow> 'b option lower" where
  "l_map f m = l_opt m (\<lambda>x. l_ret (Some (f x)))"

definition lower_statement :: "string \<Rightarrow> node \<Rightarrow> statement option lower" where
  "lower_statement src c =
     (if nd_kind c = ''command'' then l_map SCommand (lower_command src c)
      else if nd_kind c = ''assert_statement'' then l_map SAssert (lower_assert src c)
      else if nd_kind c = ''let_statement'' then l_map SLet (lower_let src c)
      else if nd_kind c = ''assignment_statement'' then l_map SAssignment (lower_assignment src c)
      else if nd_kind c \<in> {''INDENT'', ''DEDENT'', ''NEWLINE'', ''comment''} then l_ret None
      else l_bind (report_unexpected c (''unexpected `'' @ nd_kind c @ ''` inside `as` block''))
             (\<lambda>_. l_ret None))"

definition lower_block :: "string \<Rightarrow> node \<Rightarrow> statement list lower" where
  "lower_block src n = l_collect (lower_statement src) (named_children n)"

definition lower_as_block :: "string \<Rightarrow> node \<Rightarrow> as_block option lower" where
  "lower_as_block src n =
     l_opt (lower_ident_field src n ''actor'') (\<lambda>actor.
       l_bind
         (l_fold (\<lambda>c body. if nd_kind c = ''block''
                           then l_bind (lower_block src c) (\<lambda>stmts. l_ret (body @ stmts))
                           else l_ret body) (named_children n) [])
         (\<lambda>body. l_ret (Some \<lparr>blk_actor = actor, blk_body = body, blk_span = node_span n\<rparr>)))"

section \<open>Source files\<close>

definition lower_item :: "string \<Rightarrow> node \<Rightarrow> top_level option lower" where
  "lower_item src c =
     (if nd_kind c = ''actor_declaration'' then l_map TActorDeclaration (lower_actor_declaration src c)
      else if nd_kind c = ''as_block'' then l_map TAsBlock (lower_as_block src c)
      else if nd_kind c \<in> {''NEWLINE'', ''comment''} then l_ret None
      else l_bind (report_unexpected c (''unexpected `'' @ nd_kind c @ ''` at top level''))
             (\<lambda>_. l_ret None))"

definition lower_source_file :: "string \<Rightarrow> node \<Rightarrow> source_file lower" where
  "lower_source_file src n =
     l_bind (l_collect (lower_item src) (named_children n)) (\<lambda>items. l_ret \<lparr>src_items = items\<rparr>)"

text \<open>\<open>lower\<close>; the parser reads the normalized text, and so does every span.\<close>

definition lower :: "(string \<Rightarrow> node) \<Rightarrow> string \<Rightarrow> (diagnostic list + source_file) option" where
  "lower parse source =
     (let src = normalize source; root = parse src in
      case lower_source_file src root (collect_errors src [] root) of
        None \<Rightarrow> None
      | Some (file, errors) \<Rightarrow> Some (if errors = [] then Inr file else Inl errors))"

end
