(* ===== verification/Ill_Lower_Facts.thy ===== *)
theory Ill_Lower_Facts
  imports Ill_Lower Ill_Eval
begin

text \<open>
  What lowering guarantees on any tree: every diagnostic it adds is an error at a node of the tree, and
  every literal it produces is in range.
\<close>

section \<open>Triples for the lowering state\<close>

text \<open>
  \<open>keeps D P m\<close>: unless it panics, \<open>m\<close> only appends diagnostics that satisfy \<open>D\<close> and answers a value
  that satisfies \<open>P\<close>.
\<close>

definition keeps :: "(diagnostic \<Rightarrow> bool) \<Rightarrow> ('a \<Rightarrow> bool) \<Rightarrow> 'a lower \<Rightarrow> bool" where
  "keeps D P m \<longleftrightarrow>
     (\<forall>errors x errors'. m errors = Some (x, errors') \<longrightarrow>
        P x \<and> (\<exists>new. errors' = errors @ new \<and> list_all D new))"

lemma keeps_ret: "P x \<Longrightarrow> keeps D P (l_ret x)"
  by (simp add: keeps_def l_ret_def)

lemma keeps_panic: "keeps D P l_panic"
  by (simp add: keeps_def l_panic_def)

lemma keeps_report: "D d \<Longrightarrow> P () \<Longrightarrow> keeps D P (l_report d)"
  by (auto simp: keeps_def l_report_def)

lemma keeps_bind:
  assumes "keeps D Q m" and "\<And>x. Q x \<Longrightarrow> keeps D P (f x)"
  shows "keeps D P (l_bind m f)"
  unfolding keeps_def
proof (intro allI impI)
  fix errors y errors'
  assume "l_bind m f errors = Some (y, errors')"
  then obtain x mid where m: "m errors = Some (x, mid)" and f: "f x mid = Some (y, errors')"
    by (auto simp: l_bind_def split: option.splits)
  from assms(1) m obtain new where new: "Q x" "mid = errors @ new" "list_all D new"
    unfolding keeps_def by blast
  from assms(2) [OF new(1)] f obtain new' where "P y" "errors' = mid @ new'" "list_all D new'"
    unfolding keeps_def by blast
  with new show "P y \<and> (\<exists>n. errors' = errors @ n \<and> list_all D n)" by auto
qed

lemma keeps_mono:
  "keeps D P m \<Longrightarrow> (\<And>d. D d \<Longrightarrow> D' d) \<Longrightarrow> (\<And>x. P x \<Longrightarrow> P' x) \<Longrightarrow> keeps D' P' m"
  unfolding keeps_def by (blast intro: list.pred_mono_strong)

lemma keeps_some:
  "(\<And>a. x = Some a \<Longrightarrow> keeps D (pred_option P) (f a)) \<Longrightarrow> keeps D (pred_option P) (l_some x f)"
  by (auto simp: l_some_def intro: keeps_ret split: option.splits)

lemma keeps_opt:
  "keeps D (pred_option Q) m \<Longrightarrow> (\<And>a. Q a \<Longrightarrow> keeps D (pred_option P) (f a)) \<Longrightarrow>
   keeps D (pred_option P) (l_opt m f)"
  unfolding l_opt_def by (erule keeps_bind) (auto simp: l_some_def intro: keeps_ret split: option.splits)

lemma keeps_collect:
  "(\<And>x. x \<in> set xs \<Longrightarrow> keeps D (pred_option P) (f x)) \<Longrightarrow> keeps D (list_all P) (l_collect f xs)"
proof (induction xs)
  case (Cons x xs)
  then show ?case
    by (auto intro!: keeps_ret keeps_bind [where Q = "pred_option P"] keeps_bind [where Q = "list_all P"]
        split: option.splits)
qed (simp add: keeps_ret)

lemma keeps_fold:
  "I s \<Longrightarrow> (\<And>x s. x \<in> set xs \<Longrightarrow> I s \<Longrightarrow> keeps D I (f x s)) \<Longrightarrow> keeps D I (l_fold f xs s)"
proof (induction xs arbitrary: s)
  case (Cons x xs)
  then show ?case by (auto intro!: keeps_bind [where Q = I])
qed (simp add: keeps_ret)

lemma keeps_if: "(b \<Longrightarrow> keeps D P m) \<Longrightarrow> (\<not> b \<Longrightarrow> keeps D P m') \<Longrightarrow> keeps D P (if b then m else m')"
  by simp

section \<open>Where diagnostics point\<close>

fun nodes :: "node \<Rightarrow> node list" where
  "nodes (Node k s e nm er ms cs) = Node k s e nm er ms cs # concat (map (\<lambda>(f, c). nodes c) cs)"

lemma nodes_self [simp]: "n \<in> set (nodes n)"
  by (cases n) simp

lemma nodes_child: "c \<in> set (children n) \<Longrightarrow> set (nodes c) \<subseteq> set (nodes n)"
  by (cases n) (auto simp: children_def)

definition at_node :: "node \<Rightarrow> diagnostic \<Rightarrow> bool" where
  "at_node n d \<longleftrightarrow>
     diag_severity d = SevError \<and>
     diag_code d \<in> {ParseError, MissingToken, UnexpectedNode, MissingField, InvalidLiteral, InvalidEscape} \<and>
     diag_span d \<in> node_span ` set (nodes n)"

lemma at_node_self:
  "c \<in> {ParseError, MissingToken, UnexpectedNode, MissingField, InvalidLiteral, InvalidEscape} \<Longrightarrow>
   at_node n (diag_error (node_span n) c msg)"
  by (auto simp: at_node_def)

lemma at_node_child: "c \<in> set (children n) \<Longrightarrow> at_node c d \<Longrightarrow> at_node n d"
  using nodes_child by (auto simp: at_node_def)

lemma collect_errors_at: "list_all (at_node n) (collect_errors src pk n)"
proof (induction src pk n rule: collect_errors.induct)
  case (1 src pk k s e nm er ms cs)
  let ?n = "Node k s e nm er ms cs"
  have "at_node ?n (error_diagnostic src pk ?n)"
    by (auto simp: error_diagnostic_def Let_def with_note_def at_node_def)
  moreover have "at_node ?n d" if "(f, c) \<in> set cs" "at_node c d" for f c d
    by (rule at_node_child [OF _ that(2)]) (use that(1) in \<open>force simp: children_def\<close>)
  moreover have "list_all (at_node c) (collect_errors src k c)" if "(f, c) \<in> set cs" "\<not> ms" "\<not> er" for f c
    using 1 [OF refl that(2,3,1)] by simp
  ultimately show ?case
    by (cases ms; cases er) (auto simp: at_node_self list_all_iff Let_def)
qed

text \<open>Lowering starts from no diagnostic exactly when the parser met no error.\<close>

lemma collect_errors_Nil_iff:
  "collect_errors src pk n = [] \<longleftrightarrow> list_all (\<lambda>m. \<not> nd_error m \<and> \<not> nd_missing m) (nodes n)"
proof (induction src pk n rule: collect_errors.induct)
  case (1 src pk k s e nm er ms cs)
  show ?case
  proof (cases "ms \<or> er")
    case False
    with 1 have "collect_errors src k c = [] \<longleftrightarrow> list_all (\<lambda>m. \<not> nd_error m \<and> \<not> nd_missing m) (nodes c)"
      if "(f, c) \<in> set cs" for f c
      using that by blast
    with False show ?thesis by (fastforce simp: list_all_iff)
  qed (auto simp: Let_def)
qed

section \<open>Literals\<close>

definition wf_expr :: "expr \<Rightarrow> bool" where
  "wf_expr e \<longleftrightarrow> list_all wf_node (subexprs e)"

definition wf_frag :: "string_fragment \<Rightarrow> bool" where
  "wf_frag f = (case f of Text t \<Rightarrow> utf8_valid (as_bytes t) | Interpolation e \<Rightarrow> wf_expr e)"

lemma wf_frags: "list_all wf_frag fs \<longleftrightarrow> list_all wf_text fs \<and> list_all wf_node (subexprs_frags fs)"
proof (induction fs)
  case (Cons f fs)
  then show ?case by (cases f) (auto simp: wf_frag_def wf_expr_def)
qed simp

lemma wf_exprs: "list_all wf_expr es \<longleftrightarrow> list_all wf_node (subexprs_list es)"
  by (induction es) (auto simp: wf_expr_def)

lemma wf_expr_simps [simp]:
  "wf_expr (EIdent i)" "wf_expr (EBool b)" "wf_expr ENull"
  "wf_expr (ENumber k) = in_i64 k"
  "wf_expr (EAtom i) = utf8_valid (as_bytes (ident_name i))"
  "wf_expr (EArray es) = list_all wf_expr es"
  "wf_expr (EMemberAccess obj p sp) = wf_expr obj"
  "wf_expr (EIndex obj es sp) = (wf_expr obj \<and> list_all wf_expr es)"
  "wf_expr (EStringLit (StringLit fs sp)) = list_all wf_frag fs"
  "wf_expr (ESquiggle (Squiggle i fs sp)) = list_all wf_frag fs"
  by (auto simp: wf_expr_def wf_frags wf_exprs)

lemma wf_frag_simps [simp]:
  "wf_frag (Text t) = utf8_valid (as_bytes t)" "wf_frag (Interpolation e) = wf_expr e"
  by (simp_all add: wf_frag_def)

lemma node_text_valid [simp]: "utf8_valid (as_bytes (node_text src n))"
  by (simp add: node_text_def Let_def as_bytes_def)

lemma strip_quotes_valid:
  "utf8_valid (as_bytes raw) \<Longrightarrow> strip_quotes raw = Some t \<Longrightarrow> utf8_valid (as_bytes t)"
  by (auto simp: strip_quotes_def str_slice_valid split: if_splits)

section \<open>Expressions keep the invariants\<close>

lemma keeps_report_none: "D d \<Longrightarrow> keeps D (pred_option P) (l_bind (l_report d) (\<lambda>_. l_ret None))"
  by (rule keeps_bind [where Q = "\<lambda>_. True"]) (auto intro: keeps_report keeps_ret)

lemma keeps_unexpected:
  "keeps (at_node n) (pred_option P) (l_bind (report_unexpected n msg) (\<lambda>_. l_ret None))"
  by (rule keeps_bind [where Q = "\<lambda>_. True"])
    (auto simp: report_unexpected_def at_node_self intro: keeps_report keeps_ret)

lemma keeps_ident_field: "keeps (at_node n) (pred_option (\<lambda>i. utf8_valid (as_bytes (ident_name i)))) (lower_ident_field src n f)"
  by (auto simp: lower_ident_field_def ident_from_node_def at_node_self
      intro!: keeps_ret keeps_report_none split: option.splits)

lemma keeps_number: "keeps (at_node n) (pred_option wf_expr) (lower_number src n)"
  by (auto simp: lower_number_def at_node_self parse_i64_range intro!: keeps_ret keeps_report_none
      split: option.splits)

lemma keeps_single_quoted: "keeps D (pred_option wf_expr) (lower_single_quoted src n inner)"
  by (auto simp: lower_single_quoted_def dest: strip_quotes_valid [OF node_text_valid]
      intro!: keeps_ret keeps_panic split: option.splits)

lemma keeps_unescape: "wf_frag f \<Longrightarrow> keeps (at_node n) (pred_option wf_frag) (unescape_fragment n f)"
  by (auto simp: unescape_fragment_def at_node_self unescape_valid
      intro!: keeps_ret keeps_report keeps_bind [where Q = "\<lambda>_. True"]
      split: string_fragment.splits sum.splits)

lemma keeps_child: "keeps (at_node c) P m \<Longrightarrow> c \<in> set (children n) \<Longrightarrow> keeps (at_node n) P m"
  by (erule keeps_mono) (auto intro: at_node_child)

lemma keeps_expression:
  "keeps (at_node n) (pred_option wf_expr) (lower_expression src n)"
  "keeps (at_node n) (pred_option wf_expr) (lower_primary src n)"
  "keeps (at_node n) (pred_option wf_expr) (lower_member_expression src n)"
  "keeps (at_node n) (pred_option wf_expr) (lower_index_expression src n)"
  "keeps (at_node n) (pred_option wf_expr) (lower_array src n)"
  "keeps (at_node n) (pred_option wf_expr) (lower_string src n)"
  "keeps (at_node n) (list_all wf_frag) (lower_string_fragments src n)"
  "keeps (at_node n) (list_all wf_frag) (collect_fragments src n k)"
  "keeps (at_node n) (pred_option wf_expr) (lower_squiggle src n)"
proof (induction src n and src n and src n and src n and src n and src n and src n and src n k and src n
    rule: lower_expression_lower_primary_lower_member_expression_lower_index_expression_lower_array_lower_string_lower_string_fragments_collect_fragments_lower_squiggle.induct)
  case (1 src n)
  show ?case
    by (subst lower_expression.simps)
      (use 1 in \<open>auto intro!: keeps_if keeps_some keeps_unexpected intro: keeps_child child_in\<close>)
next
  case (2 src n)
  show ?case
    by (subst lower_primary.simps)
      (use 2 in \<open>auto intro!: keeps_if keeps_some keeps_unexpected keeps_ret keeps_number simp: ident_from_node_def\<close>)
next
  case (3 src n)
  show ?case
    by (subst lower_member_expression.simps)
      (use 3 in \<open>auto intro!: keeps_some keeps_ret keeps_opt [OF keeps_ident_field] keeps_opt [where Q = wf_expr]
        intro: keeps_child child_in\<close>)
next
  case (4 src n)
  show ?case
    by (subst lower_index_expression.simps)
      (use 4 in \<open>auto intro!: keeps_some keeps_ret keeps_opt [where Q = wf_expr]
        keeps_bind [where Q = "list_all wf_expr"] keeps_collect intro: keeps_child child_in\<close>)
next
  case (5 src n)
  have "keeps (at_node n) (pred_option wf_expr) (lower_expression src c)"
    if "c \<in> set (named_children n)"
      "nd_kind c \<in> {''primary_expression'', ''member_expression'', ''index_expression''}" for c
    using "5.IH" [OF that] named_children_subset [OF that(1)] by (rule keeps_child)
  then show ?case
    by (subst lower_array.simps)
      (intro keeps_bind [where Q = "list_all wf_expr"] keeps_collect keeps_if,
        auto intro: keeps_ret)
next
  case (6 src n)
  have "keeps (at_node n) (list_all wf_frag) (lower_string_fragments src c)"
    if "named_child n 0 = Some c" "nd_kind c = ''double_quoted_string''" for c
    using "6.IH" [OF that] child_in(2) [OF that(1)] by (rule keeps_child)
  then show ?case
    by (subst lower_string.simps)
      (intro keeps_some keeps_if keeps_single_quoted keeps_bind [where Q = "list_all wf_frag"],
        auto intro: keeps_ret)
next
  case (7 src n)
  show ?case
    by (subst lower_string_fragments.simps, rule keeps_bind [OF 7])
      (auto intro!: keeps_collect keeps_unescape simp: list_all_iff)
next
  case (8 src n k)
  have "keeps (at_node n) (pred_option wf_expr) (lower_expression src inner)"
    if "c \<in> set (named_children n)" "nd_kind c \<noteq> k" "nd_kind c = ''interpolation''"
      "named_child c 0 = Some inner" for c inner
    using "8.IH" [OF that] child_in(2) [OF that(4)] named_children_subset [OF that(1)]
    by (blast intro: keeps_child)
  then show ?case
    by (subst collect_fragments.simps)
      (intro keeps_collect keeps_if keeps_some keeps_opt [where Q = wf_expr], auto intro: keeps_ret)
next
  case (9 src n)
  then show ?case
    by (subst lower_squiggle.simps)
      (intro keeps_some keeps_bind [where Q = "list_all wf_frag"], auto intro: keeps_ret)
qed

lemmas keeps_subexpression = keeps_expression(1) [THEN keeps_child]

section \<open>Statements, declarations and files keep them\<close>

definition wf_kwvalue :: "keyword_value \<Rightarrow> bool" where
  "wf_kwvalue v = (case v of KwExpr e \<Rightarrow> wf_expr e | KwMap ps \<Rightarrow> list_all (\<lambda>(a, b). wf_expr a \<and> wf_expr b) ps)"

definition wf_kwargs :: "keyword_arg list \<Rightarrow> bool" where
  "wf_kwargs kws = list_all (\<lambda>k. wf_kwvalue (kw_value k)) kws"

definition wf_decl :: "actor_declaration \<Rightarrow> bool" where
  "wf_decl d \<longleftrightarrow>
     wf_kwargs (decl_keyword_args d) \<and> list_all (\<lambda>v. pred_option wf_expr (var_default v)) (decl_vars d)"

definition wf_statement :: "statement \<Rightarrow> bool" where
  "wf_statement s =
     (case s of
        SCommand c \<Rightarrow> list_all wf_expr (cmd_positional_args c) \<and> wf_kwargs (cmd_keyword_args c)
      | SAssert a \<Rightarrow> wf_expr (as_left a) \<and> pred_option wf_expr (as_right a)
      | SLet l \<Rightarrow> (case let_val l of LetExpr e \<Rightarrow> wf_expr e | LetParse e f \<Rightarrow> wf_expr e)
      | SAssignment a \<Rightarrow> wf_expr (asg_target a) \<and> wf_expr (asg_value a))"

definition wf_item :: "top_level \<Rightarrow> bool" where
  "wf_item t =
     (case t of TActorDeclaration d \<Rightarrow> wf_decl d | TAsBlock b \<Rightarrow> list_all wf_statement (blk_body b))"

definition wf_source :: "source_file \<Rightarrow> bool" where
  "wf_source f = list_all wf_item (src_items f)"

lemma keeps_map: "keeps D (pred_option (\<lambda>x. P (f x))) m \<Longrightarrow> keeps D (pred_option P) (l_map f m)"
  unfolding l_map_def by (erule keeps_opt) (simp add: keeps_ret)

lemma keeps_skip: "keeps D (pred_option P) (l_ret None)"
  by (simp add: keeps_ret)

lemma keeps_any_field: "keeps (at_node n) (pred_option (\<lambda>_. True)) (lower_ident_field src n f)"
  by (rule keeps_mono [OF keeps_ident_field]) (auto intro: option.pred_mono_strong)

lemma keeps_annotation: "keeps D (pred_option (\<lambda>_. True)) (lower_annotation src n)"
  unfolding lower_annotation_def annotation_value_def
  by (rule keeps_bind [where Q = "\<lambda>_. True"], rule keeps_fold)
    (auto intro!: keeps_ret keeps_panic keeps_fold keeps_bind [where Q = "\<lambda>_. True"]
      simp: pred_option_def split: option.splits)

lemma keeps_keyword_pair:
  "keeps (at_node n) (pred_option (\<lambda>(a, b). wf_expr a \<and> wf_expr b)) (lower_keyword_pair src n)"
  unfolding lower_keyword_pair_def
  by (intro keeps_some keeps_opt [where Q = wf_expr])
    (auto intro: keeps_subexpression child_in keeps_ret)

lemma keeps_keyword_arg: "keeps (at_node n) (pred_option (\<lambda>k. wf_kwvalue (kw_value k))) (lower_keyword_arg src n)"
  unfolding lower_keyword_arg_def
  by (intro keeps_opt [OF keeps_any_field] keeps_bind [where Q = "list_all (\<lambda>(a, b). wf_expr a \<and> wf_expr b)"]
      keeps_collect keeps_if keeps_skip keeps_opt [where Q = wf_kwvalue] keeps_some keeps_opt [where Q = wf_expr])
    (auto intro: keeps_child [OF keeps_keyword_pair] keeps_subexpression child_in keeps_ret simp: wf_kwvalue_def)

lemma keeps_keyword_args: "keeps (at_node n) wf_kwargs (collect_keyword_args src n)"
  unfolding collect_keyword_args_def wf_kwargs_def
  by (intro keeps_collect keeps_if keeps_skip) (auto intro: keeps_child [OF keeps_keyword_arg] child_in)

lemma keeps_var_declaration:
  "keeps (at_node n) (pred_option (\<lambda>v. pred_option wf_expr (var_default v))) (lower_var_declaration src n)"
  unfolding lower_var_declaration_def
  by (intro keeps_opt [OF keeps_any_field] keeps_bind [where Q = "list_all (\<lambda>_. True)"] keeps_collect
      keeps_if keeps_skip keeps_annotation keeps_bind [where Q = "pred_option wf_expr"] keeps_some)
    (auto intro: keeps_subexpression child_in keeps_ret)

definition wf_parts :: "body_parts \<Rightarrow> bool" where
  "wf_parts ps \<longleftrightarrow> wf_kwargs (fst ps) \<and> list_all (\<lambda>v. pred_option wf_expr (var_default v)) (snd ps)"

lemma keeps_vars_block:
  "keeps (at_node n) (list_all (\<lambda>v. pred_option wf_expr (var_default v))) (lower_vars_block src n)"
  unfolding lower_vars_block_def
  by (intro keeps_collect keeps_if keeps_skip) (auto intro: keeps_child [OF keeps_var_declaration] child_in)

lemma find_in: "find P xs = Some x \<Longrightarrow> x \<in> set xs"
  by (auto simp: find_Some_iff)

lemma keeps_actor_property:
  assumes "wf_parts ps"
  shows "keeps (at_node n) wf_parts (lower_actor_property src n ps)"
proof (cases "find (\<lambda>c. nd_kind c = ''vars_block'') (named_children n)")
  case None
  have kw: "keeps (at_node n) (pred_option (\<lambda>k. wf_kwvalue (kw_value k)))
     (l_opt (lower_ident_field src n ''key'') (\<lambda>key.
        l_some (child_by_field_name n ''value'') (\<lambda>value_node.
          l_opt (lower_expression src value_node) (\<lambda>v.
            l_ret (Some \<lparr>kw_key = key, kw_value = KwExpr v, kw_span = node_span n\<rparr>)))))"
    by (intro keeps_opt [OF keeps_any_field] keeps_some keeps_opt [where Q = wf_expr])
      (auto intro: keeps_subexpression child_in keeps_ret simp: wf_kwvalue_def)
  from assms show ?thesis
    unfolding lower_actor_property_def None option.case
    by (intro keeps_bind [OF kw] keeps_ret)
      (auto simp: wf_parts_def wf_kwargs_def split: option.splits)
next
  case (Some c)
  from assms show ?thesis
    unfolding lower_actor_property_def Some option.case
    by (intro keeps_bind [OF keeps_child [OF keeps_vars_block named_children_subset [OF find_in [OF Some]]]] keeps_ret)
      (auto simp: wf_parts_def)
qed

lemma keeps_actor_body: "wf_parts ps \<Longrightarrow> keeps (at_node n) wf_parts (lower_actor_body src n ps)"
  unfolding lower_actor_body_def
  by (erule keeps_fold) (auto intro: keeps_ret keeps_child [OF keeps_actor_property] child_in)

lemma keeps_actor_declaration: "keeps (at_node n) (pred_option wf_decl) (lower_actor_declaration src n)"
  unfolding lower_actor_declaration_def
  by (intro keeps_opt [OF keeps_any_field] keeps_some keeps_bind [where Q = wf_parts] keeps_fold)
    (auto intro: keeps_ret keeps_child [OF keeps_actor_body] child_in
      simp: wf_decl_def wf_parts_def wf_kwargs_def)

lemma keeps_command: "keeps (at_node n) (pred_option (\<lambda>c. wf_statement (SCommand c))) (lower_command src n)"
  unfolding lower_command_def
  by (intro keeps_opt [OF keeps_any_field]
      keeps_bind [where Q = "\<lambda>(ann, pos, kws). list_all wf_expr pos \<and> wf_kwargs kws"] keeps_fold)
    (auto intro!: keeps_ret keeps_bind [OF keeps_annotation]
        keeps_bind [OF keeps_child [OF keeps_keyword_args named_children_subset]]
        keeps_bind [OF keeps_subexpression [OF named_children_subset]]
      simp: wf_statement_def wf_kwargs_def split: option.splits)

lemma keeps_comparison_op: "keeps (at_node n) (pred_option (\<lambda>_. True)) (lower_comparison_op src n)"
  by (auto simp: lower_comparison_op_def at_node_self intro!: keeps_ret keeps_report_none split: option.splits)

lemma keeps_assert: "keeps (at_node n) (pred_option (\<lambda>a. wf_statement (SAssert a))) (lower_assert src n)"
  unfolding lower_assert_def
  by (intro keeps_some keeps_opt [where Q = wf_expr]
      keeps_bind [where Q = "pred_option (\<lambda>_. True)" and m = "l_some (child_by_field_name n ''operator'') f" for f]
      keeps_bind [where Q = "pred_option wf_expr" and m = "l_some (child_by_field_name n ''right'') f" for f]
      keeps_bind [where Q = "pred_option (\<lambda>_. True)" and m = "l_some (find P xs) f" for P xs f]
      keeps_annotation keeps_child [OF keeps_comparison_op])
    (auto intro: keeps_subexpression child_in keeps_ret simp: wf_statement_def)

lemma keeps_parse_expression:
  "keeps (at_node n) (pred_option (\<lambda>v. case v of LetExpr e \<Rightarrow> wf_expr e | LetParse e f \<Rightarrow> wf_expr e))
     (lower_parse_expression src n)"
  unfolding lower_parse_expression_def
  by (intro keeps_some keeps_opt [OF keeps_any_field] keeps_opt [where Q = wf_expr])
    (auto intro: keeps_subexpression child_in keeps_ret)

lemma keeps_let: "keeps (at_node n) (pred_option (\<lambda>l. wf_statement (SLet l))) (lower_let src n)"
  unfolding lower_let_def
  by (intro keeps_opt [OF keeps_any_field] keeps_some
      keeps_opt [where Q = "\<lambda>v. case v of LetExpr e \<Rightarrow> wf_expr e | LetParse e f \<Rightarrow> wf_expr e"] keeps_if
      keeps_child [OF keeps_parse_expression] keeps_opt [where Q = wf_expr])
    (auto intro: keeps_subexpression child_in keeps_ret simp: wf_statement_def)

lemma keeps_assignment: "keeps (at_node n) (pred_option (\<lambda>a. wf_statement (SAssignment a))) (lower_assignment src n)"
  unfolding lower_assignment_def
  by (intro keeps_some keeps_opt [where Q = wf_expr])
    (auto intro: keeps_subexpression child_in keeps_ret simp: wf_statement_def)

lemma keeps_statement: "keeps (at_node n) (pred_option wf_statement) (lower_statement src n)"
  unfolding lower_statement_def
  by (intro keeps_if keeps_map keeps_command keeps_assert keeps_let keeps_assignment keeps_skip
      keeps_unexpected)

lemma keeps_block: "keeps (at_node n) (list_all wf_statement) (lower_block src n)"
  unfolding lower_block_def
  by (intro keeps_collect) (auto intro: keeps_child [OF keeps_statement] child_in)

lemma keeps_as_block: "keeps (at_node n) (pred_option (\<lambda>b. wf_item (TAsBlock b))) (lower_as_block src n)"
  unfolding lower_as_block_def
  by (intro keeps_opt [OF keeps_any_field] keeps_bind [where Q = "list_all wf_statement"] keeps_fold)
    (auto intro!: keeps_ret keeps_bind [OF keeps_child [OF keeps_block named_children_subset]]
      simp: wf_item_def)

lemma keeps_item: "keeps (at_node n) (pred_option wf_item) (lower_item src n)"
  unfolding lower_item_def
  by (intro keeps_if keeps_map keeps_as_block keeps_skip keeps_unexpected
      keeps_mono [OF keeps_actor_declaration, where P' = "pred_option (\<lambda>d. wf_item (TActorDeclaration d))"])
    (auto simp: wf_item_def)

lemma keeps_source_file: "keeps (at_node n) wf_source (lower_source_file src n)"
  unfolding lower_source_file_def
  by (intro keeps_bind [where Q = "list_all wf_item"] keeps_collect)
    (auto intro: keeps_child [OF keeps_item] child_in keeps_ret simp: wf_source_def)

section \<open>The whole pass\<close>

lemma lower_Inr:
  assumes "lower parse s = Some (Inr file)"
  shows "wf_source file \<and> list_all (\<lambda>m. \<not> nd_error m \<and> \<not> nd_missing m) (nodes (parse (normalize s)))"
proof -
  let ?src = "normalize s"
  from assms have run: "lower_source_file ?src (parse ?src) (collect_errors ?src [] (parse ?src)) = Some (file, [])"
    by (auto simp: lower_def Let_def split: option.splits prod.splits if_splits)
  with keeps_source_file have "wf_source file" "collect_errors ?src [] (parse ?src) = []"
    unfolding keeps_def by fastforce+
  then show ?thesis by (simp add: collect_errors_Nil_iff)
qed

lemma lower_Inl:
  assumes "lower parse s = Some (Inl errors)"
  shows "errors \<noteq> [] \<and> list_all (at_node (parse (normalize s))) errors"
proof -
  let ?src = "normalize s"
  from assms obtain res where
    run: "lower_source_file ?src (parse ?src) (collect_errors ?src [] (parse ?src)) = Some (res, errors)"
    and ne: "errors \<noteq> []"
    by (auto simp: lower_def Let_def split: option.splits prod.splits if_splits)
  with keeps_source_file obtain new where
    "errors = collect_errors ?src [] (parse ?src) @ new" "list_all (at_node (parse ?src)) new"
    unfolding keeps_def by blast
  with ne collect_errors_at show ?thesis by simp
qed

end
