(* ===== verification/Ill_Grammar.thy ===== *)
theory Ill_Grammar
  imports Ill_Lower_Facts
begin

text \<open>
  Completeness of lowering. \<open>shape\<close> states, kind by kind, what \<^verbatim>\<open>grammar.js\<close> says of a node as far as
  lowering reads it, with the conditions on literals that the grammar leaves to lowering; a tree of
  such nodes is lowered without a diagnostic and without losing a declaration, block or statement.
\<close>

section \<open>The shape of grammatical nodes\<close>

definition expr_kinds :: "string set" where
  "expr_kinds = {''primary_expression'', ''member_expression'', ''index_expression''}"

definition primary_kinds :: "string set" where
  "primary_kinds =
     {''identifier'', ''string'', ''number'', ''boolean'', ''null'', ''atom'', ''array'', ''squiggle''}"

definition statement_kinds :: "string set" where
  "statement_kinds = {''command'', ''assert_statement'', ''let_statement'', ''assignment_statement''}"

definition item_kinds :: "string set" where
  "item_kinds = {''actor_declaration'', ''as_block''}"

definition has_field :: "node \<Rightarrow> string \<Rightarrow> bool" where
  "has_field n f \<longleftrightarrow> child_by_field_name n f \<noteq> None"

definition field_kind :: "string set \<Rightarrow> node \<Rightarrow> string \<Rightarrow> bool" where
  "field_kind ks n f \<longleftrightarrow> (case child_by_field_name n f of Some c \<Rightarrow> nd_kind c \<in> ks | None \<Rightarrow> False)"

definition opt_field :: "(node \<Rightarrow> bool) \<Rightarrow> node \<Rightarrow> string \<Rightarrow> bool" where
  "opt_field P n f \<longleftrightarrow> (case child_by_field_name n f of Some c \<Rightarrow> P c | None \<Rightarrow> True)"

definition first_named :: "(node \<Rightarrow> bool) \<Rightarrow> node \<Rightarrow> bool" where
  "first_named P n \<longleftrightarrow> (case named_child n 0 of Some c \<Rightarrow> P c | None \<Rightarrow> False)"

definition named_all :: "(node \<Rightarrow> bool) \<Rightarrow> node \<Rightarrow> bool" where
  "named_all P n \<longleftrightarrow> list_all P (named_children n)"

definition named_ex :: "string \<Rightarrow> node \<Rightarrow> bool" where
  "named_ex k n \<longleftrightarrow> list_ex (\<lambda>c. nd_kind c = k) (named_children n)"

definition expression_shape :: "string \<Rightarrow> node \<Rightarrow> bool" where
  "expression_shape src n \<longleftrightarrow>
     (nd_kind n = ''primary_expression'' \<longrightarrow> first_named (\<lambda>c. nd_kind c \<in> primary_kinds) n) \<and>
     (nd_kind n = ''member_expression'' \<longrightarrow>
        field_kind expr_kinds n ''object'' \<and> has_field n ''property'') \<and>
     (nd_kind n = ''index_expression'' \<longrightarrow>
        field_kind expr_kinds n ''object'' \<and>
        list_all (\<lambda>c. nd_kind c \<in> expr_kinds) (children_by_field_name n ''index'')) \<and>
     (nd_kind n = ''number'' \<longrightarrow> parse_i64 (node_text src n) \<noteq> None) \<and>
     (nd_kind n = ''atom'' \<longrightarrow> first_named (\<lambda>_. True) n) \<and>
     (nd_kind n = ''string'' \<longrightarrow>
        first_named (\<lambda>c. nd_kind c = ''double_quoted_string'' \<or>
          nd_kind c = ''single_quoted_string'' \<and> strip_quotes (node_text src c) \<noteq> None) n) \<and>
     (nd_kind n = ''double_quoted_string'' \<longrightarrow>
        named_all (\<lambda>c. nd_kind c = ''string_content'' \<longrightarrow> (case unescape (node_text src c) of Inr _ \<Rightarrow> True | Inl _ \<Rightarrow> False)) n) \<and>
     (nd_kind n = ''interpolation'' \<longrightarrow> first_named (\<lambda>c. nd_kind c \<in> expr_kinds) n) \<and>
     (nd_kind n = ''squiggle'' \<longrightarrow> has_field n ''name'')"

definition statement_shape :: "string \<Rightarrow> node \<Rightarrow> bool" where
  "statement_shape src n \<longleftrightarrow>
     (nd_kind n = ''keyword_pair'' \<longrightarrow> field_kind expr_kinds n ''key'' \<and> field_kind expr_kinds n ''value'') \<and>
     (nd_kind n = ''keyword_arg'' \<longrightarrow>
        has_field n ''key'' \<and> (named_ex ''keyword_pair'' n \<or> field_kind expr_kinds n ''value'')) \<and>
     (nd_kind n = ''actor_property'' \<longrightarrow>
        named_ex ''vars_block'' n \<or> has_field n ''key'' \<and> field_kind expr_kinds n ''value'') \<and>
     (nd_kind n = ''var_declaration'' \<longrightarrow>
        has_field n ''name'' \<and> opt_field (\<lambda>c. nd_kind c \<in> expr_kinds) n ''default'') \<and>
     (nd_kind n = ''actor_declaration'' \<longrightarrow>
        has_field n ''name'' \<and>
        (case child_by_field_name n ''type'' of Some c \<Rightarrow> first_named (\<lambda>_. True) c | None \<Rightarrow> False)) \<and>
     (nd_kind n = ''command'' \<longrightarrow> has_field n ''name'') \<and>
     (nd_kind n = ''assert_statement'' \<longrightarrow>
        field_kind expr_kinds n ''left'' \<and>
        opt_field (\<lambda>c. comparison_op_of (node_text src c) \<noteq> None) n ''operator'' \<and>
        opt_field (\<lambda>c. nd_kind c \<in> expr_kinds) n ''right'') \<and>
     (nd_kind n = ''let_statement'' \<longrightarrow>
        has_field n ''name'' \<and> field_kind (insert ''parse_expression'' expr_kinds) n ''value'') \<and>
     (nd_kind n = ''parse_expression'' \<longrightarrow> field_kind expr_kinds n ''source'' \<and> has_field n ''format'') \<and>
     (nd_kind n = ''assignment_statement'' \<longrightarrow>
        field_kind {''member_expression'', ''identifier''} n ''target'' \<and> field_kind expr_kinds n ''value'') \<and>
     (nd_kind n = ''as_block'' \<longrightarrow> has_field n ''actor'') \<and>
     (nd_kind n = ''block'' \<longrightarrow>
        named_all (\<lambda>c. nd_kind c \<in> statement_kinds \<union> {''INDENT'', ''DEDENT'', ''NEWLINE'', ''comment''}) n) \<and>
     (nd_kind n = ''source_file'' \<longrightarrow>
        named_all (\<lambda>c. nd_kind c \<in> item_kinds \<union> {''NEWLINE'', ''comment''}) n)"

definition grammatical :: "string \<Rightarrow> node \<Rightarrow> bool" where
  "grammatical src n \<longleftrightarrow>
     list_all (\<lambda>m. \<not> nd_error m \<and> \<not> nd_missing m \<and> expression_shape src m \<and> statement_shape src m) (nodes n)"

lemma grammaticalD:
  "grammatical src n \<Longrightarrow> expression_shape src n" "grammatical src n \<Longrightarrow> statement_shape src n"
  using nodes_self [of n] by (auto simp: grammatical_def list_all_iff simp del: nodes_self)

lemma grammatical_child: "c \<in> set (children n) \<Longrightarrow> grammatical src n \<Longrightarrow> grammatical src c"
  using nodes_child by (fastforce simp: grammatical_def list_all_iff)

lemmas grammatical_in = child_in [THEN grammatical_child]

section \<open>Runs without a diagnostic\<close>

definition completes :: "('a \<Rightarrow> bool) \<Rightarrow> 'a lower \<Rightarrow> bool" where
  "completes P m \<longleftrightarrow> (\<forall>errors. \<exists>x. m errors = Some (x, errors) \<and> P x)"

definition is_some :: "('a \<Rightarrow> bool) \<Rightarrow> 'a option \<Rightarrow> bool" where
  "is_some P x \<longleftrightarrow> (\<exists>a. x = Some a \<and> P a)"

lemma is_some_Some [simp]: "is_some P (Some a) = P a"
  by (simp add: is_some_def)

lemma completes_ret: "P x \<Longrightarrow> completes P (l_ret x)"
  by (simp add: completes_def l_ret_def)

lemma completes_bind:
  assumes "completes Q m" and "\<And>x. Q x \<Longrightarrow> completes P (f x)"
  shows "completes P (l_bind m f)"
  unfolding completes_def
proof
  fix errors
  from assms(1) obtain x where "m errors = Some (x, errors)" "Q x" unfolding completes_def by blast
  with assms(2) [of x] show "\<exists>y. l_bind m f errors = Some (y, errors) \<and> P y"
    by (simp add: completes_def l_bind_def)
qed

lemma completes_mono: "completes P m \<Longrightarrow> (\<And>x. P x \<Longrightarrow> P' x) \<Longrightarrow> completes P' m"
  by (auto simp: completes_def)

lemma completes_some: "x = Some a \<Longrightarrow> completes P (f a) \<Longrightarrow> completes P (l_some x f)"
  by (simp add: l_some_def)

lemma completes_opt:
  "completes (is_some Q) m \<Longrightarrow> (\<And>a. Q a \<Longrightarrow> completes P (f a)) \<Longrightarrow> completes P (l_opt m f)"
  unfolding l_opt_def by (erule completes_bind) (auto simp: is_some_def l_some_def)

lemma completes_optional:
  "(\<And>a. x = Some a \<Longrightarrow> completes (\<lambda>_. True) (f a)) \<Longrightarrow> completes (\<lambda>_. True) (l_some x f)"
  by (auto simp: l_some_def intro: completes_ret split: option.splits)

lemma completes_collect:
  "(\<And>x. x \<in> set xs \<Longrightarrow> keep x \<Longrightarrow> completes (is_some (R x)) (f x)) \<Longrightarrow>
   (\<And>x. x \<in> set xs \<Longrightarrow> \<not> keep x \<Longrightarrow> completes (\<lambda>y. y = None) (f x)) \<Longrightarrow>
   completes (list_all2 R (filter keep xs)) (l_collect f xs)"
proof (induction xs)
  case (Cons x xs)
  then have rest: "completes (list_all2 R (filter keep xs)) (l_collect f xs)" by simp
  show ?case
  proof (cases "keep x")
    case True
    with Cons.prems(1) have head: "completes (is_some (R x)) (f x)" by simp
    show ?thesis
      by (simp add: True, rule completes_bind [OF head], rule completes_bind [OF rest])
        (auto simp: is_some_def intro: completes_ret)
  next
    case False
    with Cons.prems(2) have head: "completes (\<lambda>y. y = None) (f x)" by simp
    show ?thesis
      by (simp add: False, rule completes_bind [OF head], rule completes_bind [OF rest])
        (auto intro: completes_ret)
  qed
qed (simp add: completes_ret)

lemma completes_collect_all:
  "(\<And>x. x \<in> set xs \<Longrightarrow> completes (pred_option P) (f x)) \<Longrightarrow> completes (list_all P) (l_collect f xs)"
proof (induction xs)
  case (Cons x xs)
  then show ?case
    by (auto intro!: completes_ret completes_bind [where Q = "pred_option P"]
        completes_bind [where Q = "list_all P"] split: option.splits)
qed (simp add: completes_ret)

lemma completes_any: "completes P m \<Longrightarrow> completes (\<lambda>_. True) m"
  by (erule completes_mono) simp

lemma completes_collect_any:
  "(\<And>x. x \<in> set xs \<Longrightarrow> completes (\<lambda>_. True) (f x)) \<Longrightarrow> completes (\<lambda>_. True) (l_collect f xs)"
  by (rule completes_any [OF completes_collect_all [where P = "\<lambda>_. True"]]) (simp add: pred_option_def)

lemma completes_fold:
  "I s \<Longrightarrow> (\<And>x s. x \<in> set xs \<Longrightarrow> I s \<Longrightarrow> completes I (f x s)) \<Longrightarrow> completes I (l_fold f xs s)"
proof (induction xs arbitrary: s)
  case (Cons x xs)
  then show ?case by (auto intro!: completes_bind [where Q = I])
qed (simp add: completes_ret)

lemma completes_if: "(b \<Longrightarrow> completes P m) \<Longrightarrow> (\<not> b \<Longrightarrow> completes P m') \<Longrightarrow> completes P (if b then m else m')"
  by simp

lemma completes_map: "completes (is_some (\<lambda>x. P (f x))) m \<Longrightarrow> completes (is_some P) (l_map f m)"
  unfolding l_map_def by (erule completes_opt) (simp add: completes_ret)

lemma completes_field: "has_field n f \<Longrightarrow> completes (is_some (\<lambda>i. is_some (\<lambda>c. i = ident_from_node src c) (child_by_field_name n f))) (lower_ident_field src n f)"
  by (auto simp: has_field_def lower_ident_field_def intro!: completes_ret)

lemma completes_any_field: "has_field n f \<Longrightarrow> completes (is_some (\<lambda>_. True)) (lower_ident_field src n f)"
  by (auto simp: has_field_def lower_ident_field_def intro!: completes_ret)

section \<open>Expressions\<close>

lemma field_kindE:
  assumes "field_kind ks n f" and "grammatical src n"
  obtains c where "child_by_field_name n f = Some c" and "nd_kind c \<in> ks" and "grammatical src c"
  using assms grammatical_in(3) by (auto simp: field_kind_def split: option.splits)

lemma first_namedE:
  assumes "first_named P n" and "grammatical src n"
  obtains c where "named_child n 0 = Some c" and "P c" and "grammatical src c"
  using assms grammatical_in(2) by (auto simp: first_named_def split: option.splits)

definition text_from :: "string \<Rightarrow> node \<Rightarrow> string \<Rightarrow> string_fragment \<Rightarrow> bool" where
  "text_from src n k f =
     (case f of
        Text t \<Rightarrow> \<exists>c \<in> set (named_children n). nd_kind c = k \<and> t = node_text src c
      | Interpolation e \<Rightarrow> True)"

lemma completes_unescape:
  assumes "text_from src n ''string_content'' f" and "grammatical src n" and "nd_kind n = ''double_quoted_string''"
  shows "completes (pred_option (\<lambda>_. True)) (unescape_fragment n f)"
proof -
  from grammaticalD(1) [OF assms(2)] assms(3)
  have "case unescape (node_text src c) of Inr _ \<Rightarrow> True | Inl _ \<Rightarrow> False"
    if "c \<in> set (named_children n)" "nd_kind c = ''string_content''" for c
    using that by (auto simp: expression_shape_def named_all_def list_all_iff)
  with assms(1) show ?thesis
    by (fastforce simp: unescape_fragment_def text_from_def intro!: completes_ret
        split: string_fragment.splits sum.splits)
qed

lemma completes_expression:
  "grammatical src n \<Longrightarrow> nd_kind n \<in> expr_kinds \<union> primary_kinds \<Longrightarrow>
     completes (is_some (\<lambda>_. True)) (lower_expression src n)"
  "grammatical src n \<Longrightarrow> nd_kind n \<in> primary_kinds \<Longrightarrow>
     completes (is_some (\<lambda>_. True)) (lower_primary src n)"
  "grammatical src n \<Longrightarrow> nd_kind n = ''member_expression'' \<Longrightarrow>
     completes (is_some (\<lambda>_. True)) (lower_member_expression src n)"
  "grammatical src n \<Longrightarrow> nd_kind n = ''index_expression'' \<Longrightarrow>
     completes (is_some (\<lambda>_. True)) (lower_index_expression src n)"
  "grammatical src n \<Longrightarrow> completes (is_some (\<lambda>_. True)) (lower_array src n)"
  "grammatical src n \<Longrightarrow> nd_kind n = ''string'' \<Longrightarrow>
     completes (is_some (\<lambda>_. True)) (lower_string src n)"
  "grammatical src n \<Longrightarrow> nd_kind n = ''double_quoted_string'' \<Longrightarrow>
     completes (\<lambda>_. True) (lower_string_fragments src n)"
  "grammatical src n \<Longrightarrow> completes (list_all (text_from src n k)) (collect_fragments src n k)"
  "grammatical src n \<Longrightarrow> nd_kind n = ''squiggle'' \<Longrightarrow>
     completes (is_some (\<lambda>_. True)) (lower_squiggle src n)"
proof (induction src n and src n and src n and src n and src n and src n and src n and src n k and src n
    rule: lower_expression_lower_primary_lower_member_expression_lower_index_expression_lower_array_lower_string_lower_string_fragments_collect_fragments_lower_squiggle.induct)
  case (1 src n)
  show ?case
  proof (cases "nd_kind n = ''primary_expression''")
    case True
    with grammaticalD(1) [OF "1.prems"(1)] have "first_named (\<lambda>c. nd_kind c \<in> primary_kinds) n"
      by (simp add: expression_shape_def)
    then obtain c where c: "named_child n 0 = Some c" "nd_kind c \<in> primary_kinds" "grammatical src c"
      using "1.prems"(1) by (rule first_namedE)
    from "1.IH"(1) [OF True c(1,3,2)] c True show ?thesis
      by (subst lower_expression.simps) (simp add: completes_some)
  next
    case False
    with 1 show ?thesis
      by (subst lower_expression.simps) (auto simp: expr_kinds_def primary_kinds_def)
  qed
next
  case (2 src n)
  show ?case
  proof (cases "nd_kind n = ''atom''")
    case True
    with grammaticalD(1) [OF "2.prems"(1)] have "first_named (\<lambda>_. True) n" by (simp add: expression_shape_def)
    with True show ?thesis
      by (subst lower_primary.simps) (auto simp: first_named_def l_some_def intro!: completes_ret split: option.splits)
  next
    case False
    from grammaticalD(1) [OF "2.prems"(1)] have "nd_kind n = ''number'' \<longrightarrow> parse_i64 (node_text src n) \<noteq> None"
      by (simp add: expression_shape_def)
    with False 2 show ?thesis
      by (subst lower_primary.simps)
        (auto simp: primary_kinds_def lower_number_def intro!: completes_ret)
  qed
next
  case (3 src n)
  with grammaticalD(1) [OF "3.prems"(1)] have s: "field_kind expr_kinds n ''object''" "has_field n ''property''"
    by (auto simp: expression_shape_def)
  from field_kindE [OF s(1) "3.prems"(1)] obtain c
    where c: "child_by_field_name n ''object'' = Some c" "nd_kind c \<in> expr_kinds" "grammatical src c" .
  from "3.IH" [OF c(1,3)] c have "completes (is_some (\<lambda>_. True)) (lower_expression src c)" by auto
  with c(1) s(2) show ?case
    by (subst lower_member_expression.simps)
      (auto intro!: completes_some completes_any_field completes_opt [where Q = "\<lambda>_. True"] completes_ret)
next
  case (4 src n)
  with grammaticalD(1) [OF "4.prems"(1)] have s: "field_kind expr_kinds n ''object''"
    "list_all (\<lambda>c. nd_kind c \<in> expr_kinds) (children_by_field_name n ''index'')"
    by (auto simp: expression_shape_def)
  from field_kindE [OF s(1) "4.prems"(1)] obtain c
    where c: "child_by_field_name n ''object'' = Some c" "nd_kind c \<in> expr_kinds" "grammatical src c" .
  from "4.IH"(1) [OF c(1,3)] c have "completes (is_some (\<lambda>_. True)) (lower_expression src c)" by auto
  moreover have "completes (is_some (\<lambda>_. True)) (lower_expression src x)"
    if "x \<in> set (children_by_field_name n ''index'')" for x
    using "4.IH"(2) [OF c(1) that] s(2) that grammatical_in(4) [OF that "4.prems"(1)]
    by (auto simp: list_all_iff)
  ultimately show ?case using c(1)
    by (subst lower_index_expression.simps)
      (auto intro!: completes_some completes_opt [where Q = "\<lambda>_. True"] completes_ret
        completes_bind [where Q = "\<lambda>_. True"] completes_collect_any intro: completes_any)
next
  case (5 src n)
  have "completes (is_some (\<lambda>_. True)) (lower_expression src c)"
    if "c \<in> set (named_children n)"
      "nd_kind c \<in> {''primary_expression'', ''member_expression'', ''index_expression''}" for c
    using "5.IH" [OF that] grammatical_in(1) [OF that(1) "5.prems"] that(2) by (auto simp: expr_kinds_def)
  then show ?case
    by (subst lower_array.simps)
      (intro completes_bind [where Q = "\<lambda>_. True"] completes_collect_any completes_if,
        auto intro: completes_ret completes_any)
next
  case (6 src n)
  with grammaticalD(1) [OF "6.prems"(1)] have
    "first_named (\<lambda>c. nd_kind c = ''double_quoted_string'' \<or>
          nd_kind c = ''single_quoted_string'' \<and> strip_quotes (node_text src c) \<noteq> None) n"
    by (auto simp: expression_shape_def)
  then obtain c where c: "named_child n 0 = Some c" "nd_kind c = ''double_quoted_string'' \<or>
          nd_kind c = ''single_quoted_string'' \<and> strip_quotes (node_text src c) \<noteq> None" "grammatical src c"
    using "6.prems"(1) by (rule first_namedE)
  from "6.IH" [OF c(1)] c show ?case
    by (subst lower_string.simps)
      (auto simp: lower_single_quoted_def intro!: completes_some completes_ret completes_bind [where Q = "\<lambda>_. True"])
next
  case (7 src n)
  from "7.IH" [OF "7.prems"(1)] show ?case
    by (subst lower_string_fragments.simps, elim completes_bind)
      (use completes_unescape [OF _ 7(2,3)] in \<open>auto intro!: completes_collect_any intro: completes_any simp: list_all_iff\<close>)
next
  case (8 src n k)
  have "completes (is_some (\<lambda>_. True)) (lower_expression src e)"
    if "c \<in> set (named_children n)" "nd_kind c \<noteq> k" "nd_kind c = ''interpolation''" "named_child c 0 = Some e" for c e
  proof -
    from grammatical_in(1) [OF that(1) "8.prems"] have g: "grammatical src c" .
    from grammaticalD(1) [OF g] that(3,4) have "nd_kind e \<in> expr_kinds"
      by (auto simp: expression_shape_def first_named_def)
    with "8.IH" [OF that] grammatical_in(2) [OF that(4) g] show ?thesis by auto
  qed
  then show ?case
    by (subst collect_fragments.simps, intro completes_collect_all completes_if)
      (auto simp: text_from_def l_some_def pred_option_def intro!: completes_ret completes_opt [where Q = "\<lambda>_. True"]
        split: option.splits)
next
  case (9 src n)
  with grammaticalD(1) [OF "9.prems"(1)] obtain c where c: "child_by_field_name n ''name'' = Some c"
    by (auto simp: expression_shape_def has_field_def)
  from "9.IH" [OF c "9.prems"(1)] c show ?case
    by (subst lower_squiggle.simps) (auto intro!: completes_some completes_ret elim!: completes_bind)
qed

section \<open>Declarations, statements and files\<close>

lemma completes_expr_field:
  assumes "field_kind ks n f" and "ks \<subseteq> expr_kinds \<union> primary_kinds" and "grammatical src n"
    and "\<And>c e. child_by_field_name n f = Some c \<Longrightarrow> nd_kind c \<in> ks \<Longrightarrow> completes P (g e)"
  shows "completes P (l_some (child_by_field_name n f) (\<lambda>c. l_opt (lower_expression src c) g))"
proof -
  from field_kindE [OF assms(1,3)] obtain c
    where c: "child_by_field_name n f = Some c" "nd_kind c \<in> ks" "grammatical src c" .
  with assms(2) have "completes (is_some (\<lambda>_. True)) (lower_expression src c)"
    by (auto intro: completes_expression(1))
  with c assms(4) show ?thesis by (auto intro!: completes_some completes_opt [where Q = "\<lambda>_. True"])
qed

lemma expr_kinds_subset [simp]: "expr_kinds \<subseteq> expr_kinds \<union> primary_kinds" by simp

lemma completes_string_text:
  assumes "grammatical src n" and "nd_kind n = ''string''"
  shows "extract_string_text src n \<noteq> None"
  using grammaticalD(1) [OF assms(1)] assms(2)
  by (auto simp: expression_shape_def extract_string_text_def first_named_def split: option.splits)

lemma completes_annotation:
  assumes "grammatical src n"
  shows "completes (\<lambda>_. True) (lower_annotation src n)"
proof -
  have "completes (\<lambda>_. True) (annotation_value src c v)" if "c \<in> set (named_children n)" for c v
    unfolding annotation_value_def
  proof (intro completes_fold TrueI)
    fix x v
    assume "x \<in> set (named_children c)"
    from grammatical_in(1) [OF this grammatical_in(1) [OF that assms]] completes_string_text
    have "nd_kind x = ''string'' \<Longrightarrow> extract_string_text src x \<noteq> None" by blast
    then show "completes (\<lambda>_. True)
        (if nd_kind x = ''identifier'' then l_ret (Some (node_text src x))
         else if nd_kind x = ''string'' then
           (case extract_string_text src x of None \<Rightarrow> l_panic | Some t \<Rightarrow> l_ret (Some t))
         else l_ret v)"
      by (auto intro!: completes_ret)
  qed
  then show ?thesis
    unfolding lower_annotation_def
    by (intro completes_bind [where Q = "\<lambda>_. True"] completes_fold)
      (auto intro!: completes_ret completes_bind [where Q = "\<lambda>_. True"])
qed

lemma completes_keyword_pair:
  assumes "grammatical src n" and "nd_kind n = ''keyword_pair''"
  shows "completes (is_some (\<lambda>_. True)) (lower_keyword_pair src n)"
proof -
  from grammaticalD(2) [OF assms(1)] assms(2)
  have s: "field_kind expr_kinds n ''key''" "field_kind expr_kinds n ''value''"
    by (auto simp: statement_shape_def)
  from field_kindE [OF s(1) assms(1)] obtain c where c: "child_by_field_name n ''key'' = Some c"
    "nd_kind c \<in> expr_kinds" "grammatical src c" .
  from field_kindE [OF s(2) assms(1)] obtain d where d: "child_by_field_name n ''value'' = Some d"
    "nd_kind d \<in> expr_kinds" "grammatical src d" .
  from c d show ?thesis
    unfolding lower_keyword_pair_def
    by (auto intro!: completes_some completes_opt [OF completes_expression(1)] completes_ret)
qed

lemma named_ex_filter: "named_ex k n \<longleftrightarrow> filter (\<lambda>c. nd_kind c = k) (named_children n) \<noteq> []"
  by (auto simp: named_ex_def list_ex_iff filter_empty_conv)

lemma completes_keyword_arg:
  assumes "grammatical src n" and "nd_kind n = ''keyword_arg''"
  shows "completes (is_some (\<lambda>_. True)) (lower_keyword_arg src n)"
proof -
  let ?pairs = "filter (\<lambda>c. nd_kind c = ''keyword_pair'') (named_children n)"
  from grammaticalD(2) [OF assms(1)] assms(2)
  have s: "has_field n ''key''" "?pairs \<noteq> [] \<or> field_kind expr_kinds n ''value''"
    by (auto simp: statement_shape_def named_ex_filter)
  have pairs: "completes (list_all2 (\<lambda>_ _. True) ?pairs)
      (l_collect (\<lambda>c. if nd_kind c = ''keyword_pair'' then lower_keyword_pair src c else l_ret None)
        (named_children n))"
    using grammatical_in(1) [OF _ assms(1)]
    by (intro completes_collect) (auto intro: completes_keyword_pair completes_ret)
  have "completes (is_some (\<lambda>_. True))
      (if ps \<noteq> [] then l_ret (Some (KwMap ps))
       else l_some (child_by_field_name n ''value'') (\<lambda>value_node.
              l_opt (lower_expression src value_node) (\<lambda>e. l_ret (Some (KwExpr e)))))"
    if "list_all2 (\<lambda>_ _. True) ?pairs ps" for ps
    using that s(2) by (auto intro!: completes_ret completes_expr_field [OF _ _ assms(1)])
  then show ?thesis
    unfolding lower_keyword_arg_def
    by (intro completes_opt [OF completes_any_field [OF s(1)]] completes_bind [OF pairs])
      (auto intro!: completes_opt [where Q = "\<lambda>_. True"] completes_ret)
qed

lemma completes_keyword_args:
  "grammatical src n \<Longrightarrow> completes (\<lambda>_. True) (collect_keyword_args src n)"
  unfolding collect_keyword_args_def
  by (intro completes_collect_any completes_if)
    (auto intro: completes_ret completes_any completes_keyword_arg grammatical_in)

lemma completes_var_declaration:
  assumes "grammatical src n" and "nd_kind n = ''var_declaration''"
  shows "completes (is_some (\<lambda>_. True)) (lower_var_declaration src n)"
proof -
  from grammaticalD(2) [OF assms(1)] assms(2)
  have s: "has_field n ''name''" "opt_field (\<lambda>c. nd_kind c \<in> expr_kinds) n ''default''"
    by (auto simp: statement_shape_def)
  have "completes (\<lambda>_. True) (l_some (child_by_field_name n ''default'') (lower_expression src))"
    using s(2) grammatical_in(3) [OF _ assms(1)]
    by (intro completes_optional completes_any [OF completes_expression(1)]) (auto simp: opt_field_def)
  then show ?thesis
    unfolding lower_var_declaration_def
    using grammatical_in(1) [OF _ assms(1)]
    by (intro completes_opt [OF completes_any_field [OF s(1)]] completes_bind [where Q = "\<lambda>_. True"]
        completes_collect_any completes_if)
      (auto intro: completes_ret completes_annotation)
qed

lemma completes_actor_property:
  assumes "grammatical src n" and "nd_kind n = ''actor_property''"
  shows "completes (\<lambda>_. True) (lower_actor_property src n ps)"
proof (cases "find (\<lambda>c. nd_kind c = ''vars_block'') (named_children n)")
  case None
  then have "\<not> named_ex ''vars_block'' n" by (auto simp: named_ex_def list_ex_iff find_None_iff)
  with grammaticalD(2) [OF assms(1)] assms(2)
  have s: "has_field n ''key''" "field_kind expr_kinds n ''value''" by (auto simp: statement_shape_def)
  show ?thesis
    unfolding lower_actor_property_def None option.case
    by (intro completes_bind [where Q = "is_some (\<lambda>_. True)"] completes_opt [OF completes_any_field [OF s(1)]]
        completes_expr_field [OF s(2) _ assms(1)])
      (auto intro: completes_ret)
next
  case (Some c)
  from grammatical_in(1) [OF find_in [OF Some] assms(1)] have "grammatical src c" .
  then show ?thesis
    unfolding lower_actor_property_def Some option.case lower_vars_block_def
    by (intro completes_bind [where Q = "\<lambda>_. True"] completes_collect_any completes_if)
      (auto intro: completes_ret completes_any completes_var_declaration grammatical_in)
qed

definition named_field :: "string \<Rightarrow> node \<Rightarrow> string \<Rightarrow> ident \<Rightarrow> bool" where
  "named_field src n f i = is_some (\<lambda>c. i = ident_from_node src c) (child_by_field_name n f)"

lemma completes_named_field: "has_field n f \<Longrightarrow> completes (is_some (named_field src n f)) (lower_ident_field src n f)"
  using completes_field unfolding named_field_def .

definition decl_at :: "string \<Rightarrow> node \<Rightarrow> actor_declaration \<Rightarrow> bool" where
  "decl_at src n d \<longleftrightarrow> named_field src n ''name'' (decl_name d) \<and> decl_span d = node_span n"

lemma completes_actor_declaration:
  assumes "grammatical src n" and "nd_kind n = ''actor_declaration''"
  shows "completes (is_some (decl_at src n)) (lower_actor_declaration src n)"
proof -
  from grammaticalD(2) [OF assms(1)] assms(2)
  have s: "has_field n ''name''"
    "case child_by_field_name n ''type'' of Some c \<Rightarrow> first_named (\<lambda>_. True) c | None \<Rightarrow> False"
    by (auto simp: statement_shape_def)
  then obtain c i where c: "child_by_field_name n ''type'' = Some c" "lower_ident_from_first_child src c = Some i"
    by (auto simp: first_named_def lower_ident_from_first_child_def split: option.splits)
  have "completes (\<lambda>_. True) (lower_actor_body src m ps)" if "m \<in> set (named_children n)" for m ps
    unfolding lower_actor_body_def
    using grammatical_in(1) [OF _ grammatical_in(1) [OF that assms(1)]]
    by (intro completes_fold) (auto intro: completes_ret completes_actor_property)
  then show ?thesis
    unfolding lower_actor_declaration_def
    by (intro completes_opt [OF completes_named_field [OF s(1)]] completes_some [OF c(1)] completes_some [OF c(2)]
        completes_bind [where Q = "\<lambda>_. True"] completes_fold)
      (auto intro!: completes_ret simp: decl_at_def)
qed

definition stmt_at :: "string \<Rightarrow> node \<Rightarrow> statement \<Rightarrow> bool" where
  "stmt_at src n s \<longleftrightarrow>
     (case s of
        SCommand c \<Rightarrow>
          nd_kind n = ''command'' \<and> named_field src n ''name'' (cmd_name c) \<and> cmd_span c = node_span n \<and>
          length (cmd_positional_args c) = length (filter (\<lambda>x. nd_kind x \<in> expr_kinds) (named_children n))
      | SAssert a \<Rightarrow> nd_kind n = ''assert_statement'' \<and> as_span a = node_span n
      | SLet l \<Rightarrow> nd_kind n = ''let_statement'' \<and> named_field src n ''name'' (let_name l) \<and> let_span l = node_span n
      | SAssignment a \<Rightarrow> nd_kind n = ''assignment_statement'' \<and> asg_span a = node_span n)"

text \<open>The fold over a command's children counts the positional arguments it has passed.\<close>

lemma completes_fold_prefix:
  assumes "I [] s"
    and "\<And>ys x s. x \<in> set xs \<Longrightarrow> I ys s \<Longrightarrow> completes (I (ys @ [x])) (f x s)"
  shows "completes (I xs) (l_fold f xs s)"
proof -
  have "completes (I (ys @ xs)) (l_fold f xs s)" if "I ys s" for ys
    using that assms(2)
  proof (induction xs arbitrary: ys s)
    case (Cons x xs)
    show ?case
    proof (simp, rule completes_bind)
      show "completes (I (ys @ [x])) (f x s)" using Cons.prems by simp
      show "completes (I (ys @ x # xs)) (l_fold f xs t)" if "I (ys @ [x]) t" for t
        using Cons.IH [of "ys @ [x]" t] Cons.prems(2) that by simp
    qed
  qed (simp add: completes_ret)
  from this [of "[]"] assms(1) show ?thesis by simp
qed

lemma completes_command:
  assumes "grammatical src n" and "nd_kind n = ''command''"
  shows "completes (is_some (\<lambda>c. stmt_at src n (SCommand c))) (lower_command src n)"
proof -
  from grammaticalD(2) [OF assms(1)] assms(2) have s: "has_field n ''name''"
    by (auto simp: statement_shape_def)
  let ?I = "\<lambda>xs (ann :: annotation option, pos :: expr list, kws :: keyword_arg list).
    length pos = length (filter (\<lambda>x. nd_kind x \<in> expr_kinds) xs)"
  show ?thesis
    unfolding lower_command_def
  proof (intro completes_opt [OF completes_named_field [OF s]] completes_bind [where Q = "?I (named_children n)"]
      completes_fold_prefix [where I = ?I], goal_cases)
    case (2 i ys x st)
    from grammatical_in(1) [OF 2(2) assms(1)] have g: "grammatical src x" .
    obtain ann pos kws where st: "st = (ann, pos, kws)" by (cases st)
    have e: "completes (is_some (\<lambda>_. True)) (lower_expression src x)" if "nd_kind x \<in> expr_kinds"
      using completes_expression(1) [OF g] that by simp
    show ?case
      unfolding st prod.case
      using 2 e
      by (intro completes_if completes_bind [OF completes_annotation [OF g]]
          completes_bind [OF completes_keyword_args [OF g]] completes_bind [where Q = "is_some (\<lambda>_. True)"])
        (auto simp: st expr_kinds_def is_some_def intro!: completes_ret)
  qed (use assms(2) in \<open>auto intro!: completes_ret simp: stmt_at_def\<close>)
qed

lemma completes_assert:
  assumes "grammatical src n" and "nd_kind n = ''assert_statement''"
  shows "completes (is_some (\<lambda>a. stmt_at src n (SAssert a))) (lower_assert src n)"
proof -
  from grammaticalD(2) [OF assms(1)] assms(2)
  have s: "field_kind expr_kinds n ''left''"
    "opt_field (\<lambda>c. comparison_op_of (node_text src c) \<noteq> None) n ''operator''"
    "opt_field (\<lambda>c. nd_kind c \<in> expr_kinds) n ''right''"
    by (auto simp: statement_shape_def)
  have op: "completes (\<lambda>_. True) (l_some (child_by_field_name n ''operator'') (lower_comparison_op src))"
    using s(2) by (intro completes_optional) (auto simp: opt_field_def lower_comparison_op_def intro!: completes_ret)
  have right: "completes (\<lambda>_. True) (l_some (child_by_field_name n ''right'') (lower_expression src))"
    using s(3) grammatical_in(3) [OF _ assms(1)]
    by (intro completes_optional completes_any [OF completes_expression(1)]) (auto simp: opt_field_def)
  have ann: "completes (\<lambda>_. True) (l_some (find (\<lambda>c. nd_kind c = ''annotation'') (named_children n)) (lower_annotation src))"
    using grammatical_in(1) [OF find_in assms(1)] by (intro completes_optional completes_annotation)
  show ?thesis
    unfolding lower_assert_def
    using assms(2)
    by (intro completes_expr_field [OF s(1) _ assms(1)] completes_bind [OF op] completes_bind [OF right]
        completes_bind [OF ann])
      (auto intro!: completes_ret simp: stmt_at_def)
qed

lemma completes_let:
  assumes "grammatical src n" and "nd_kind n = ''let_statement''"
  shows "completes (is_some (\<lambda>l. stmt_at src n (SLet l))) (lower_let src n)"
proof -
  from grammaticalD(2) [OF assms(1)] assms(2)
  have s: "has_field n ''name''" "field_kind (insert ''parse_expression'' expr_kinds) n ''value''"
    by (auto simp: statement_shape_def)
  from field_kindE [OF s(2) assms(1)] obtain c where c: "child_by_field_name n ''value'' = Some c"
    "nd_kind c = ''parse_expression'' \<or> nd_kind c \<in> expr_kinds" "grammatical src c" by auto
  have "completes (is_some (\<lambda>_. True)) (lower_parse_expression src c)" if "nd_kind c = ''parse_expression''"
  proof -
    from grammaticalD(2) [OF c(3)] that
    have p: "field_kind expr_kinds c ''source''" "has_field c ''format''" by (auto simp: statement_shape_def)
    from field_kindE [OF p(1) c(3)] obtain d where "child_by_field_name c ''source'' = Some d"
      "nd_kind d \<in> expr_kinds" "grammatical src d" .
    then show ?thesis
      unfolding lower_parse_expression_def
      by (auto intro!: completes_some completes_opt [OF completes_any_field [OF p(2)]]
          completes_opt [OF completes_expression(1)] completes_ret)
  qed
  moreover have "completes (is_some (\<lambda>_. True)) (lower_expression src c)" if "nd_kind c \<noteq> ''parse_expression''"
    using that c completes_expression(1) by auto
  ultimately show ?thesis
    unfolding lower_let_def
    using assms(2)
    by (intro completes_opt [OF completes_named_field [OF s(1)]] completes_some [OF c(1)]
        completes_opt [where Q = "\<lambda>_. True"] completes_if)
      (auto intro!: completes_ret simp: stmt_at_def)
qed

lemma completes_assignment:
  assumes "grammatical src n" and "nd_kind n = ''assignment_statement''"
  shows "completes (is_some (\<lambda>a. stmt_at src n (SAssignment a))) (lower_assignment src n)"
proof -
  from grammaticalD(2) [OF assms(1)] assms(2)
  have s: "field_kind {''member_expression'', ''identifier''} n ''target''" "field_kind expr_kinds n ''value''"
    by (auto simp: statement_shape_def)
  show ?thesis
    unfolding lower_assignment_def
    using assms(2)
    by (intro completes_expr_field [OF s(1) _ assms(1)] completes_expr_field [OF s(2) _ assms(1)])
      (auto simp: expr_kinds_def primary_kinds_def stmt_at_def intro!: completes_ret)
qed

lemma completes_statement:
  assumes "grammatical src n" and "nd_kind n \<in> statement_kinds"
  shows "completes (is_some (stmt_at src n)) (lower_statement src n)"
  using assms
  by (auto simp: lower_statement_def statement_kinds_def intro!: completes_map completes_command
      completes_assert completes_let completes_assignment)

text \<open>The statement nodes of a block, and of all blocks under an \<open>as\<close> node.\<close>

definition block_statements :: "node \<Rightarrow> node list" where
  "block_statements n = filter (\<lambda>c. nd_kind c \<in> statement_kinds) (named_children n)"

definition body_statements :: "node list \<Rightarrow> node list" where
  "body_statements ns = concat (map block_statements (filter (\<lambda>c. nd_kind c = ''block'') ns))"

lemma completes_block:
  assumes "grammatical src n" and "nd_kind n = ''block''"
  shows "completes (list_all2 (stmt_at src) (block_statements n)) (lower_block src n)"
  unfolding lower_block_def block_statements_def
proof (rule completes_collect)
  fix c assume c: "c \<in> set (named_children n)"
  from grammatical_in(1) [OF c assms(1)]
  show "completes (is_some (stmt_at src c)) (lower_statement src c)" if "nd_kind c \<in> statement_kinds"
    using that by (rule completes_statement)
  from grammaticalD(2) [OF assms(1)] assms(2) c
  have "nd_kind c \<in> statement_kinds \<union> {''INDENT'', ''DEDENT'', ''NEWLINE'', ''comment''}"
    by (auto simp: statement_shape_def named_all_def list_all_iff)
  then show "completes (\<lambda>y. y = None) (lower_statement src c)" if "nd_kind c \<notin> statement_kinds"
    using that by (auto simp: lower_statement_def intro: completes_ret)
qed

definition item_at :: "string \<Rightarrow> node \<Rightarrow> top_level \<Rightarrow> bool" where
  "item_at src n t \<longleftrightarrow>
     (case t of
        TActorDeclaration d \<Rightarrow> nd_kind n = ''actor_declaration'' \<and> decl_at src n d
      | TAsBlock b \<Rightarrow>
          nd_kind n = ''as_block'' \<and> named_field src n ''actor'' (blk_actor b) \<and> blk_span b = node_span n \<and>
          list_all2 (stmt_at src) (body_statements (named_children n)) (blk_body b))"

lemma completes_as_block:
  assumes "grammatical src n" and "nd_kind n = ''as_block''"
  shows "completes (is_some (\<lambda>b. item_at src n (TAsBlock b))) (lower_as_block src n)"
proof -
  from grammaticalD(2) [OF assms(1)] assms(2) have s: "has_field n ''actor''"
    by (auto simp: statement_shape_def)
  let ?I = "\<lambda>ns. list_all2 (stmt_at src) (body_statements ns)"
  have step: "completes (?I (ys @ [x]))
      (if nd_kind x = ''block'' then l_bind (lower_block src x) (\<lambda>stmts. l_ret (body @ stmts)) else l_ret body)"
    if "x \<in> set (named_children n)" and "?I ys body" for x ys body
  proof (cases "nd_kind x = ''block''")
    case True
    from completes_block [OF grammatical_in(1) [OF that(1) assms(1)] True] that(2) show ?thesis
      by (simp add: True)
        (erule completes_bind, auto simp: body_statements_def True intro!: completes_ret list_all2_appendI)
  qed (use that in \<open>auto simp: body_statements_def intro: completes_ret\<close>)
  have fold: "completes (?I (named_children n))
      (l_fold (\<lambda>c body. if nd_kind c = ''block'' then l_bind (lower_block src c) (\<lambda>stmts. l_ret (body @ stmts))
                       else l_ret body) (named_children n) [])"
    by (rule completes_fold_prefix [where I = ?I]) (simp add: body_statements_def, rule step)
  show ?thesis
    unfolding lower_as_block_def
    by (intro completes_opt [OF completes_named_field [OF s]] completes_bind [OF fold])
      (auto intro!: completes_ret simp: item_at_def assms(2))
qed

lemma completes_item:
  assumes "grammatical src n" and "nd_kind n \<in> item_kinds"
  shows "completes (is_some (item_at src n)) (lower_item src n)"
  using assms
  by (auto simp: lower_item_def item_kinds_def intro!: completes_map completes_as_block
      completes_mono [OF completes_actor_declaration] simp: item_at_def is_some_def)

lemma completes_source_file:
  assumes "grammatical src n" and "nd_kind n = ''source_file''"
  shows "completes (\<lambda>f. list_all2 (item_at src) (filter (\<lambda>c. nd_kind c \<in> item_kinds) (named_children n)) (src_items f))
    (lower_source_file src n)"
  unfolding lower_source_file_def
proof (rule completes_bind, rule completes_collect)
  fix c assume c: "c \<in> set (named_children n)"
  from grammatical_in(1) [OF c assms(1)]
  show "completes (is_some (item_at src c)) (lower_item src c)" if "nd_kind c \<in> item_kinds"
    using that by (rule completes_item)
  from grammaticalD(2) [OF assms(1)] assms(2) c
  have "nd_kind c \<in> item_kinds \<union> {''NEWLINE'', ''comment''}"
    by (auto simp: statement_shape_def named_all_def list_all_iff)
  then show "completes (\<lambda>y. y = None) (lower_item src c)" if "nd_kind c \<notin> item_kinds"
    using that by (auto simp: lower_item_def item_kinds_def intro: completes_ret)
qed (auto intro: completes_ret)

lemma lower_grammatical:
  assumes "grammatical (normalize s) (parse (normalize s))" and "nd_kind (parse (normalize s)) = ''source_file''"
  shows "\<exists>f. lower parse s = Some (Inr f) \<and>
    list_all2 (item_at (normalize s))
      (filter (\<lambda>c. nd_kind c \<in> item_kinds) (named_children (parse (normalize s)))) (src_items f)"
proof -
  let ?src = "normalize s"
  from assms(1) have "collect_errors ?src [] (parse ?src) = []"
    by (auto simp: collect_errors_Nil_iff grammatical_def list_all_iff)
  moreover from completes_source_file [OF assms] obtain f where
    "lower_source_file ?src (parse ?src) [] = Some (f, [])"
    "list_all2 (item_at ?src) (filter (\<lambda>c. nd_kind c \<in> item_kinds) (named_children (parse ?src))) (src_items f)"
    unfolding completes_def by blast
  ultimately show ?thesis by (simp add: lower_def Let_def)
qed

end
