(* ===== verification/Spec2Isabelle.thy ===== *)
theory Spec2Isabelle
  imports Ill_Bookkeeping Ill_Output Ill_Grammar
begin

text \<open>
  iLL, the integration logic language: a model of the crates \<^verbatim>\<open>src/crates/ill-core\<close> and
  \<^verbatim>\<open>src/crates/ill\<close> and what is proved of it.

  \<^bold>\<open>The program.\<close> An \<^verbatim>\<open>.ill\<close> file declares actors (a process, a container, a database or mqtt client,
  the arguments of the run) and holds \<open>as\<close> blocks of commands, asserts, lets and assignments. \<open>ill test\<close>
  finds the files, normalizes and parses each, lowers the tree to the syntax tree, validates it, and,
  when every file is clean, runs them: the harness constructs the actors in source order, runs the
  blocks against them, reports the first failing statement and tears every instance down in reverse.
  \<open>ill check\<close> stops after validation.

  \<^bold>\<open>Theories and sources\<close> (paths below \<^verbatim>\<open>src/crates/ill-core/src\<close>), each with its definitions first:
  \<^item> \<open>Ill_Prelude\<close>, \<open>Ill_Text\<close>: folds that stop, ordered containers (the locale \<open>string_map\<close>), decimal and UTF-8
    text, Unicode trimming, paths. A Rust string is the list of its UTF-8 bytes, an \<open>i64\<close> an integer that
    every producer bounds, \<open>f64\<close> its bits, \<open>Result\<close> a sum with the error on the left, a panic an \<open>Inl\<close> of
    its message or a \<open>None\<close>.
  \<^item> \<open>Ill_Ast\<close> (\<^verbatim>\<open>ast.rs\<close>), \<open>Ill_Diagnostic\<close> (\<^verbatim>\<open>diagnostic.rs\<close>), \<open>Ill_Value\<close> (\<^verbatim>\<open>runtime/value.rs\<close>).
  \<^item> \<open>Ill_Source\<close>, \<open>Ill_Lower\<close> (\<^verbatim>\<open>lower.rs\<close>): \<open>normalize\<close> and \<open>unescape\<close>; the tree as the code reads it,
    the lowering functions under their own names on the list of diagnostics. \<open>Ill_Lower_Facts\<close>: the
    triple \<open>keeps\<close>, for what every run keeps. \<open>Ill_Grammar\<close>: the shapes of \<^verbatim>\<open>grammar.js\<close> and the triple
    \<open>completes\<close>, for runs on grammatical trees.
  \<^item> \<open>Ill_Schema\<close>, \<open>Ill_Actor_Types\<close>, \<open>Ill_Registry\<close> (\<^verbatim>\<open>actor_type/\<close>, \<^verbatim>\<open>registry.rs\<close>): modes, command
    schemas, the six actor types, the registry with its start-up assertions.
  \<^item> \<open>Ill_Validate\<close> (\<^verbatim>\<open>validate.rs\<close>): both passes. \<open>Ill_Validate_Facts\<close>: the locales \<open>diag_step\<close> and
    \<open>checker\<close>, the contract of every operation that only adds diagnostics. \<open>Ill_Accept\<close>: a specification
    without diagnostics or state, and the refinement. \<open>Ill_Validate_Inv\<close>: the symbol table.
  \<^item> \<open>Ill_Runtime\<close>, \<open>Ill_Eval\<close>, \<open>Ill_Assert\<close>, \<open>Ill_Harness\<close> (\<^verbatim>\<open>runtime/\<close>): outcomes, scopes, members; the
    evaluator and the squiggles; asserts; the harness over a record of the methods of \<open>ActorInstance\<close>.
    \<open>Ill_Harness_Facts\<close>: facts that hold for every such record.
  \<^item> \<open>Ill_Simulation\<close>: the validator against the harness. The locale \<open>moded_runtime\<close> is the contract of the
    runtimes (an instance knows its type and starts in its initial mode; a call in a valid mode
    keeps the type and moves as declared; a construction fails with an error of its own); \<open>watched_runtime\<close> adds
    a predicate on the world.
  \<^item> \<open>Ill_Services\<close>, \<open>Ill_Exec\<close>, \<open>Ill_Container\<close>, \<open>Ill_Pg\<close>, \<open>Ill_Mqtt\<close>, \<open>Ill_Args_Actor\<close>
    (\<^verbatim>\<open>actor_type/*/runtime.rs\<close>, \<^verbatim>\<open>pg_client/convert.rs\<close>): the five runtimes, each interpreted in the locale
    \<open>service_actor\<close>, the contract between a schema and its runtime. \<open>Ill_Mqtt_Facts\<close>: the inbox and the
    waiters. \<open>Ill_Mqtt_Race\<close>: a request and the event-loop task, step by step.
  \<^item> \<open>Ill_Builtin\<close>: the dispatch on the five instances, and \<open>moded_runtime\<close> interpreted on it.
  \<^item> \<open>Ill_Report\<close> (\<^verbatim>\<open>render.rs\<close>, \<^verbatim>\<open>report_format.rs\<close>, \<open>Display\<close> of values).
  \<^item> \<open>Ill_Cli\<close>, \<open>Ill_Cli_Facts\<close> (\<^verbatim>\<open>src/crates/ill/src/main.rs\<close>): arguments, the directory walk, the gate,
    the test loop, the exit status, with printing as a list of events.
  \<^item> \<open>Ill_Output\<close>: the events as text on standard output and standard error, and what can be read there.
  \<^item> \<open>Ill_Ledger\<close>, \<open>Ill_Bookkeeping\<close>: services that book every acquired and released resource in a ledger
    beside the world, and counters of constructions and teardowns; the locales \<open>bookkeeping\<close> (an instance accounts
    for what it holds) and \<open>transparent\<close> (a table behaves as another one), interpreted on the built-in runtimes
    and on the counted and monitored tables.

  \<^bold>\<open>What is outside.\<close> The world \<open>'w\<close> stands for everything outside the process. Processes, docker, the wire
  clients, the clock, the regex engine, codespan and the file system are records of functions on it;
  tree-sitter is a function from a text to a tree. An awaited call is such a function, so it
  is taken to return. Where the program itself can make a command wait for ever, for the acknowledgement of an
  mqtt request, \<open>rx_await\<close> answers \<open>None\<close>; the runtime, which is a total function, goes on with \<open>connection_lost\<close>
  there, so what is proved of its answers says nothing of such a wait, and \<open>Ill_Mqtt_Race\<close> says when it occurs.
  Constructors and commands answer a value, so a panic inside an actor is not represented; one in a
  teardown is, since the harness catches it. Two tables of the standard library, the debug form of a string and the decimal form
  of a float, are parameters of the display of values. The writer of a report is a string, so its
  write errors do not occur.

  \<^bold>\<open>Fuel.\<close> The connect loop takes its number of attempts: \<open>timeout div 200ms + 2\<close>, one per full back-off, one
  for the rest and one to find the budget empty, is proved to be enough under a clock that does not
  go back, and more changes nothing. The directory walk takes a depth: one more than the depth of the
  tree is proved to be enough. Everything else is total, lowering by the weight of the tree.

  \<^bold>\<open>What is proved.\<close> Between the components: a validated file, whose blocks follow the declarations and which does not rebind \<open>error\<close> or expect
  a \<open>stop\<close> or \<open>receive disconnect\<close> to fail, runs every command in a declared mode with the declared arguments and
  meets none of the harness's defensive errors, on the built-in runtimes and whatever the services answer;
  the two scans for expected errors agree; a tree of the grammar lowers completely, and a lowered
  file has well-formed literals, which the evaluator keeps; the gate runs nothing on a bad suite. In the
  components: refinement of the validator's specification, its symbol-table invariant, the conformance of
  every runtime to its schema, termination of the retry loop and of the walk, the order of incoming
  messages, the shape of query results, round trips of \<open>--arg\<close> values, escapes and hexadecimal
  literals, teardown in reverse, once, and idempotent, and the survival of diagnostics through rendering.
  Over the whole command: no process, container, session or client outlives a run unless its release was
  refused, and every bad file and every failed test is explained on standard error.
  Three faults are stated: an mqtt request made in a window before the task returns is never answered
  (\<open>request_can_be_lost\<close>); one made earlier is not answered when the task is blocked on a full inbox, and only then
  (\<open>requests_answered_unless_wedged\<close>); and spans count in the normalized text while snippets are cut from the
  original one (\<open>normalize_canonical\<close>).

  \<^bold>\<open>Not modelled.\<close> The tree-sitter grammar as a parser (generated C), the external scanner (C), the VS Code
  extension, tests, the global state behind \<open>OnceLock\<close> (its contents are arguments), and the terminal writer.
  \<open>http_client\<close> has a schema and no runtime in the source; constructing one answers \<open>ActorNotImplemented\<close>.
\<close>

section \<open>A sample test file\<close>

text \<open>
  \<^verbatim>\<open>actor cfg = args_actor\<close> with a variable \<open>port\<close> defaulting to 80, and a block that runs \<open>check\<close>
  and asserts \<open>self.port == 80\<close>. The engine accepts a pattern as the string to be equal to.
\<close>

definition sample_ident :: "string \<Rightarrow> ident" where
  "sample_ident n = \<lparr>ident_name = n, ident_span = \<lparr>span_start = 0, span_end = 0\<rparr>\<rparr>"

definition sample_span :: span where
  "sample_span = \<lparr>span_start = 0, span_end = 0\<rparr>"

definition sample_decl :: actor_declaration where
  "sample_decl =
     \<lparr>decl_name = sample_ident ''cfg'', decl_actor_type = sample_ident ''args_actor'',
      decl_keyword_args = [],
      decl_vars = [\<lparr>var_annotations = [], var_name = sample_ident ''port'',
                    var_default = Some (ENumber 80), var_span = sample_span\<rparr>],
      decl_span = sample_span\<rparr>"

definition sample_block :: as_block where
  "sample_block =
     \<lparr>blk_actor = sample_ident ''cfg'',
      blk_body =
        [SCommand \<lparr>cmd_annotation = None, cmd_name = sample_ident ''check'', cmd_positional_args = [],
                   cmd_keyword_args = [], cmd_span = sample_span\<rparr>,
         SAssert \<lparr>as_annotation = None,
                  as_left = EMemberAccess (EIdent (sample_ident ''self'')) (sample_ident ''port'') sample_span,
                  as_op = Some OpEq, as_right = Some (ENumber 80), as_span = sample_span\<rparr>],
      blk_span = sample_span\<rparr>"

definition sample_source :: source_file where
  "sample_source = \<lparr>src_items = [TActorDeclaration sample_decl, TAsBlock sample_block]\<rparr>"

definition sample_regex :: regex_engine where
  "sample_regex p = Inr (\<lambda>s. s = p)"

lemma sample_valid:
  "validate sample_source = []" "uses_declared {} (src_items sample_source)"
  "list_all (item_reserved builtin_keeps) (src_items sample_source)"
  by code_simp+

text \<open>
  Services whose world is the time in nanoseconds: the shell splits at blanks, every process starts and
  ends at once, docker and the database are always there, and the broker accepts every handshake.
\<close>

definition sample_clock :: "nat clock" where
  "sample_clock = \<lparr>clk_now = (\<lambda>w. w), clk_sleep = (\<lambda>d w. w + d)\<rparr>"

definition sample_exec :: "(nat, nat) exec_services" where
  "sample_exec =
     \<lparr>es_split = (\<lambda>s. Some (split_on (CHR '' '') s)), es_is_dir = (\<lambda>_ _. True),
      es_spawn = (\<lambda>_ w. (Inr w, w)), es_child_id = (\<lambda>c _. Some c), es_sigterm = (\<lambda>_ w. w),
      es_wait_for = (\<lambda>_ _ w. (Some (Inr ()), w)), es_start_kill = (\<lambda>_ w. (Inr (), w)),
      es_wait = (\<lambda>_ w. w)\<rparr>"

definition sample_docker :: "(nat, nat) docker_services" where
  "sample_docker =
     \<lparr>ds_pull = (\<lambda>_ _ w. (Inr (), w)), ds_build = (\<lambda>_ _ _ w. (Inr (), w)),
      ds_start = (\<lambda>_ w. (Inr w, w)), ds_id = show_nat,
      ds_rm = (\<lambda>_ _ w. (Some (Inl \<lparr>de_startup_timeout = False, de_display = ''daemon gone''\<rparr>), w)),
      ds_is_file = (\<lambda>_ _. True), ds_hash = (\<lambda>_. 255)\<rparr>"

definition sample_pg :: "(nat, nat) pg_services" where
  "sample_pg =
     \<lparr>ps_clock = sample_clock, ps_connect = (\<lambda>_ _ w. (Some (Inr 0), w)),
      ps_query = (\<lambda>_ _ w. (Inr ([], []), w)), ps_query_within = (\<lambda>_ _ _ w. (None, w)),
      ps_drop = (\<lambda>_ w. w)\<rparr>"

definition sample_mqtt :: "(nat, nat) mqtt_services" where
  "sample_mqtt =
     \<lparr>ms_clock = sample_clock,
      ms_handshake = (\<lambda>_ _ w. ((0, [Inr (EvConnAck \<lparr>ack_session_present = False, ack_code = CrcSuccess,
                                       ack_properties = None\<rparr>)]), w)),
      ms_subscribe = (\<lambda>_ _ _ _ w. (True, w)), ms_publish = (\<lambda>_ _ _ _ _ w. (True, w)),
      ms_disconnect = (\<lambda>_ w. w), ms_await_ack = (\<lambda>_ w. ([Inr (EvSubAck [SrcSuccess AtMostOnce])], w)),
      ms_await_recv = (\<lambda>_ _ w. ([], w)), ms_abort = (\<lambda>_ w. w)\<rparr>"

definition sample_services :: "(nat, nat, nat, nat, nat) services" where
  "sample_services =
     \<lparr>sv_exec = sample_exec, sv_docker = sample_docker, sv_pg = sample_pg, sv_mqtt = sample_mqtt,
      sv_cli_args = []\<rparr>"

definition sample_exec_instance :: "nat exec_instance" where
  "sample_exec_instance =
     \<lparr>ex_target = ''/bin/true'', ex_source_dir = ''.'', ex_working_dir = ''.'', ex_mode = ExStopped\<rparr>"

definition sample_args :: command_args where
  "sample_args = \<lparr>args_positional = [], args_keyword = []\<rparr>"

section \<open>A sample tree\<close>

text \<open>The tree of the line \<^verbatim>\<open>actor a = exec\<close>, and one whose only node is an error.\<close>

definition sample_leaf :: "string \<Rightarrow> nat \<Rightarrow> nat \<Rightarrow> bool \<Rightarrow> node" where
  "sample_leaf k s e named = Node k s e named False False []"

definition sample_tree :: node where
  "sample_tree =
     Node ''source_file'' 0 15 True False False
       [(None, Node ''actor_declaration'' 0 14 True False False
           [(None, sample_leaf ''actor'' 0 5 False),
            (Some ''name'', sample_leaf ''identifier'' 6 7 True),
            (None, sample_leaf ''='' 8 9 False),
            (Some ''type'', Node ''actor_type'' 10 14 True False False
               [(None, sample_leaf ''identifier'' 10 14 True)])]),
        (None, sample_leaf ''NEWLINE'' 14 15 True)]"

definition sample_text :: string where
  "sample_text = ''actor a = exec'' @ [CHR 0x0D, CHR 0x0A]"

definition sample_error_tree :: node where
  "sample_error_tree =
     Node ''source_file'' 0 4 True False False [(None, Node ''ERROR'' 0 3 True True False [])]"

text \<open>The tree and the file of an empty text.\<close>

definition empty_tree :: node where
  "empty_tree = Node ''source_file'' 0 0 True False False []"

definition empty_source :: source_file where
  "empty_source = \<lparr>src_items = []\<rparr>"

lemma lower_empty: "lower (\<lambda>_. empty_tree) src = Some (Inr empty_source)"
  by (simp add: lower_def lower_source_file_def l_bind_def l_ret_def empty_tree_def empty_source_def
      named_children_def children_def)

lemma validate_empty: "validate empty_source = []"
  by code_simp

text \<open>A failed lowering stops the gate of the command line.\<close>

lemma lower_reports_errors:
  assumes "\<And>p src. p \<in> set files \<Longrightarrow> fs_read_to_string fs p = Inr src \<Longrightarrow> lower parse src = Some (low src)"
  shows "lower_reports fs low files"
  unfolding lower_reports_def
proof (intro ballI allI impI)
  fix p src ds
  assume "p \<in> set files" "fs_read_to_string fs p = Inr src" "low src = Inl ds"
  with assms [of p src] have "lower parse src = Some (Inl ds)" by simp
  from lower_Inl [OF this] show "has_error ds"
    by (cases ds) (auto simp: has_error_def at_node_def)
qed

lemma sample_tree_grammatical:
  "grammatical (normalize sample_text) sample_tree" "nd_kind sample_tree = ''source_file''"
  by code_simp+

text \<open>
  C1. The validator's mode tracking is sound for the harness and the built-in actors: when \<open>validate\<close>
  reports nothing, every block follows its actor's declaration, neither a let
  nor an actor is called \<open>error\<close>, and no \<open>stop\<close> or \<open>receive disconnect\<close> is expected to fail, every command the harness executes is executed
  on an instance in one of the modes the command declares and with the arguments it declares, and every actor
  is constructed with the arguments its type declares, whatever the services answer. The monitored run is
  the run of the program, and its flag stays true.
\<close>

theorem validated_calls_in_mode:
  assumes "validate source = []" and "uses_declared {} (src_items source)"
    and "list_all (item_reserved builtin_keeps) (src_items source)"
  shows "\<exists>report w'. execute (builtin_ops sv) rx path source dir w = (report, w') \<and>
    execute (monitor (builtin_ops sv) builtin_mode_of) rx path source dir (w, True) = (report, w', True)"
proof -
  let ?r = "execute (monitor (builtin_ops sv) builtin_mode_of) rx path source dir (w, True)"
  have "execute (builtin_ops sv) rx path source dir w = apsnd fst ?r"
    using monitor_free.execute_test_proj [where ops = "builtin_ops sv" and v = "(w, True)"] by simp
  moreover have "snd (snd ?r)"
    using monitored.execute_sim [OF assms, where w = "(w, True)" and sv = sv] by simp
  ultimately show ?thesis by (cases ?r) auto
qed

theorem validated_calls_in_mode_witness:
  "\<exists>report w'. execute (builtin_ops sample_services) sample_regex ''t.ill'' sample_source ''.'' 0 = (report, w') \<and>
     execute (monitor (builtin_ops sample_services) builtin_mode_of) sample_regex ''t.ill'' sample_source ''.'' (0, True) =
       (report, w', True)"
  by (rule validated_calls_in_mode [OF sample_valid])

text \<open>
  C2. No drift between checking and running: under the conditions of the last property, a file that validates
  never stops, in a construction or in a statement, with one of the harness's defensive errors (no live
  instance, unknown actor type, unknown command, unknown squiggle).
\<close>

theorem validated_no_drift:
  assumes "validate source = []" and "uses_declared {} (src_items source)"
    and "list_all (item_reserved builtin_keeps) (src_items source)"
  shows "list_all (\<lambda>r. \<not> drift_report r)
    (tr_statements (fst (execute (builtin_ops sv) rx path source dir w)))"
  using unwatched.execute_sim [OF assms, where w = w and sv = sv] by simp

theorem validated_no_drift_witness:
  "list_all (\<lambda>r. \<not> drift_report r)
     (tr_statements (fst (execute (builtin_ops sample_services) sample_regex ''t.ill'' sample_source ''.'' 0)))"
  by (rule validated_no_drift [OF sample_valid])

text \<open>
  C3. The validator implements its specification: it reports no diagnostic exactly when declarations are
  distinct, registered and well-formed, and every block's commands are accepted in sequence.
\<close>

theorem validate_refines_spec:
  "validate source = [] \<longleftrightarrow> (\<exists>env. accept_source registry_global source = Some env)"
  by (rule validate_Nil_iff)

text \<open>
  C4. Lowering is complete: a tree whose nodes have the shapes of the grammar, with integers in range and
  known escape sequences, gives a file and no diagnostic. Its items are those of the declaration and
  block nodes in order, and a block holds one statement for each statement node below it.
\<close>

theorem grammatical_trees_lower:
  assumes "grammatical (normalize s) (parse (normalize s))"
    and "nd_kind (parse (normalize s)) = ''source_file''"
  shows "\<exists>f. lower parse s = Some (Inr f) \<and>
    list_all2 (item_at (normalize s))
      (filter (\<lambda>c. nd_kind c \<in> item_kinds) (named_children (parse (normalize s)))) (src_items f)"
  using assms by (rule lower_grammatical)

theorem grammatical_trees_lower_witness:
  "\<exists>f. lower (\<lambda>_. sample_tree) sample_text = Some (Inr f) \<and> length (src_items f) = 1"
proof -
  have "length (filter (\<lambda>c. nd_kind c \<in> item_kinds) (named_children sample_tree)) = 1" by code_simp
  with grammatical_trees_lower [of sample_text "\<lambda>_. sample_tree"] sample_tree_grammatical show ?thesis
    by (auto dest!: list_all2_lengthD)
qed

text \<open>
  C5. The runtimes keep the contract of their schemas: called in a valid mode, a command answers \<open>ok\<close> with
  exactly the declared fields and types and the declared transition, or an \<open>error\<close> of a declared
  variant with its fields and an unchanged mode. The exceptions are a failing \<open>stop\<close> or
  \<open>receive disconnect\<close>, which may change the mode, and the network errors of three mqtt commands.
\<close>

theorem builtin_answers_conform:
  assumes "registry_get registry_global (builtin_type_name i) = Some ty" and "find_command ty c = Some cd"
    and "builtin_mode_of i \<in> set (cd_valid_in_modes cd)" and "builtin_execute sv i c args w = (out, i', w')"
  shows "builtin_type_name i' = builtin_type_name i \<and>
    (case out of
       RunOk d \<Rightarrow> builtin_mode_of i' = mode_after cd (builtin_mode_of i) \<and> outcome_ok (cd_ok_fields cd) d
     | RunError variant d \<Rightarrow>
         (c \<notin> {''stop'', ''receive_disconnect''} \<longrightarrow> builtin_mode_of i' = builtin_mode_of i) \<and>
         (builtin_covers (builtin_type_name i) c variant \<longrightarrow> declared_error cd variant d)
     | RunNotImplemented _ _ \<Rightarrow> False)"
  using builtin_conforms [OF assms] by (auto simp: conforms_def builtin_keeps_def split: run_outcome.splits)

theorem builtin_answers_conform_witness:
  "\<exists>out i' w'. builtin_execute sample_services (IExec sample_exec_instance) ''run'' sample_args 0 = (out, i', w') \<and>
     (case out of RunOk d \<Rightarrow> outcome_ok exec_run_ok_fields d | RunError _ _ \<Rightarrow> True | RunNotImplemented _ _ \<Rightarrow> False)"
proof -
  obtain out i' w' where run: "builtin_execute sample_services (IExec sample_exec_instance) ''run'' sample_args 0 = (out, i', w')"
    by (metis prod_cases3)
  have ty: "registry_get registry_global (builtin_type_name (IExec sample_exec_instance)) = Some exec"
    by (simp add: registry_builtin)
  have cd: "find_command exec ''run'' = Some exec_run" by code_simp
  have mode: "builtin_mode_of (IExec sample_exec_instance) \<in> set (cd_valid_in_modes exec_run)" by code_simp
  have fields: "cd_ok_fields exec_run = exec_run_ok_fields" by (simp add: exec_run_def)
  from builtin_answers_conform [OF ty cd mode run] run show ?thesis
    by (auto simp: fields split: run_outcome.splits)
qed

text \<open>
  C6. Two implementations of one rule agree: on the statements up to the next command, entered in
  \<open>ImpliedOk\<close> and without a diagnostic, the validator ends in
  \<open>ExplicitError\<close> exactly when the look-ahead of the harness expects the command to fail.
\<close>

theorem expected_error_agreement:
  assumes "fold (check_statement a) (window (drop (idx + 1) (blk_body blk))) (ctx, v) = (ctx', v')"
    and "ctx_outcome ctx = ImpliedOk" and "v_diagnostics v' = []"
  shows "ctx_outcome ctx' = ExplicitError \<longleftrightarrow> block_has_error_ref_after blk idx"
  using check_window [OF assms(1) window_no_command assms(3)] assms(2)
  by (simp add: ExplicitError_seen block_has_error_ref_after_def error_ref_scan_iff)

theorem expected_error_agreement_witness:
  "ctx_outcome (fst (fold (check_statement ''cfg'') (window (drop (0 + 1) (blk_body sample_block)))
       (block_ctx_init, validator_init))) = ExplicitError \<longleftrightarrow> block_has_error_ref_after sample_block 0"
proof -
  have clean: "v_diagnostics (snd (fold (check_statement ''cfg'')
      (window (drop (0 + 1) (blk_body sample_block))) (block_ctx_init, validator_init))) = []" by code_simp
  show ?thesis
    by (rule expected_error_agreement [OF surjective_pairing _ clean]) (simp add: block_ctx_init_def)
qed

text \<open>
  C7. Teardown always covers what was constructed: two counters beside the run, of the instances constructed and
  of the instances torn down, agree at the end, whether the file passed or not. The reports name that many of
  the first declarations, all of them when the test passes; a test that does not pass records one failure.
\<close>

theorem execute_tears_down_constructed:
  "case execute (counted ops) rx path source dir (w, 0, 0) of (report, w', built, torn) \<Rightarrow>
     execute ops rx path source dir w = (report, w') \<and> torn = built \<and>
     built \<le> length (decl_names (src_items source)) \<and>
     map tdr_actor (tr_teardown report) = take built (decl_names (src_items source)) \<and>
     (if tr_passed report then built = length (decl_names (src_items source)) \<and> tr_statements report = []
      else length (tr_statements report) = 1)"
proof -
  obtain report w' built torn where run: "execute (counted ops) rx path source dir (w, 0, 0) = (report, w', built, torn)"
    by (rule prod_cases4)
  with execute_counts [OF run] counted_free.execute_test_proj [of ops rx path source dir "(w, 0, 0)"] show ?thesis by simp
qed

text \<open>
  C8. The retry loop ends: when time does not go back and a sleep lasts as long as it should, one attempt
  per full back-off within the time-out, and two more, are enough fuel whatever the attempts answer,
  and any such fuel gives the result \<open>connect_within\<close> is defined by.
\<close>

theorem connect_ends_by_deadline:
  assumes "steady_clock clk attempt" and "timeout div backoff_limit + 2 \<le> fuel"
  shows "connect_loop fuel clk attempt expired (clk_now clk w + timeout) None w =
    Some (connect_within clk attempt expired timeout w)"
  using assms by (rule connect_within_eq)

theorem connect_ends_by_deadline_witness:
  "connect_loop 9 sample_clock (\<lambda>d w. (Some (Inl (RunError ''network'' [])) :: (run_outcome + unit) option, w))
     (RunError ''timeout'' []) (clk_now sample_clock 5 + from_secs 1) None 5 =
   Some (connect_within sample_clock (\<lambda>d w. (Some (Inl (RunError ''network'' [])), w)) (RunError ''timeout'' []) (from_secs 1) 5)"
  by (rule connect_ends_by_deadline)
    (simp_all add: steady_clock_def sample_clock_def from_secs_def backoff_limit_def from_millis_def)

text \<open>
  C9. No incoming message is lost or reordered while the session lasts: after any polls, the next packet
  received is the oldest of those queued, held back by a full inbox and polled since, the rest stay
  in order, and nothing is received only when there is none.
\<close>

theorem publishes_arrive_in_order:
  assumes "inbox_wf c"
  shows "let arrived = cn_publish_inbox c @ (case cn_blocked c of None \<Rightarrow> [] | Some b \<Rightarrow> [b]) @
      (if cn_running c then polled_publishes (cn_backlog c @ events) else [])
    in case recv_publish (drive events c) of
         None \<Rightarrow> arrived = []
       | Some (p, c') \<Rightarrow> arrived = p # pending c' \<and> inbox_wf c'"
proof -
  have wf: "inbox_wf (drive events c)" using assms by (rule inbox_wf_drive)
  show ?thesis
    using recv_publish_None [OF wf] recv_publish_pending [OF _ wf]
    by (auto simp: pending_drive [symmetric] split: option.splits)
qed

theorem publishes_arrive_in_order_witness:
  "case recv_publish (drive [Inr EvPubComp] (spawn_connected ())) of None \<Rightarrow> True | Some _ \<Rightarrow> False"
  using publishes_arrive_in_order [OF inbox_wf_spawn, of "()" "[Inr EvPubComp]"]
  by (auto simp: spawn_connected_def split: option.splits)

text \<open>
  C10. The shutdown race of \<open>run_event_loop\<close>: for each kind of request there is a reachable state in which
  the command awaits a result, the task has returned, and no step is possible any more.
\<close>

theorem request_can_be_lost:
  "\<exists>i c. mqtt_reachable k (Returned, Awaiting i, c :: unit mq_connected) \<and>
     (\<forall>s. \<not> mqtt_step k (Returned, Awaiting i, c) s)"
proof -
  have "idle (spawn_connected ())" "cn_running (spawn_connected ())" "cn_blocked (spawn_connected ()) = None"
    by (simp_all add: idle_spawn) (simp_all add: spawn_connected_def)
  then obtain s :: "unit race" where "mqtt_reachable k s" "stuck k s" using lost_waiter_reachable by blast
  then show ?thesis using stuck_no_step by (fastforce simp: stuck_def)
qed

text \<open>
  C11. The other side of the race. A request whose waiter is pushed while the task still polls can be answered from
  every state it reaches, but for one kind: the task is blocked in its \<open>send\<close> to the full inbox of messages
  while the waiter is queued, and the command, which holds the receiver, awaits its result. Such a state can
  be reached, and from it no answer can.
\<close>

theorem requests_answered_unless_wedged:
  fixes s :: "'c race"
  assumes "early_reachable k s"
  shows "((\<exists>l out c. (mqtt_step k)\<^sup>*\<^sup>* s (l, Answered out, c)) \<longleftrightarrow> \<not> wedged k s) \<and>
    (\<exists>s' :: 'c race. early_reachable k s' \<and> wedged k s')"
proof -
  let ?c = "spawn_connected undefined :: 'c mq_connected"
  obtain i c' where push: "push_waiter k ?c = (i, c')" by (rule prod.exhaust)
  have "early_reachable k (Polling, Pushed i, c')" "awaiting k i c'"
    by (rule early_start [OF idle_spawn _ push], simp add: spawn_connected_def)
      (rule awaiting_push [OF idle_spawn push])
  with wedged_reachable have "\<exists>s' :: 'c race. early_reachable k s' \<and> wedged k s'" by blast
  then show ?thesis
    using early_inv_answerable [OF early_reachable_inv [OF assms]] wedged_not_answerable [of k s]
    unfolding answerable_def by blast
qed

theorem requests_answered_unless_wedged_witness:
  "\<exists>l out c. (mqtt_step AckSub)\<^sup>*\<^sup>* (Polling, Pushed (fst (push_waiter AckSub (spawn_connected ()))),
     snd (push_waiter AckSub (spawn_connected ()))) (l, Answered out, c)"
proof -
  let ?s = "(Polling, Pushed (fst (push_waiter AckSub (spawn_connected ()))),
    snd (push_waiter AckSub (spawn_connected ())))"
  have "early_reachable AckSub ?s"
    by (rule early_start [OF idle_spawn _ surjective_pairing]) (simp add: spawn_connected_def)
  moreover have "\<not> wedged AckSub ?s" by (simp add: wedged_def spawn_connected_def push_waiter_def)
  ultimately show ?thesis using requests_answered_unless_wedged [of AckSub ?s] by simp
qed

text \<open>
  C12. Nothing outlives a run: with a ledger beside the world, the same run ends with every process, container,
  session and client released, but for those whose release the outside refused; whichever files fail, and wherever.
\<close>

theorem no_resource_outlives_suite:
  "case run_test fs fuel low (builtin_ops (audited sv)) rx paths (w, ledger_new) of
     None \<Rightarrow> run_test fs fuel low (builtin_ops sv) rx paths w = None
   | Some (code, events, w', books) \<Rightarrow>
       run_test fs fuel low (builtin_ops sv) rx paths w = Some (code, events, w') \<and>
       led_open books \<subseteq># led_refused books"
proof -
  have same: "run_test fs fuel low (builtin_ops sv) rx paths w =
      map_option (apsnd (apsnd fst)) (run_test fs fuel low (builtin_ops (audited sv)) rx paths (w, ledger_new))"
    using ledger_free.run_test_proj [of fs fuel low sv rx paths "(w, ledger_new)"] by simp
  show ?thesis
  proof (cases "run_test fs fuel low (builtin_ops (audited sv)) rx paths (w, ledger_new)")
    case (Some r)
    obtain code events w' books where r: "r = (code, events, w', books)" by (cases r)
    have "balanced {#} {#} (w, ledger_new) (w', books)"
      using Some r ledger.run_test_books by blast
    then have "led_open books \<subseteq># led_refused books"
      by (auto simp: balanced_def ledger_new_def dest: spec [of _ "{#}"])
    with Some r same show ?thesis by simp
  qed (use same in simp)
qed

text \<open>
  C13. The gate of \<open>ill test\<close>: one unreadable, unparsable or invalid file among the selected ones, and
  nothing runs at all; the world is unchanged and the exit status is 1.
\<close>

theorem test_gate_runs_nothing:
  assumes "resolve_files fs fuel paths = Some (events0, files)" and "list_ex (bad_file fs low) files"
  shows "\<exists>events. run_test fs fuel low ops rx paths w =
    Some (Inr 1, events0 @ events @ [Stderr ''ill: not running tests''], w)"
proof -
  from assms(2) have "files \<noteq> []" by auto
  with assms(1) gate_iff [of fs low files] assms(2) show ?thesis
    by (auto simp: run_test_def Let_def comp_def gate_events_def)
qed

theorem test_gate_runs_nothing_witness:
  "\<exists>events. run_test \<lparr>fs_is_dir = (\<lambda>_. False), fs_read_to_string = (\<lambda>_. Inl ''no such file''),
      fs_read_dir = (\<lambda>_. Inr [])\<rparr> 1 (\<lambda>_. Inr sample_source) (builtin_ops sample_services) sample_regex [''a.ill''] (0 :: nat) =
    Some (Inr 1, [] @ events @ [Stderr ''ill: not running tests''], 0)"
  by (rule test_gate_runs_nothing [of _ _ _ _ "[''a.ill'']"]) code_simp+

text \<open>
  C14. Lowering is sound: it succeeds only on a tree without error or missing nodes, and every integer of the
  file it answers is an \<open>i64\<close> and every literal text UTF-8, whatever tree the parser built.
\<close>

theorem lowered_files_well_formed:
  assumes "lower parse s = Some (Inr f)"
  shows "wf_source f \<and> list_all (\<lambda>m. \<not> nd_error m \<and> \<not> nd_missing m) (nodes (parse (normalize s)))"
  using assms by (rule lower_Inr)

theorem lowered_files_well_formed_witness:
  "\<exists>f. lower (\<lambda>_. sample_tree) sample_text = Some (Inr f) \<and> wf_source f"
proof -
  from lower_grammatical [of sample_text "\<lambda>_. sample_tree"] sample_tree_grammatical
  obtain f where "lower (\<lambda>_. sample_tree) sample_text = Some (Inr f)" by blast
  with lowered_files_well_formed [of "\<lambda>_. sample_tree" sample_text f] show ?thesis by blast
qed

text \<open>
  C15. A file that cannot be lowered is explained: there is a diagnostic, and every diagnostic is an error
  with a code of the parse class whose span is that of a node of the parsed tree.
\<close>

theorem lower_errors_located:
  assumes "lower parse s = Some (Inl errors)"
  shows "errors \<noteq> [] \<and> list_all (\<lambda>d.
    diag_severity d = SevError \<and>
    diag_code d \<in> {ParseError, MissingToken, UnexpectedNode, MissingField, InvalidLiteral, InvalidEscape} \<and>
    diag_span d \<in> node_span ` set (nodes (parse (normalize s)))) errors"
  using lower_Inl [OF assms] by (auto simp: at_node_def list_all_iff)

theorem lower_errors_located_witness:
  "\<exists>errors. lower (\<lambda>_. sample_error_tree) ''@@@'' = Some (Inl errors) \<and> errors \<noteq> []"
proof -
  have "lower (\<lambda>_. sample_error_tree) ''@@@'' =
      Some (Inl [diag_error \<lparr>span_start = 0, span_end = 3\<rparr> ParseError ''unexpected `@@@`''])"
    by code_simp
  with lower_errors_located [of "\<lambda>_. sample_error_tree" "''@@@''"] show ?thesis by blast
qed

text \<open>
  C16. Invariant of the validator's symbol table: whatever the file, every healthy entry holds a registered
  actor type and one of the modes of that type.
\<close>

theorem symbol_table_invariant:
  assumes "healthy (validator_run source validator_init) n = Some h"
  shows "registry_get registry_global (at_name (ha_type_def h)) = Some (ha_type_def h) \<and>
    ha_mode h \<in> set (at_modes (ha_type_def h))"
proof -
  have "v_registry (validator_run source validator_init) = registry_global"
    by (simp add: validator_run_def check.fold_registry register.fold_registry validator_init_def)
  with wf_actorsD [OF validator_run_wf assms] show ?thesis by simp
qed

theorem symbol_table_invariant_witness:
  "\<exists>h. healthy (validator_run sample_source validator_init) ''cfg'' = Some h \<and>
     ha_mode h \<in> set (at_modes (ha_type_def h))"
proof -
  have "healthy (validator_run sample_source validator_init) ''cfg'' \<noteq> None" by code_simp
  then obtain h where h: "healthy (validator_run sample_source validator_init) ''cfg'' = Some h" by blast
  with symbol_table_invariant [OF h] show ?thesis by blast
qed

text \<open>
  C17. Name resolution: \<open>UnknownActor\<close> is reported exactly when some block names an actor that no
  declaration of the file mentions, before or after it, poisoned declarations included.
\<close>

theorem unknown_actor_reported:
  "(\<exists>d \<in> set (validate source). diag_code d = UnknownActor) \<longleftrightarrow>
   (\<exists>blk. TAsBlock blk \<in> set (src_items source) \<and>
      ident_name (blk_actor blk) \<notin> declared_names (src_items source))"
proof -
  let ?v = "fold register_item (src_items source) validator_init"
  note fold = unknown_actor_fold [OF register_pass_wf, of "src_items source" "src_items source"]
  have "grows decl_codes validator_init ?v" by (rule register_diag.fold_grows)
  then have "\<not> (\<exists>d \<in> set (v_diagnostics ?v). diag_code d = UnknownActor)"
    by (fastforce simp: grows_def validator_init_def decl_codes_def list_all_iff)
  with fold show ?thesis
    by (simp add: validate_def validator_run_def register_fold_dom validator_init_def)
qed

text \<open>
  C18. Evaluation preserves the invariants of \<open>Value\<close>: numbers stay in the range of \<open>i64\<close>, every string is
  UTF-8 (also those interpolated from bytes), dictionaries have distinct keys.
\<close>

theorem eval_keeps_values_well_formed:
  assumes "wf_scope s" and "list_all wf_node (subexprs e)" and "eval e s = Inr v"
  shows "wf_val v"
  using assms by (rule eval_wf_mut(1))

theorem eval_keeps_values_well_formed_witness:
  "wf_val (VString ''a=5'')"
proof -
  let ?e = "EStringLit (StringLit [Text ''a='', Interpolation (ENumber 5)] sample_span)"
  have "wf_scope scope_new" by (simp add: wf_scope_def scope_new_def)
  moreover have "list_all wf_node (subexprs ?e)" by code_simp
  moreover have "eval ?e scope_new = Inr (VString ''a=5'')" by code_simp
  ultimately show ?thesis by (rule eval_keeps_values_well_formed)
qed

text \<open>
  C19. Type soundness of \<open>expr_type\<close>: when an expression evaluates, its value inhabits the static type,
  squiggles included; so the types of declared variables are those of their defaults.
\<close>

theorem expr_type_predicts_eval:
  assumes "eval e s = Inr v"
  shows "is_of_type v (expr_type e)"
  using assms by (rule expr_type_sound)

theorem expr_type_predicts_eval_witness:
  "is_of_type (VBytes [0xDE, 0xAD]) (expr_type (ESquiggle (Squiggle (sample_ident ''hex'') [Text ''DE ad''] sample_span)))"
proof -
  have "eval (ESquiggle (Squiggle (sample_ident ''hex'') [Text ''DE ad''] sample_span)) scope_new =
      Inr (VBytes [0xDE, 0xAD])" by code_simp
  then show ?thesis by (rule expr_type_predicts_eval)
qed

text \<open>
  C20. The two views of a query result agree: \<open>row\<close> lists the cells row by row, \<open>col\<close> holds for each column
  name the same cells from the top, and the counts are those of the result.
\<close>

theorem query_result_shape:
  assumes "rows \<noteq> []" and "distinct (map col_name columns)"
  shows "build_result_dict (columns, rows) =
    [(''row'', VArray (map (\<lambda>row. VArray (map (\<lambda>j. cell_to_value (columns ! j) row j) [0..<length columns])) rows)),
     (''col'', VDict (zip (map col_name columns)
        (map (\<lambda>j. VArray (map (\<lambda>row. cell_to_value (columns ! j) row j) rows)) [0..<length columns]))),
     (''row_count'', VNumber (int (length rows))), (''col_count'', VNumber (int (length columns)))]"
  using assms by (rule build_result_dict_eq)

theorem query_result_shape_witness:
  "\<exists>rows. build_result_dict ([\<lparr>col_name = ''n'', col_type = PgInt4\<rparr>], rows) =
     [(''row'', VArray [VArray [VNumber (- 1)]]), (''col'', VDict [(''n'', VArray [VNumber (- 1)])]),
      (''row_count'', VNumber 1), (''col_count'', VNumber 1)]"
proof -
  let ?e = "\<lambda>_. Inl ()"
  let ?row = "\<lparr>get_bool = ?e, get_i8 = ?e, get_i16 = ?e, get_i32 = (\<lambda>_. Inr (Some (- 1))), get_i64 = ?e,
    get_f32 = ?e, get_f64 = ?e, get_string = ?e, get_bytes = ?e\<rparr>"
  show ?thesis
    using query_result_shape [of "[?row]" "[\<lparr>col_name = ''n'', col_type = PgInt4\<rparr>]"]
    by (intro exI [of _ "[?row]"]) (simp add: cell_to_value_def cell_or_null_def)
qed

text \<open>
  C21. A clean suite, of files on which lowering does not panic, runs every file in order, never reaches the
  \<open>expect\<close> on a missing syntax tree, and the exit status is 0 exactly when every report passed; of each failed
  one standard error has the header and every diagnostic.
\<close>

theorem test_exit_status:
  assumes "resolve_files fs fuel paths = Some (events0, files)" and "files \<noteq> []"
    and "\<And>p src. p \<in> set files \<Longrightarrow> fs_read_to_string fs p = Inr src \<Longrightarrow> lower parse src = Some (low src)"
    and "\<not> list_ex (bad_file fs low) files"
  shows "let (reports, w') = suite_reports ops rx (parsed fs low files) w in \<exists>events.
    run_test fs fuel low ops rx paths w = Some (Inr (if list_all tr_passed reports then 0 else 1), events, w') \<and>
    list_all (\<lambda>r. tr_passed r \<or> report_explained fs fm emit r (stderr_text fm emit events)) reports"
proof -
  let ?fs = "cs_files (check_files fs low files)"
  have reports: "lower_reports fs low files" by (rule lower_reports_errors) (rule assms(3))
  note clean = clean_suite [OF reports assms(4)]
  have part: "filter (\<lambda>f. has_error (cf_diags f)) ?fs = []" "filter (Not \<circ> (\<lambda>f. has_error (cf_diags f))) ?fs = ?fs"
    using clean(1) by (auto simp: list_all_iff filter_empty_conv filter_id_conv)
  obtain reports w' where s: "suite_reports ops rx (parsed fs low files) w = (reports, w')" by (rule prod.exhaust)
  obtain events where run: "run_clean ops rx ?fs 0 0 w =
      (Inr (length (filter tr_passed reports), length (filter (\<lambda>r. \<not> tr_passed r) reports)), events, w')"
    and shown: "\<And>r. r \<in> set reports \<Longrightarrow> tr_passed r \<or> report_explained fs fm emit r (stderr_text fm emit events)"
    using run_clean_suite [OF reports assms(4) s] by blast
  let ?out = "events0 @ events @ [Stdout (show_nat (length (filter tr_passed reports)) @ '' passed, ''
    @ show_nat (length (filter (\<lambda>r. \<not> tr_passed r) reports)) @ '' failed'')]"
  have "cs_read_errors (check_files fs low files) = []"
    using gate_iff [of fs low files] assms(4) by blast
  then have "run_test fs fuel low ops rx paths w =
      Some (Inr (if list_all tr_passed reports then 0 else 1), ?out, w')"
    using assms(1,2) part run by (auto simp: run_test_def Let_def list_all_iff filter_empty_conv)
  moreover have "list_all (\<lambda>r. tr_passed r \<or> report_explained fs fm emit r (stderr_text fm emit ?out)) reports"
    using shown report_explained_around by (fastforce simp: list_all_iff simp del: stderr_text_append)
  ultimately show ?thesis by (auto simp: s)
qed

theorem test_exit_status_witness:
  "let (reports, w') = suite_reports (builtin_ops sample_services) sample_regex [(''a.ill'', empty_source)] 0 in \<exists>events.
    run_test \<lparr>fs_is_dir = (\<lambda>_. False), fs_read_to_string = (\<lambda>_. Inr []), fs_read_dir = (\<lambda>_. Inr [])\<rparr> 1
      (\<lambda>_. Inr empty_source) (builtin_ops sample_services) sample_regex [''a.ill''] (0 :: nat) =
    Some (Inr (if list_all tr_passed reports then 0 else 1), events, w')"
proof -
  let ?fs = "\<lparr>fs_is_dir = (\<lambda>_. False), fs_read_to_string = (\<lambda>_. Inr []), fs_read_dir = (\<lambda>_. Inr [])\<rparr>"
  have res: "resolve_files ?fs 1 [''a.ill''] = Some ([], [''a.ill''])" by code_simp
  have good: "\<not> list_ex (bad_file ?fs (\<lambda>_. Inr empty_source)) [''a.ill'']"
    by (simp add: bad_file_def check_file_def has_error_def validate_empty)
  have "parsed ?fs (\<lambda>_. Inr empty_source) [''a.ill''] = [(''a.ill'', empty_source)]"
    by (simp add: parsed_def)
  with test_exit_status [OF res _ lower_empty good, of "builtin_ops sample_services" sample_regex "0 :: nat"
      "\<lparr>fmt_str_debug = id, fmt_f64 = (\<lambda>_. [])\<rparr>" "\<lambda>_ _ _. ([], None)"] show ?thesis
    by (simp only: split_beta Let_def list.distinct simp_thms) blast
qed

text \<open>
  C22. No bad file is refused in silence: \<open>ill test\<close> and \<open>ill check\<close> exit with 1, and on standard error one reads of
  every selected file its read error, or each of its errors, rendered or in the plain form.
\<close>

theorem bad_files_explained:
  assumes "resolve_files fs fuel paths = Some (events0, files)" and "list_ex (bad_file fs low) files"
  shows "\<exists>events events'.
    run_test fs fuel low ops rx paths w = Some (Inr 1, events, w) \<and> run_check fs fuel low paths = Some (1, events') \<and>
    list_all (\<lambda>p. explained emit fs low p (stderr_text fm emit events) \<and>
      explained emit fs low p (stderr_text fm emit events')) files"
proof -
  obtain events where test: "run_test fs fuel low ops rx paths w = Some (Inr 1, events, w)"
    "\<And>p. p \<in> set files \<Longrightarrow> explained emit fs low p (stderr_text fm emit events)"
    using run_test_explains [OF assms, where ops = ops and rx = rx and w = w and emit = emit and fm = fm] by blast
  obtain events' where check: "run_check fs fuel low paths = Some (1, events')"
    "\<And>p. p \<in> set files \<Longrightarrow> explained emit fs low p (stderr_text fm emit events')"
    using run_check_explains [OF assms, where emit = emit and fm = fm] by blast
  from test check show ?thesis by (auto simp: list_all_iff)
qed

theorem bad_files_explained_witness:
  "\<exists>events. run_check \<lparr>fs_is_dir = (\<lambda>_. False), fs_read_to_string = (\<lambda>_. Inl ''gone''),
      fs_read_dir = (\<lambda>_. Inr [])\<rparr> 1 (\<lambda>_. Inr sample_source) [''a.ill''] = Some (1, events) \<and>
     sublist (''ill: error reading a.ill: gone'' @ newline)
       (stderr_text \<lparr>fmt_str_debug = id, fmt_f64 = (\<lambda>_. [])\<rparr> (\<lambda>_ _ _. ([], None)) events)"
proof -
  let ?fs = "\<lparr>fs_is_dir = (\<lambda>_. False), fs_read_to_string = (\<lambda>_. Inl ''gone''), fs_read_dir = (\<lambda>_. Inr [])\<rparr>"
  have res: "resolve_files ?fs 1 [''a.ill''] = Some ([], [''a.ill''])" by code_simp
  have bad: "list_ex (bad_file ?fs (\<lambda>_. Inr sample_source)) [''a.ill'']" by (simp add: bad_file_def)
  from bad_files_explained [OF res bad, of "builtin_ops sample_services" sample_regex "0 :: nat" "\<lambda>_ _ _. ([], None)"
      "\<lparr>fmt_str_debug = id, fmt_f64 = (\<lambda>_. [])\<rparr>"]
  show ?thesis by (auto simp: explained_def)
qed

text \<open>
  C23. \<open>ill check\<close> and the gate of \<open>ill test\<close> agree: \<open>check\<close> exits with 0 exactly when there are files and
  none of them is bad.
\<close>

theorem check_agrees_with_gate:
  assumes "resolve_files fs fuel paths = Some (events0, files)"
  shows "\<exists>events. run_check fs fuel low paths =
    Some (if files = [] \<or> list_ex (bad_file fs low) files then 1 else 0, events)"
  using assms count_error_iff [of fs low files] by (auto simp: run_check_def Let_def)

theorem check_agrees_with_gate_witness:
  "\<exists>events. run_check \<lparr>fs_is_dir = (\<lambda>_. False), fs_read_to_string = (\<lambda>_. Inl ''gone''),
      fs_read_dir = (\<lambda>_. Inr [])\<rparr> 1 (\<lambda>_. Inr sample_source) [''a.ill''] = Some (1, events)"
proof -
  let ?fs = "\<lparr>fs_is_dir = (\<lambda>_. False), fs_read_to_string = (\<lambda>_. Inl ''gone''), fs_read_dir = (\<lambda>_. Inr [])\<rparr>"
  have res: "resolve_files ?fs 1 [''a.ill''] = Some ([], [''a.ill''])" by code_simp
  from check_agrees_with_gate [OF res, of "\<lambda>_. Inr sample_source"] show ?thesis
    by (simp add: bad_file_def)
qed

text \<open>
  C24. \<open>normalize\<close> computes its specification, which goes line by line: a line ends at CR LF, CR or LF, a tab is two
  spaces, white space at the end of a line goes, and so do empty lines at the end of the text. The result is in
  normal form, and the texts left alone are exactly those in normal form, so spans of the normalized
  text are spans of the file for those only.
\<close>

theorem normalize_canonical:
  "normalize s = canonical_text s \<and> normal_form (normalize s) \<and> (normalize s = s \<longleftrightarrow> normal_form s)"
  using normalize_eq [of s] normal_form_normalize [of s] normalize_normal_form [of s] by metis

text \<open>
  C25. Escape sequences round-trip: for every text there is a spelling without newlines, tabs, carriage
  returns or zero bytes that \<open>unescape\<close> reads as that text; and \<open>unescape\<close> answers UTF-8 on UTF-8.
\<close>

theorem unescape_round_trip:
  "unescape (escape s) = Inr s \<and> set (escape s) \<inter> {CHR 0x0A, CHR 0x09, CHR 0x0D, CHR 0x00} = {} \<and>
   (utf8_valid (as_bytes t) \<and> unescape t = Inr r \<longrightarrow> utf8_valid (as_bytes r))"
  using unescape_escape [of s] escape_plain [of _ s] unescape_valid [of t r] by blast

theorem unescape_round_trip_witness:
  "utf8_valid (as_bytes [CHR ''a'', CHR 0x0A])"
proof -
  have "utf8_valid (as_bytes [CHR ''a'', CHR 0x5C, CHR ''n''])" by code_simp
  moreover have "unescape [CHR ''a'', CHR 0x5C, CHR ''n''] = Inr [CHR ''a'', CHR 0x0A]" by code_simp
  ultimately show ?thesis
    using unescape_round_trip [of "[]" "[CHR ''a'', CHR 0x5C, CHR ''n'']" "[CHR ''a'', CHR 0x0A]"] by blast
qed

text \<open>
  C26. The directory walk ends on every tree of finite depth: fuel above the rank of the directory is enough.
\<close>

theorem directory_walk_ends:
  assumes "ranked fs rank" and "rank dir < fuel"
  shows "\<exists>events files. collect_ill_files fs fuel dir = Some (events, files)"
  using collect_total [OF assms, of "([], [])"] by (auto simp: collect_ill_files_def)

theorem directory_walk_ends_witness:
  "\<exists>events files. collect_ill_files
     \<lparr>fs_is_dir = (\<lambda>_. False), fs_read_to_string = (\<lambda>_. Inr []), fs_read_dir = (\<lambda>_. Inr [Inr ''a.ill''])\<rparr> 1 ''.'' =
     Some (events, files)"
  by (rule directory_walk_ends [of _ "\<lambda>_. 0"]) (simp_all add: ranked_def)

text \<open>
  C27. The walk returns exactly the \<open>.ill\<close> files below the directory, in path order.
\<close>

theorem directory_walk_exact:
  assumes "collect_ill_files fs fuel dir = Some (events, files)"
  shows "set files = {path. ill_below fs dir path} \<and> sorted (map path_components files)"
  using collect_ill_files_spec [OF assms] by simp

theorem directory_walk_exact_witness:
  "sorted (map path_components [''a.ill'', ''b.ill''])"
proof -
  have "collect_ill_files \<lparr>fs_is_dir = (\<lambda>_. False), fs_read_to_string = (\<lambda>_. Inr []),
      fs_read_dir = (\<lambda>_. Inr [Inr ''b.ill'', Inr ''x.txt'', Inr ''a.ill''])\<rparr> 1 ''.'' =
    Some ([], [''a.ill'', ''b.ill''])" by code_simp
  from directory_walk_exact [OF this] show ?thesis by simp
qed

text \<open>
  C28. Hexadecimal literals: decoding returns \<open>bs\<close> exactly when the characters that are not white space
  spell the nibbles of \<open>bs\<close>, high nibble first.
\<close>

theorem decode_hex_spec:
  "decode_hex s = Inr bs \<longleftrightarrow>
     map hex_nibble (filter (\<lambda>c. \<not> is_ascii_whitespace c) s) = map Some (nibbles bs)"
  by (auto simp: decode_hex_def decode_hex_loop_Inr_iff)

text \<open>
  C29. Order of teardown: the instances are torn down in reverse construction order, a panicking or
  cancelled one not stopping the others, and the reports come in construction order.
\<close>

theorem teardown_in_reverse:
  "teardown_all ops actors w =
     (rev (fst (teardown_seq ops (rev actors) w)), snd (teardown_seq ops (rev actors) w)) \<and>
   map tdr_actor (fst (teardown_all ops actors w)) = map fst actors"
  by (simp add: teardown_all_eq teardown_all_names flip: teardown_all_eq)

text \<open>
  C30. Teardown is idempotent: after a teardown, successful or not, the instance holds no process, container
  or connection, and tearing it down again answers ok and leaves the world and the instance alone.
\<close>

theorem teardown_idempotent:
  "exec_teardown es (fst (snd (exec_teardown es i1 w1))) w = (teardown_ok, fst (snd (exec_teardown es i1 w1)), w) \<and>
   container_teardown ds (fst (snd (container_teardown ds i2 w2))) w =
     (teardown_ok, fst (snd (container_teardown ds i2 w2)), w) \<and>
   pg_teardown ps (fst (snd (pg_teardown ps i3 w3))) w = (teardown_ok, fst (snd (pg_teardown ps i3 w3)), w) \<and>
   mqtt_teardown ms (fst (snd (mqtt_teardown ms i4 w4))) w = (teardown_ok, fst (snd (mqtt_teardown ms i4 w4)), w)"
  by (simp add: exec_teardown_twice container_teardown_twice pg_teardown_twice mqtt_teardown_twice)

text \<open>
  C31. No diagnostic is swallowed by a renderer error: each one is either rendered without an error, with its
  text in the output, or is in the plain dump with its message and notes.
\<close>

theorem diagnostics_survive_rendering:
  assumes "d \<in> set diags"
  shows "snd (emit path src (to_csr d)) = None \<and>
      sublist (fst (emit path src (to_csr d))) (render_with_fallback emit path src diags) \<or>
    sublist (plain_diagnostic d) (render_with_fallback emit path src diags)"
  using assms by (rule render_with_fallback_keeps)

theorem diagnostics_survive_rendering_witness:
  "sublist (plain_diagnostic (diag_error sample_span ParseError ''m''))
     (render_with_fallback (\<lambda>_ _ _. ([], Some ''bad span'')) ''t.ill'' [] [diag_error sample_span ParseError ''m''])"
  using diagnostics_survive_rendering [of "diag_error sample_span ParseError ''m''"
      "[diag_error sample_span ParseError ''m'']" "\<lambda>_ _ _. ([], Some ''bad span'')" "''t.ill''" "[]"] by simp

text \<open>
  C32. \<open>args_actor\<close>, for variables with distinct names: construction succeeds with some members exactly when every
  \<open>--arg\<close> is declared and the members are the variables in order, each with its value: the default, the text
  of the \<open>--arg\<close> when there is no default, or the value of the default's type that the text spells.
\<close>

theorem args_members_resolved:
  assumes "distinct (map dv_name (ca_vars args))"
  shows "args_construct args cli = Inr inst \<longleftrightarrow>
    set (map fst cli) \<subseteq> dv_name ` set (ca_vars args) \<and>
    list_all2 (\<lambda>var (n, v). n = dv_name var \<and> member_value cli var v) (ca_vars args) (ai_members inst)"
  using assms by (rule args_construct_iff)

theorem args_members_resolved_witness:
  "args_construct \<lparr>ca_keyword = [], ca_source_dir = ''.'', ca_vars = [\<lparr>dv_name = ''port'', dv_default = Some (VNumber 80)\<rparr>]\<rparr>
     [(''port'', ''81'')] = Inr \<lparr>ai_members = [(''port'', VNumber 81)]\<rparr>"
proof -
  have "parse_i64 ''81'' = Some 81" by code_simp
  then show ?thesis by (subst args_members_resolved) (simp_all add: member_value_def)
qed

text \<open>
  C33. Round trip: the text an interpolation renders for a string, an \<open>i64\<close> or a boolean is coerced back
  to that value by \<open>--arg\<close>.
\<close>

theorem arg_round_trip:
  assumes "wf_val v" and "interpolate v = Inr s" and "type_name v \<in> {''string'', ''number'', ''bool''}"
  shows "coerce_to s v n = Inr v"
  using assms by (cases v) (auto simp: coerce_to_def parse_i64_show_int show_bool_def parse_bool_def split: if_splits)

theorem arg_round_trip_witness:
  "coerce_to ''-42'' (VNumber (-42)) ''n'' = Inr (VNumber (-42))"
proof -
  have "interpolate (VNumber (-42)) = Inr ''-42''" by code_simp
  then show ?thesis by (intro arg_round_trip) (simp_all add: in_i64_def i64_min_def i64_max_def)
qed

text \<open>
  C34. \<open>--arg\<close> items parse exactly when each has an \<open>=\<close>, a key that is not blank, and no key occurs twice;
  the map holds each trimmed key with its value, in key order.
\<close>

theorem parse_cli_args_spec:
  "parse_cli_args raw = Inr m \<longleftrightarrow>
     (\<exists>kvs. map arg_entry raw = map Some kvs \<and> [] \<notin> fst ` set kvs \<and> distinct (map fst kvs) \<and>
        m = fold (\<lambda>(k, v). btree_insert k v) kvs [])"
  by (simp add: parse_cli_args_def parse_fold_iff)

text \<open>
  C35. The squiggle check is complete: an expression for which it adds no diagnostic never fails with an
  unknown name the validator should have caught.
\<close>

theorem checked_squiggles_resolve:
  assumes "check_squiggles_in_expr e v = v" and "v_diagnostics v = []" and "eval e s = Inl err"
  shows "\<not> drift_error err"
proof -
  from assms(1,2) sq_expr.clean [of e v] have "squiggles_known e" by simp
  then show ?thesis using assms(3) by (rule eval_no_drift)
qed

theorem checked_squiggles_resolve_witness:
  "\<not> drift_error (REval ''undefined name `x`'')"
proof -
  have "check_squiggles_in_expr (EIdent (sample_ident ''x'')) validator_init = validator_init"
    by (simp add: check_squiggles_in_expr_def unknown_squiggle_diag_def)
  moreover have "v_diagnostics validator_init = []" by (simp add: validator_init_def)
  moreover have "eval (EIdent (sample_ident ''x'')) scope_new = Inl (REval ''undefined name `x`'')" by code_simp
  ultimately show ?thesis by (rule checked_squiggles_resolve)
qed

text \<open>
  C36. Keyword arguments evaluate to a dictionary with one entry per key: the keys in the order they first
  occur, each with its last value. The first value that fails decides the error.
\<close>

theorem keyword_args_in_source_order:
  "eval_keyword_args args s =
    (let keys = map (\<lambda>kw. ident_name (kw_key kw)) args
     in map_sum id (\<lambda>vs. map (\<lambda>k. (k, the (map_of (rev (zip keys vs)) k))) (rev (remdups (rev keys))))
          (try_map (\<lambda>kw. eval_keyword_value (kw_value kw) s) args))"
proof -
  have "map fst (zip (map (\<lambda>kw. ident_name (kw_key kw)) args) vs) = map (\<lambda>kw. ident_name (kw_key kw)) args"
    if "try_map (\<lambda>kw. eval_keyword_value (kw_value kw) s) args = Inr vs" for vs
    using try_map_length [OF that] by simp
  then show ?thesis by (auto simp: eval_keyword_args_eq index_build_eq Let_def split: sum.splits)
qed

text \<open>
  C37. Member slots: a sequence of assignments fails exactly when one is to an undeclared name; otherwise the
  view bound to \<open>self\<close> holds, in name order, the value last assigned to each name, or else its default.
\<close>

theorem member_slots_spec:
  "case option_fold (\<lambda>(name, v). members_set name v) kvs (members_from_declarations vars) of
     None \<Rightarrow> \<not> fst ` set kvs \<subseteq> dv_name ` set vars
   | Some m \<Rightarrow> fst ` set kvs \<subseteq> dv_name ` set vars \<and> sorted_wrt (<) (map fst (assigned_view m)) \<and>
       (\<forall>n. map_of (assigned_view m) n =
         (case map_of (rev kvs) n of
            Some v \<Rightarrow> Some v
          | None \<Rightarrow> Option.bind (map_of (rev (map (\<lambda>v. (dv_name v, dv_default v)) vars)) n) id))"
  by (rule members_spec)

text \<open>
  C38. Negated operators: an operator and its negation (\<open>==\<close>/\<open>!=\<close>, \<open>>\<close>/\<open><=\<close>, \<open>>=\<close>/\<open><\<close>,
  \<open>contains\<close>/\<open>!contains\<close>, \<open>matches\<close>/\<open>!matches\<close>) give opposite answers and the same errors.
\<close>

theorem comparison_negation:
  "compare rx l r (negate_op op) = map_sum id Not (compare rx l r op)"
proof -
  have "map_sum id (\<lambda>b. b) x = x" for x :: "runtime_error + bool" by (cases x) simp_all
  then show ?thesis by (cases op) (auto simp: map_sum_id_comp)
qed

text \<open>
  C39. The contract of \<open>resolve_command\<close>: the count of consumed positionals never exceeds their number, so
  the slices in the validator and the harness cannot panic, and the command is one of the type's own.
\<close>

theorem resolve_command_in_bounds:
  assumes "resolve_command ty name positional = Some (c, k)"
  shows "k \<le> length positional \<and> c \<in> set (at_commands ty)"
  using resolve_command_SomeD [OF assms] by simp

theorem resolve_command_in_bounds_witness:
  "resolve_command mqtt_client ''receive'' [EIdent (sample_ident ''publish'')] = Some (mqtt_receive_publish, 1)
   \<and> 1 \<le> length [EIdent (sample_ident ''publish'')]"
proof -
  have r: "resolve_command mqtt_client ''receive'' [EIdent (sample_ident ''publish'')] =
      Some (mqtt_receive_publish, 1)"
    by (simp add: resolve_command_def resolve_mqtt_def find_command_def sample_ident_def ill_simps)
  with resolve_command_in_bounds [OF r] show ?thesis by simp
qed


end
